(* ===== verification/Prelude.thy ===== *)
theory Prelude
  imports Complex_Main "HOL-Library.Multiset" "HOL-Library.Sublist"
begin

text \<open>
  Shared material of the development: the theorem collections the component theories fill,
  the list routines of JavaScript's \<^verbatim>\<open>Array.prototype\<close> the sources use (\<open>find_index\<close> for
  \<^verbatim>\<open>findIndex\<close>, \<open>dedup\<close> for \<^verbatim>\<open>Array.from(new Set(xs))\<close>, \<open>stable_sort\<close> for \<^verbatim>\<open>sort\<close>) and the
  locale \<open>comparator\<close> under which a sort comparator orders its result.
\<close>

named_theorems js_simps \<open>evaluation of JavaScript primitives\<close>
named_theorems inv_intros \<open>invariant preservation\<close>

section \<open>Array routines\<close>

text \<open>\<^verbatim>\<open>xs.findIndex(p)\<close>, with \<open>None\<close> for the result -1.\<close>

fun find_index :: "('a \<Rightarrow> bool) \<Rightarrow> 'a list \<Rightarrow> nat option" where
  "find_index p [] = None"
| "find_index p (x # xs) = (if p x then Some 0 else map_option Suc (find_index p xs))"

text \<open>
  \<^verbatim>\<open>Array.from(new Set(xs))\<close>: the elements in order of their first occurrence.
\<close>

fun dedup_acc :: "'a list \<Rightarrow> 'a list \<Rightarrow> 'a list" where
  "dedup_acc seen [] = []"
| "dedup_acc seen (x # xs) =
     (if x \<in> set seen then dedup_acc seen xs else x # dedup_acc (x # seen) xs)"

definition dedup :: "'a list \<Rightarrow> 'a list" where
  "dedup xs = dedup_acc [] xs"

text \<open>
  \<^verbatim>\<open>xs.splice(i, 0, x)\<close> and \<^verbatim>\<open>xs.splice(i, 1)\<close> on a copy of the array, for an index in range.
\<close>

definition insert_at :: "nat \<Rightarrow> 'a \<Rightarrow> 'a list \<Rightarrow> 'a list" where
  "insert_at i x xs = take i xs @ x # drop i xs"

definition remove_at :: "nat \<Rightarrow> 'a list \<Rightarrow> 'a list" where
  "remove_at i xs = take i xs @ drop (Suc i) xs"

text \<open>
  \<^verbatim>\<open>xs.sort(cmp)\<close>. The ECMAScript sort is stable; \<open>le a b\<close> stands for \<^verbatim>\<open>cmp(a, b) <= 0\<close>.
  For a consistent comparator the stable sort is unique, so insertion sort computes it.
\<close>

fun insert_by :: "('a \<Rightarrow> 'a \<Rightarrow> bool) \<Rightarrow> 'a \<Rightarrow> 'a list \<Rightarrow> 'a list" where
  "insert_by le x [] = [x]"
| "insert_by le x (y # ys) = (if le x y then x # y # ys else y # insert_by le x ys)"

definition stable_sort :: "('a \<Rightarrow> 'a \<Rightarrow> bool) \<Rightarrow> 'a list \<Rightarrow> 'a list" where
  "stable_sort le xs = foldr (insert_by le) xs []"

section \<open>Lemmas on the array routines\<close>

lemma find_index_None [simp]: "find_index p xs = None \<longleftrightarrow> (\<forall>x \<in> set xs. \<not> p x)"
  by (induction xs) auto

lemma find_index_Some:
  "find_index p xs = Some i \<Longrightarrow> i < length xs \<and> p (xs ! i) \<and> (\<forall>j < i. \<not> p (xs ! j))"
proof (induction xs arbitrary: i)
  case Nil
  then show ?case by simp
next
  case (Cons x xs)
  show ?case
  proof (cases "p x")
    case True
    with Cons.prems show ?thesis by simp
  next
    case False
    with Cons.prems obtain j where j: "find_index p xs = Some j" "i = Suc j" by auto
    from Cons.IH [OF j(1)] j(2) False show ?thesis
      by (auto simp: less_Suc_eq_0_disj)
  qed
qed

lemma find_index_append_hit:
  "(\<forall>x \<in> set xs. \<not> p x) \<Longrightarrow> p y \<Longrightarrow> find_index p (xs @ y # ys) = Some (length xs)"
  by (induction xs) auto

lemma set_dedup_acc: "set (dedup_acc seen xs) = set xs - set seen"
  by (induction xs arbitrary: seen) auto

lemma set_dedup [simp]: "set (dedup xs) = set xs"
  by (simp add: dedup_def set_dedup_acc)

lemma distinct_dedup_acc: "distinct (dedup_acc seen xs)"
  by (induction xs arbitrary: seen) (auto simp: set_dedup_acc)

lemma distinct_dedup [simp]: "distinct (dedup xs)"
  by (simp add: dedup_def distinct_dedup_acc)

lemma dedup_acc_id: "distinct xs \<Longrightarrow> set xs \<inter> set seen = {} \<Longrightarrow> dedup_acc seen xs = xs"
  by (induction xs arbitrary: seen) auto

lemma dedup_id [simp]: "distinct xs \<Longrightarrow> dedup xs = xs"
  by (simp add: dedup_def dedup_acc_id)

lemma mset_insert_at: "mset (insert_at i x xs) = add_mset x (mset xs)"
proof -
  have "mset xs = mset (take i xs) + mset (drop i xs)"
    by (simp flip: mset_append)
  then show ?thesis by (simp add: insert_at_def)
qed

lemma set_insert_at [simp]: "set (insert_at i x xs) = insert x (set xs)"
  by (metis mset_insert_at set_mset_add_mset_insert set_mset_mset)

lemma mset_remove_at: "i < length xs \<Longrightarrow> add_mset (xs ! i) (mset (remove_at i xs)) = mset xs"
  by (metis id_take_nth_drop mset.simps(2) mset_append remove_at_def union_mset_add_mset_right)

lemma mset_insert_by [simp]: "mset (insert_by le x xs) = add_mset x (mset xs)"
  by (induction xs) auto

lemma set_insert_by [simp]: "set (insert_by le x xs) = insert x (set xs)"
  by (metis mset_insert_by set_mset_add_mset_insert set_mset_mset)

lemma stable_sort_Nil [simp]: "stable_sort le [] = []"
  by (simp add: stable_sort_def)

lemma stable_sort_Cons [simp]: "stable_sort le (x # xs) = insert_by le x (stable_sort le xs)"
  by (simp add: stable_sort_def)

lemma mset_stable_sort [simp]: "mset (stable_sort le xs) = mset xs"
  by (induction xs) auto

lemma set_stable_sort [simp]: "set (stable_sort le xs) = set xs"
  by (metis mset_stable_sort set_mset_mset)

lemma length_stable_sort [simp]: "length (stable_sort le xs) = length xs"
  by (metis mset_stable_sort size_mset)

lemma distinct_stable_sort [simp]: "distinct (stable_sort le xs) = distinct xs"
  by (metis mset_stable_sort mset_eq_imp_distinct_iff)

section \<open>Comparators\<close>

text \<open>
  What \<^verbatim>\<open>Array.prototype.sort\<close> requires of a comparator (a consistent comparison function):
  totality and transitivity. Under it the result is ordered, and a list that is ordered already
  is left as it is.
\<close>

locale comparator =
  fixes le :: "'a \<Rightarrow> 'a \<Rightarrow> bool"
  assumes total: "le x y \<or> le y x"
    and trans: "le x y \<Longrightarrow> le y z \<Longrightarrow> le x z"
begin

lemma sorted_insert_by: "sorted_wrt le xs \<Longrightarrow> sorted_wrt le (insert_by le x xs)"
proof (induction xs)
  case Nil
  then show ?case by simp
next
  case (Cons y ys)
  then show ?case using total trans by auto
qed

lemma sorted_stable_sort: "sorted_wrt le (stable_sort le xs)"
  by (induction xs) (auto intro: sorted_insert_by)

lemma insert_by_le: "\<forall>y \<in> set xs. le x y \<Longrightarrow> insert_by le x xs = x # xs"
  by (cases xs) auto

lemma stable_sort_sorted: "sorted_wrt le xs \<Longrightarrow> stable_sort le xs = xs"
  by (induction xs) (auto simp: insert_by_le)

lemma stable_sort_idem: "stable_sort le (stable_sort le xs) = stable_sort le xs"
  by (rule stable_sort_sorted) (rule sorted_stable_sort)

end

text \<open>The order of a sort key: \<^verbatim>\<open>(a, b) => key(a) - key(b)\<close>.\<close>

definition key_le :: "('a \<Rightarrow> 'k::linorder) \<Rightarrow> 'a \<Rightarrow> 'a \<Rightarrow> bool" where
  "key_le f x y = (f x \<le> f y)"

interpretation key_order: comparator "key_le f" for f :: "'a \<Rightarrow> 'k::linorder"
  by unfold_locales (auto simp: key_le_def)

section \<open>State machines\<close>

text \<open>
  A component that reacts to events: \<open>step e s\<close> is the state after the event \<open>e\<close>. An invariant
  that every step keeps holds after any sequence of events.
\<close>

locale state_machine =
  fixes step :: "'e \<Rightarrow> 's \<Rightarrow> 's" and inv :: "'s \<Rightarrow> bool"
  assumes step_inv: "inv s \<Longrightarrow> inv (step e s)"
begin

lemma run_inv: "inv s \<Longrightarrow> inv (fold step es s)"
  by (induction es arbitrary: s) (auto intro: step_inv)

end

text \<open>A machine that implements a transition system: every step is a sequence of abstract steps.\<close>

locale simulation =
  fixes step :: "'e \<Rightarrow> 's \<Rightarrow> 's" and abs_state :: "'s \<Rightarrow> 'a" and abs_step :: "'a \<Rightarrow> 'a \<Rightarrow> bool"
  assumes step_sim: "abs_step\<^sup>*\<^sup>* (abs_state s) (abs_state (step e s))"
begin

lemma run_sim: "abs_step\<^sup>*\<^sup>* (abs_state s) (abs_state (fold step es s))"
proof (induction es arbitrary: s)
  case (Cons e es)
  then show ?case using step_sim [of s e] rtranclp_trans by fastforce
qed simp

lemma run_abs_inv: "(\<And>a b. abs_step a b \<Longrightarrow> P a \<Longrightarrow> P b) \<Longrightarrow> P (abs_state s) \<Longrightarrow> P (abs_state (fold step es s))"
  using run_sim [of s es] by (rule rtranclp_induct [of abs_step "abs_state s" _ P]) auto

end

end
