(* ===== verification/Js_String.thy ===== *)
theory Js_String
  imports Prelude
begin

text \<open>
  JavaScript strings. A string is its list of UTF-16 code units, each a natural number below
  \<open>2 ^ 16\<close>; the definitions do not depend on that bound. \<open>lit\<close> embeds an ASCII literal of the
  source. The operations are those of \<^verbatim>\<open>String.prototype\<close> the modelled sources call: \<^verbatim>\<open>trim\<close>,
  \<^verbatim>\<open>split\<close>, \<^verbatim>\<open>join\<close>, \<^verbatim>\<open>startsWith\<close>, \<^verbatim>\<open>includes\<close>, \<^verbatim>\<open>indexOf\<close>, \<^verbatim>\<open>slice\<close>, \<^verbatim>\<open>replaceAll\<close> and
  \<^verbatim>\<open>toLowerCase\<close>. Case conversion outside ASCII follows Unicode tables that are data of the
  engine: it is a parameter of \<open>to_lower\<close> and \<open>to_upper\<close>.
\<close>

type_synonym jstring = "nat list"

section \<open>Literals and character classes\<close>

definition lit :: "string \<Rightarrow> jstring" where
  "lit s = map of_char s"

definition is_digit :: "nat \<Rightarrow> bool" where
  "is_digit c \<longleftrightarrow> 48 \<le> c \<and> c \<le> 57"

text \<open>ECMAScript WhiteSpace and LineTerminator, what \<^verbatim>\<open>trim\<close> removes.\<close>

definition ws_units :: "nat list" where
  "ws_units = [9, 10, 11, 12, 13, 32, 160, 5760, 8192, 8193, 8194, 8195, 8196, 8197, 8198,
     8199, 8200, 8201, 8202, 8232, 8233, 8239, 8287, 12288, 65279]"

definition is_ws :: "nat \<Rightarrow> bool" where
  "is_ws c \<longleftrightarrow> c \<in> set ws_units"

section \<open>Operations\<close>

definition trim_start :: "jstring \<Rightarrow> jstring" where
  "trim_start s = dropWhile is_ws s"

definition trim_end :: "jstring \<Rightarrow> jstring" where
  "trim_end s = rev (dropWhile is_ws (rev s))"

definition trim :: "jstring \<Rightarrow> jstring" where
  "trim s = trim_end (trim_start s)"

text \<open>\<^verbatim>\<open>s.split(c)\<close> for a separator of one code unit, and \<^verbatim>\<open>xs.join(sep)\<close>.\<close>

fun split_on :: "'a \<Rightarrow> 'a list \<Rightarrow> 'a list list" where
  "split_on c [] = [[]]"
| "split_on c (x # xs) =
     (if x = c then [] # split_on c xs
      else (x # hd (split_on c xs)) # tl (split_on c xs))"

fun join :: "'a list \<Rightarrow> 'a list list \<Rightarrow> 'a list" where
  "join sep [] = []"
| "join sep [x] = x"
| "join sep (x # y # ys) = x @ sep @ join sep (y # ys)"

definition starts_with :: "jstring \<Rightarrow> jstring \<Rightarrow> bool" where
  "starts_with s p \<longleftrightarrow> take (length p) s = p"

definition ends_with :: "jstring \<Rightarrow> jstring \<Rightarrow> bool" where
  "ends_with s p \<longleftrightarrow> length p \<le> length s \<and> drop (length s - length p) s = p"

text \<open>\<^verbatim>\<open>s.indexOf(p)\<close>, with \<open>None\<close> for -1.\<close>

fun index_of :: "jstring \<Rightarrow> jstring \<Rightarrow> nat option" where
  "index_of [] p = (if p = [] then Some 0 else None)"
| "index_of (c # s) p =
     (if starts_with (c # s) p then Some 0 else map_option Suc (index_of s p))"

definition includes_str :: "jstring \<Rightarrow> jstring \<Rightarrow> bool" where
  "includes_str s p \<longleftrightarrow> index_of s p \<noteq> None"

text \<open>\<^verbatim>\<open>s.slice(i)\<close> and \<^verbatim>\<open>s.slice(i, j)\<close> for indices that are not negative.\<close>

definition slice_from :: "nat \<Rightarrow> 'a list \<Rightarrow> 'a list" where
  "slice_from i s = drop i s"

definition slice :: "nat \<Rightarrow> nat \<Rightarrow> 'a list \<Rightarrow> 'a list" where
  "slice i j s = take (j - i) (drop i s)"

text \<open>\<^verbatim>\<open>s.replaceAll(p, r)\<close> for a pattern of one unit (\<open>replace_unit\<close>) and of two.\<close>

definition replace_unit :: "nat \<Rightarrow> jstring \<Rightarrow> jstring \<Rightarrow> jstring" where
  "replace_unit c r s = concat (map (\<lambda>x. if x = c then r else [x]) s)"

fun replace_pair :: "nat \<Rightarrow> nat \<Rightarrow> jstring \<Rightarrow> jstring \<Rightarrow> jstring" where
  "replace_pair a b r (x # y # s) =
     (if x = a \<and> y = b then r @ replace_pair a b r s else x # replace_pair a b r (y # s))"
| "replace_pair a b r s = s"

text \<open>
  \<^verbatim>\<open>toLowerCase\<close> and \<^verbatim>\<open>toUpperCase\<close>: the ASCII letters, and outside ASCII the engine's Unicode
  mapping \<open>uc\<close>, which may map one unit to several.
\<close>

type_synonym unicode_map = "nat \<Rightarrow> jstring"

definition to_lower :: "unicode_map \<Rightarrow> jstring \<Rightarrow> jstring" where
  "to_lower uc s =
     concat (map (\<lambda>c. if c < 128 then [if 65 \<le> c \<and> c \<le> 90 then c + 32 else c] else uc c) s)"

definition to_upper :: "unicode_map \<Rightarrow> jstring \<Rightarrow> jstring" where
  "to_upper uc s =
     concat (map (\<lambda>c. if c < 128 then [if 97 \<le> c \<and> c \<le> 122 then c - 32 else c] else uc c) s)"

text \<open>The order of \<^verbatim>\<open>xs.sort()\<close> on strings: lexicographic by code units.\<close>

fun str_le :: "jstring \<Rightarrow> jstring \<Rightarrow> bool" where
  "str_le [] t = True"
| "str_le (c # s) [] = False"
| "str_le (c # s) (d # t) = (c < d \<or> c = d \<and> str_le s t)"

section \<open>Decimal digits of natural numbers\<close>

fun show_nat :: "nat \<Rightarrow> jstring" where
  "show_nat n = (if n < 10 then [48 + n] else show_nat (n div 10) @ [48 + n mod 10])"

declare show_nat.simps [simp del]

definition digits_val :: "jstring \<Rightarrow> nat" where
  "digits_val s = foldl (\<lambda>n c. 10 * n + (c - 48)) 0 s"

definition all_digits :: "jstring \<Rightarrow> bool" where
  "all_digits s \<longleftrightarrow> s \<noteq> [] \<and> (\<forall>c \<in> set s. is_digit c)"

section \<open>Lemmas on literals\<close>

lemma lit_Nil [simp]: "lit [] = []"
  by (simp add: lit_def)

lemma lit_eq_iff [simp]: "lit a = lit b \<longleftrightarrow> a = b"
proof -
  have "inj (of_char :: char \<Rightarrow> nat)" by (simp add: inj_on_def)
  then show ?thesis by (simp add: lit_def inj_map_eq_map)
qed

lemma lit_eq_Nil [simp]: "lit a = [] \<longleftrightarrow> a = []" "[] = lit a \<longleftrightarrow> a = []"
  by (auto simp: lit_def)

lemma length_lit [simp]: "length (lit a) = length a"
  by (simp add: lit_def)

lemma lit_append: "lit (a @ b) = lit a @ lit b"
  by (simp add: lit_def)

lemma str_le_total: "str_le a b \<or> str_le b a"
  by (induction a b rule: str_le.induct) auto

lemma str_le_trans: "str_le a b \<Longrightarrow> str_le b c \<Longrightarrow> str_le a c"
proof (induction a b arbitrary: c rule: str_le.induct)
  case (3 x a y b)
  then show ?case by (cases c) auto
qed simp_all

interpretation string_order: comparator str_le
  by unfold_locales (use str_le_total str_le_trans in blast)+

section \<open>Lemmas on trim\<close>

lemma trim_start_idem [simp]: "trim_start (trim_start s) = trim_start s"
  by (simp add: trim_start_def)

lemma trim_end_idem [simp]: "trim_end (trim_end s) = trim_end s"
  by (simp add: trim_end_def)

lemma trim_start_Nil [simp]: "trim_start [] = []"
  by (simp add: trim_start_def)

lemma trim_Nil [simp]: "trim [] = []"
  by (simp add: trim_def trim_start_def trim_end_def)

lemma trim_start_keep: "s = [] \<or> \<not> is_ws (hd s) \<Longrightarrow> trim_start s = s"
  by (cases s) (auto simp: trim_start_def)

lemma trim_end_keep: "s = [] \<or> \<not> is_ws (last s) \<Longrightarrow> trim_end s = s"
  by (cases s rule: rev_cases) (auto simp: trim_end_def)

lemma trim_end_snoc: "trim_end (s @ [c]) = (if is_ws c then trim_end s else s @ [c])"
  by (simp add: trim_end_def)

lemma trim_end_prefix: "\<exists>t. s = trim_end s @ t \<and> (\<forall>c \<in> set t. is_ws c)"
proof (induction s rule: rev_induct)
  case Nil
  then show ?case by (simp add: trim_end_def)
next
  case (snoc c s)
  then obtain t where t: "s = trim_end s @ t" "\<forall>c \<in> set t. is_ws c" by blast
  show ?case
  proof (cases "is_ws c")
    case True
    with t show ?thesis
      by (intro exI [of _ "t @ [c]"]) (simp add: trim_end_snoc)
  next
    case False
    then show ?thesis by (simp add: trim_end_snoc)
  qed
qed

lemma hd_trim_start: "trim_start s \<noteq> [] \<Longrightarrow> \<not> is_ws (hd (trim_start s))"
  unfolding trim_start_def by (rule hd_dropWhile)

lemma last_trim_end: "trim_end s \<noteq> [] \<Longrightarrow> \<not> is_ws (last (trim_end s))"
  unfolding trim_end_def by (metis hd_dropWhile last_rev rev_is_Nil_conv)

lemma trim_end_hd: "trim_end s \<noteq> [] \<Longrightarrow> hd (trim_end s) = hd s"
  using trim_end_prefix [of s] by (metis hd_append2)

lemma trim_ends:
  assumes "trim s \<noteq> []"
  shows "\<not> is_ws (hd (trim s))" and "\<not> is_ws (last (trim s))"
proof -
  from assms have ne: "trim_start s \<noteq> []"
    by (auto simp: trim_def trim_end_def)
  show "\<not> is_ws (hd (trim s))"
    using assms hd_trim_start [OF ne] by (simp add: trim_def trim_end_hd)
  show "\<not> is_ws (last (trim s))"
    using assms by (simp add: trim_def last_trim_end)
qed

lemma trim_keep: "s \<noteq> [] \<Longrightarrow> \<not> is_ws (hd s) \<Longrightarrow> \<not> is_ws (last s) \<Longrightarrow> trim s = s"
  by (simp add: trim_def trim_start_keep trim_end_keep)

lemma trim_idem [simp]: "trim (trim s) = trim s"
proof (cases "trim s = []")
  case False
  then show ?thesis by (rule trim_keep) (use False trim_ends in auto)
qed simp

lemma trim_no_ws: "(\<forall>c \<in> set s. \<not> is_ws c) \<Longrightarrow> trim s = s"
  by (cases "s = []") (auto intro: trim_keep)

lemma trim_eq_Nil: "trim s = [] \<longleftrightarrow> (\<forall>c \<in> set s. is_ws c)"
proof
  assume "trim s = []"
  then have "\<forall>c \<in> set (trim_start s). is_ws c"
    using trim_end_prefix [of "trim_start s"] by (auto simp: trim_def)
  then show "\<forall>c \<in> set s. is_ws c"
    unfolding trim_start_def by (metis set_takeWhileD takeWhile_dropWhile_id UnE set_append)
next
  assume "\<forall>c \<in> set s. is_ws c"
  then have "trim_start s = []"
    by (simp add: trim_start_def)
  then show "trim s = []"
    by (simp add: trim_def trim_end_def)
qed

lemma set_trim_subset: "set (trim s) \<subseteq> set s"
proof -
  have "set (trim_end t) \<subseteq> set t" for t
    using trim_end_prefix [of t] by (metis set_append sup_ge1)
  moreover have "set (trim_start s) \<subseteq> set s"
    by (auto simp: trim_start_def dest: set_dropWhileD)
  ultimately show ?thesis unfolding trim_def by blast
qed

lemma is_ws_not_digit: "is_digit c \<Longrightarrow> \<not> is_ws c"
  by (auto simp: is_digit_def is_ws_def ws_units_def)

section \<open>Lemmas on split and join\<close>

lemma split_on_ne [simp]: "split_on c s \<noteq> []"
  by (cases s) auto

lemma split_on_no_sep: "c \<notin> set s \<Longrightarrow> split_on c s = [s]"
  by (induction s) auto

lemma split_on_append: "c \<notin> set s \<Longrightarrow> split_on c (s @ c # t) = s # split_on c t"
  by (induction s) auto

lemma split_on_elems: "x \<in> set (split_on c s) \<Longrightarrow> c \<notin> set x"
proof (induction s arbitrary: x)
  case (Cons a s)
  have "hd (split_on c s) \<in> set (split_on c s)" by simp
  with Cons show ?case
    by (auto split: if_splits dest: list.set_sel(2) [OF split_on_ne])
qed simp

lemma join_Cons: "join sep (x # xs) = (if xs = [] then x else x @ sep @ join sep xs)"
  by (cases xs) auto

lemma join_split_on: "join [c] (split_on c s) = s"
proof (induction s)
  case (Cons x s)
  then show ?case
    by (cases "split_on c s") (auto simp: join_Cons split: if_splits)
qed simp

lemma split_on_join:
  "xs \<noteq> [] \<Longrightarrow> (\<forall>x \<in> set xs. c \<notin> set x) \<Longrightarrow> split_on c (join [c] xs) = xs"
proof (induction "[c]" xs rule: join.induct)
  case 1
  then show ?case by simp
next
  case (2 x)
  then show ?case by (simp add: split_on_no_sep)
next
  case (3 x y ys)
  then show ?case by (simp add: split_on_append)
qed

lemma set_split_on: "x \<in> set (split_on c s) \<Longrightarrow> set x \<subseteq> set s"
proof (induction s arbitrary: x)
  case (Cons a s)
  have "hd (split_on c s) \<in> set (split_on c s)" by simp
  with Cons.IH have *: "set (hd (split_on c s)) \<subseteq> set s" by blast
  from Cons.prems have "x = [] \<or> x \<in> set (split_on c s) \<or> x = a # hd (split_on c s)"
    by (auto split: if_splits dest: list.set_sel(2) [OF split_on_ne])
  with * Cons.IH show ?case by fastforce
qed simp

section \<open>Lemmas on search and replacement\<close>

lemma starts_with_append [simp]: "starts_with (p @ s) p"
  by (simp add: starts_with_def)

lemma starts_with_iff: "starts_with s p \<longleftrightarrow> (\<exists>t. s = p @ t)"
  unfolding starts_with_def by (metis append_eq_conv_conj append_take_drop_id)

lemma starts_with_Nil [simp]: "starts_with s []"
  by (simp add: starts_with_def)

lemma index_of_Some:
  "index_of s p = Some i \<Longrightarrow> i + length p \<le> length s \<and> s = take i s @ p @ drop (i + length p) s"
proof (induction s arbitrary: i)
  case Nil
  then show ?case by (auto split: if_splits)
next
  case (Cons c s)
  show ?case
  proof (cases "starts_with (c # s) p")
    case True
    with Cons.prems have "i = 0" by simp
    moreover from True obtain t where t: "c # s = p @ t" by (auto simp: starts_with_iff)
    moreover from t have "length p \<le> length (c # s)" by (metis le_add1 length_append)
    ultimately show ?thesis by simp
  next
    case False
    with Cons.prems obtain j where "index_of s p = Some j" "i = Suc j" by auto
    with Cons.IH show ?thesis by auto
  qed
qed

lemma index_of_None: "index_of s p = None \<longleftrightarrow> (\<forall>a b. s \<noteq> a @ p @ b)"
proof (induction s)
  case Nil
  then show ?case by auto
next
  case (Cons c s)
  have "(\<exists>a b. c # s = a @ p @ b) \<longleftrightarrow> starts_with (c # s) p \<or> (\<exists>a b. s = a @ p @ b)"
    by (metis append_Cons append_Nil starts_with_iff list.exhaust list.inject)
  with Cons show ?case by auto
qed

lemma includes_str_iff: "includes_str s p \<longleftrightarrow> (\<exists>a b. s = a @ p @ b)"
  by (simp add: includes_str_def index_of_None)

lemma includes_str_unit [simp]: "includes_str s [c] \<longleftrightarrow> c \<in> set s"
  by (auto simp: includes_str_iff in_set_conv_decomp)

lemma set_join: "set (join sep xs) \<subseteq> set sep \<union> \<Union> (set ` set xs)"
  by (induction sep xs rule: join.induct) auto

lemma split_on_single: "split_on c s = [x] \<longleftrightarrow> c \<notin> set s \<and> x = s"
  by (metis join.simps(2) join_split_on list.set_intros(1) split_on_elems split_on_no_sep)

lemma replace_unit_Nil [simp]: "replace_unit c r [] = []"
  by (simp add: replace_unit_def)

lemma replace_unit_Cons [simp]:
  "replace_unit c r (x # s) = (if x = c then r else [x]) @ replace_unit c r s"
  by (simp add: replace_unit_def)

lemma replace_unit_append: "replace_unit c r (s @ t) = replace_unit c r s @ replace_unit c r t"
  by (simp add: replace_unit_def)

lemma replace_unit_id: "c \<notin> set s \<Longrightarrow> replace_unit c r s = s"
  by (induction s) auto

lemma set_replace_unit: "set (replace_unit c r s) \<subseteq> (set s - {c}) \<union> set r"
  by (induction s) auto

section \<open>Lemmas on digits\<close>

lemma show_nat_small: "n < 10 \<Longrightarrow> show_nat n = [48 + n]"
  by (simp add: show_nat.simps)

lemma show_nat_ne [simp]: "show_nat n \<noteq> []"
  by (subst show_nat.simps) simp

lemma show_nat_digits: "c \<in> set (show_nat n) \<Longrightarrow> is_digit c"
proof (induction n rule: show_nat.induct)
  case (1 n)
  then show ?case
    by (cases "n < 10") (auto simp: show_nat.simps [of n] is_digit_def)
qed

lemma all_digits_show_nat [simp]: "all_digits (show_nat n)"
  by (auto simp: all_digits_def dest: show_nat_digits)

lemma digits_val_snoc: "digits_val (s @ [c]) = 10 * digits_val s + (c - 48)"
  by (simp add: digits_val_def)

lemma digits_val_Nil [simp]: "digits_val [] = 0"
  by (simp add: digits_val_def)

lemma digits_val_show_nat [simp]: "digits_val (show_nat n) = n"
proof (induction n rule: show_nat.induct)
  case (1 n)
  show ?case
  proof (cases "n < 10")
    case True
    then show ?thesis by (simp add: show_nat_small digits_val_def)
  next
    case False
    with 1 show ?thesis
      by (simp add: show_nat.simps [of n] digits_val_snoc)
  qed
qed

lemma show_nat_inject [simp]: "show_nat m = show_nat n \<longleftrightarrow> m = n"
  by (metis digits_val_show_nat)

lemma hd_show_nat: "10 \<le> n \<Longrightarrow> hd (show_nat n) \<noteq> 48"
proof (induction n rule: show_nat.induct)
  case (1 n)
  have eq: "hd (show_nat n) = hd (show_nat (n div 10))"
    using "1.prems" by (simp add: show_nat.simps [of n])
  show ?case
  proof (cases "n div 10 < 10")
    case True
    with "1.prems" show ?thesis unfolding eq by (simp add: show_nat_small)
  next
    case False
    with 1 show ?thesis unfolding eq by simp
  qed
qed

lemma digits_val_append: "digits_val (s @ t) = digits_val s * 10 ^ length t + digits_val t"
proof (induction t rule: rev_induct)
  case (snoc c t)
  then show ?case
    by (simp add: digits_val_snoc algebra_simps flip: append_assoc)
qed simp

lemma digits_val_bound: "(\<forall>c \<in> set s. is_digit c) \<Longrightarrow> digits_val s < 10 ^ length s"
proof (induction s rule: rev_induct)
  case (snoc c s)
  then have "c - 48 \<le> 9" by (auto simp: is_digit_def)
  with snoc show ?case by (simp add: digits_val_snoc)
qed simp

lemma digits_val_replicate_0 [simp]: "digits_val (replicate n 48) = 0"
  by (induction n) (simp_all add: digits_val_snoc flip: replicate_append_same)

end
