(* ===== verification/Js_Number.thy ===== *)
theory Js_Number
  imports Js_String "HOL-Library.Log_Nat"
begin

text \<open>
  JavaScript numbers: IEEE 754 binary64 values. A finite number is the rational it stands for;
  \<open>double\<close> rounds a rational to binary64 (to nearest, ties to even, gradual underflow, overflow
  to an infinity) and every arithmetic operation rounds its exact result with it. The zero
  \<open>-0\<close> is identified with \<open>0\<close>; the modelled code tells them apart nowhere but in a division by
  a zero. Also here: \<^verbatim>\<open>Number(string)\<close>, \<^verbatim>\<open>parseInt\<close>, \<^verbatim>\<open>parseFloat\<close>, \<^verbatim>\<open>toFixed\<close>, \<^verbatim>\<open>String(number)\<close>
  (the shortest decimal that reads back), with the lemma that what is printed is read back.
\<close>

section \<open>Binary64\<close>

datatype jsnum = NaN | PosInf | NegInf | Fin rat

text \<open>\<open>flog b r\<close> is the floor of the base \<open>b\<close> logarithm of a positive rational.\<close>

definition flog :: "nat \<Rightarrow> rat \<Rightarrow> int" where
  "flog b r = (case quotient_of r of (n, d) \<Rightarrow>
     (let k = int (floorlog b (nat n)) - int (floorlog b (nat d))
      in if of_nat b powi k \<le> r then k else k - 1))"

definition round_even :: "rat \<Rightarrow> int" where
  "round_even r =
     (let f = \<lfloor>r\<rfloor>; d = r - of_int f
      in if d < 1 / 2 then f else if 1 / 2 < d then f + 1 else if even f then f else f + 1)"

definition round_mag :: "rat \<Rightarrow> rat" where
  "round_mag r =
     (let e = max (flog 2 r) (- 1022); u = 2 powi (e - 52) in of_int (round_even (r / u)) * u)"

definition double :: "rat \<Rightarrow> jsnum" where
  "double r =
     (if r = 0 then Fin 0
      else let v = round_mag \<bar>r\<bar>
           in if 2 ^ 1024 \<le> v then (if 0 < r then PosInf else NegInf) else Fin (sgn r * v))"

text \<open>The values a number variable can hold.\<close>

definition is_double :: "jsnum \<Rightarrow> bool" where
  "is_double x = (case x of Fin r \<Rightarrow> double r = Fin r | _ \<Rightarrow> True)"

section \<open>Arithmetic and comparison\<close>

fun num_neg :: "jsnum \<Rightarrow> jsnum" where
  "num_neg NaN = NaN"
| "num_neg PosInf = NegInf"
| "num_neg NegInf = PosInf"
| "num_neg (Fin r) = Fin (- r)"

fun num_add :: "jsnum \<Rightarrow> jsnum \<Rightarrow> jsnum" where
  "num_add (Fin a) (Fin b) = double (a + b)"
| "num_add NaN _ = NaN"
| "num_add _ NaN = NaN"
| "num_add PosInf NegInf = NaN"
| "num_add NegInf PosInf = NaN"
| "num_add PosInf _ = PosInf"
| "num_add _ PosInf = PosInf"
| "num_add NegInf _ = NegInf"
| "num_add _ NegInf = NegInf"

definition num_sub :: "jsnum \<Rightarrow> jsnum \<Rightarrow> jsnum" where
  "num_sub a b = num_add a (num_neg b)"

definition inf_of_sign :: "rat \<Rightarrow> jsnum" where
  "inf_of_sign s = (if 0 < s then PosInf else if s < 0 then NegInf else NaN)"

fun num_sign :: "jsnum \<Rightarrow> rat" where
  "num_sign NaN = 0"
| "num_sign PosInf = 1"
| "num_sign NegInf = - 1"
| "num_sign (Fin r) = sgn r"

fun num_mul :: "jsnum \<Rightarrow> jsnum \<Rightarrow> jsnum" where
  "num_mul (Fin a) (Fin b) = double (a * b)"
| "num_mul NaN _ = NaN"
| "num_mul _ NaN = NaN"
| "num_mul a b = inf_of_sign (num_sign a * num_sign b)"

text \<open>Division; by a zero it is \<open>NaN\<close> for a zero dividend and an infinity of the dividend's sign.\<close>

fun num_div :: "jsnum \<Rightarrow> jsnum \<Rightarrow> jsnum" where
  "num_div (Fin a) (Fin b) = (if b = 0 then inf_of_sign a else double (a / b))"
| "num_div NaN _ = NaN"
| "num_div _ NaN = NaN"
| "num_div (Fin a) _ = Fin 0"
| "num_div a (Fin b) = (if b < 0 then num_neg a else a)"
| "num_div _ _ = NaN"

fun num_less :: "jsnum \<Rightarrow> jsnum \<Rightarrow> bool" where
  "num_less (Fin a) (Fin b) = (a < b)"
| "num_less NaN _ = False"
| "num_less _ NaN = False"
| "num_less NegInf b = (b \<noteq> NegInf)"
| "num_less a PosInf = (a \<noteq> PosInf)"
| "num_less _ _ = False"

fun num_eq :: "jsnum \<Rightarrow> jsnum \<Rightarrow> bool" where
  "num_eq NaN _ = False"
| "num_eq a b = (a = b)"

definition num_le :: "jsnum \<Rightarrow> jsnum \<Rightarrow> bool" where
  "num_le a b = (num_less a b \<or> num_eq a b)"

text \<open>\<^verbatim>\<open>Number.isFinite\<close>, \<^verbatim>\<open>Number.isInteger\<close>, \<^verbatim>\<open>Math.floor\<close> and \<^verbatim>\<open>Math.round\<close>.\<close>

fun is_finite :: "jsnum \<Rightarrow> bool" where
  "is_finite (Fin r) = True"
| "is_finite _ = False"

fun is_integer :: "jsnum \<Rightarrow> bool" where
  "is_integer (Fin r) = (of_int \<lfloor>r\<rfloor> = r)"
| "is_integer _ = False"

fun math_floor :: "jsnum \<Rightarrow> jsnum" where
  "math_floor (Fin r) = Fin (of_int \<lfloor>r\<rfloor>)"
| "math_floor x = x"

fun math_round :: "jsnum \<Rightarrow> jsnum" where
  "math_round (Fin r) = Fin (of_int \<lfloor>r + 1 / 2\<rfloor>)"
| "math_round x = x"

abbreviation num_of_nat :: "nat \<Rightarrow> jsnum" where
  "num_of_nat n \<equiv> Fin (of_nat n)"

section \<open>Reading decimals\<close>

definition span_digits :: "jstring \<Rightarrow> jstring \<times> jstring" where
  "span_digits s = (takeWhile is_digit s, dropWhile is_digit s)"

text \<open>An exponent part at the front of \<open>s\<close>: its value and what follows, else \<open>(0, s)\<close>.\<close>

definition scan_exponent :: "jstring \<Rightarrow> int \<times> jstring" where
  "scan_exponent s = (case s of
       c # r \<Rightarrow>
         if c = 101 \<or> c = 69 then
           (case r of
              d # r' \<Rightarrow>
                let (sg, t) = (if d = 45 then (- 1, r') else if d = 43 then (1, r') else (1, r));
                    (ds, t') = span_digits t
                in if ds = [] then (0, s) else (sg * int (digits_val ds), t')
            | [] \<Rightarrow> (0, s))
         else (0, s)
     | [] \<Rightarrow> (0, s))"

text \<open>
  The longest StrUnsignedDecimalLiteral (digits, point, exponent) at the front of \<open>s\<close>: its
  exact value and what follows.
\<close>

definition scan_decimal :: "jstring \<Rightarrow> (rat \<times> jstring) option" where
  "scan_decimal s =
     (let (ip, r1) = span_digits s;
          (fp, r2) = (case r1 of c # r \<Rightarrow> if c = 46 then span_digits r else ([], r1) | [] \<Rightarrow> ([], r1))
      in if ip = [] \<and> fp = [] then None
         else let (ex, r3) = scan_exponent r2
              in Some (of_nat (digits_val (ip @ fp)) * 10 powi (ex - int (length fp)), r3))"

definition split_sign :: "jstring \<Rightarrow> bool \<times> jstring" where
  "split_sign s = (case s of c # r \<Rightarrow> if c = 45 then (True, r) else if c = 43 then (False, r) else (False, s)
     | [] \<Rightarrow> (False, s))"

definition signed :: "bool \<Rightarrow> jsnum \<Rightarrow> jsnum" where
  "signed neg x = (if neg then num_neg x else x)"

text \<open>Digits of a \<^verbatim>\<open>0x\<close>, \<^verbatim>\<open>0o\<close> or \<^verbatim>\<open>0b\<close> literal.\<close>

definition digit_in_base :: "nat \<Rightarrow> nat \<Rightarrow> nat option" where
  "digit_in_base b c =
     (let v = (if is_digit c then Some (c - 48)
               else if 97 \<le> c \<and> c \<le> 102 then Some (c - 87)
               else if 65 \<le> c \<and> c \<le> 70 then Some (c - 55) else None)
      in case v of Some d \<Rightarrow> if d < b then Some d else None | None \<Rightarrow> None)"

fun base_val :: "nat \<Rightarrow> nat \<Rightarrow> jstring \<Rightarrow> nat option" where
  "base_val b acc [] = Some acc"
| "base_val b acc (c # s) =
     (case digit_in_base b c of None \<Rightarrow> None | Some d \<Rightarrow> base_val b (b * acc + d) s)"

definition radix_literal :: "jstring \<Rightarrow> nat option" where
  "radix_literal s = (case s of
       z # x # r \<Rightarrow>
         if z = 48 \<and> r \<noteq> [] then
           (if x = 120 \<or> x = 88 then base_val 16 0 r
            else if x = 111 \<or> x = 79 then base_val 8 0 r
            else if x = 98 \<or> x = 66 then base_val 2 0 r else None)
         else None
     | _ \<Rightarrow> None)"

text \<open>\<^verbatim>\<open>Number(s)\<close> of a string: the whole trimmed text is a numeric literal, else \<open>NaN\<close>.\<close>

definition number_of_string :: "jstring \<Rightarrow> jsnum" where
  "number_of_string s0 =
     (let s = trim s0 in
      if s = [] then Fin 0
      else case radix_literal s of
        Some n \<Rightarrow> double (of_nat n)
      | None \<Rightarrow>
          (let (neg, r) = split_sign s
           in if r = lit ''Infinity'' then signed neg PosInf
              else case scan_decimal r of
                Some (v, []) \<Rightarrow> signed neg (double v)
              | _ \<Rightarrow> NaN))"

text \<open>\<^verbatim>\<open>parseFloat(s)\<close>: the longest numeric prefix.\<close>

definition parse_float :: "jstring \<Rightarrow> jsnum" where
  "parse_float s0 =
     (let (neg, r) = split_sign (trim_start s0)
      in if starts_with r (lit ''Infinity'') then signed neg PosInf
         else case scan_decimal r of Some (v, _) \<Rightarrow> signed neg (double v) | None \<Rightarrow> NaN)"

text \<open>\<^verbatim>\<open>Number.parseInt(s, 10)\<close>.\<close>

definition parse_int :: "jstring \<Rightarrow> jsnum" where
  "parse_int s0 =
     (let (neg, r) = split_sign (trim_start s0); (ds, _) = span_digits r
      in if ds = [] then NaN else signed neg (double (of_nat (digits_val ds))))"

section \<open>Printing numbers\<close>

text \<open>
  The decimal of \<open>k\<close> digits that reads back as \<open>x\<close>: of the two neighbours of \<open>x\<close> the nearer
  one that does, with its decimal point position \<open>n\<close> (the value is \<open>s * 10 powi (n - k)\<close>).
\<close>

definition reads_back :: "rat \<Rightarrow> nat \<Rightarrow> int \<Rightarrow> bool" where
  "reads_back x s m \<longleftrightarrow> double (of_nat s * 10 powi m) = Fin x"

definition decimal_of_digits :: "rat \<Rightarrow> nat \<Rightarrow> (nat \<times> int) option" where
  "decimal_of_digits x k =
     (let n = flog 10 x + 1; m = n - int k; y = x / 10 powi m; lo = nat \<lfloor>y\<rfloor>; hi = Suc lo;
          nearer_lo = (y - of_nat lo < of_nat hi - y \<or> (y - of_nat lo = of_nat hi - y \<and> even lo));
          first = (if nearer_lo then lo else hi); second = (if nearer_lo then hi else lo);
          norm = (\<lambda>s. if s = 10 ^ k then (10 ^ (k - 1), n + 1) else (s, n))
      in if reads_back x first m then Some (norm first)
         else if reads_back x second m then Some (norm second) else None)"

text \<open>Binary64 needs at most 17 digits.\<close>

definition shortest :: "rat \<Rightarrow> (nat \<times> int) option" where
  "shortest x = (case List.find (\<lambda>k. decimal_of_digits x k \<noteq> None) [1..<18] of
       Some k \<Rightarrow> decimal_of_digits x k
     | None \<Rightarrow> None)"

definition layout_number :: "jstring \<Rightarrow> int \<Rightarrow> jstring" where
  "layout_number ds n =
     (let k = int (length ds) in
      if k \<le> n \<and> n \<le> 21 then ds @ replicate (nat (n - k)) 48
      else if 0 < n \<and> n \<le> 21 then take (nat n) ds @ [46] @ drop (nat n) ds
      else if - 6 < n \<and> n \<le> 0 then [48, 46] @ replicate (nat (- n)) 48 @ ds
      else let e = n - 1;
               es = [101] @ (if e < 0 then [45] else [43]) @ show_nat (nat \<bar>e\<bar>)
           in if k = 1 then ds @ es else [hd ds] @ [46] @ tl ds @ es)"

definition positive_to_string :: "rat \<Rightarrow> jstring" where
  "positive_to_string x = (case shortest x of
       Some (s, n) \<Rightarrow> layout_number (show_nat s) n
     | None \<Rightarrow> lit ''NaN'')"

fun num_to_string :: "jsnum \<Rightarrow> jstring" where
  "num_to_string NaN = lit ''NaN''"
| "num_to_string PosInf = lit ''Infinity''"
| "num_to_string NegInf = lit ''-Infinity''"
| "num_to_string (Fin r) =
     (if r = 0 then [48]
      else if r < 0 then 45 # positive_to_string (- r)
      else positive_to_string r)"

text \<open>\<^verbatim>\<open>x.toFixed(f)\<close>: exact rounding of the binary value, ties away from zero.\<close>

definition pad_zeros :: "nat \<Rightarrow> jstring \<Rightarrow> jstring" where
  "pad_zeros w s = replicate (w - length s) 48 @ s"

definition fixed_magnitude :: "nat \<Rightarrow> rat \<Rightarrow> jstring" where
  "fixed_magnitude f x =
     (let m = pad_zeros (f + 1) (show_nat (nat \<lfloor>x * 10 ^ f + 1 / 2\<rfloor>)); k = length m - f
      in if f = 0 then m else take k m @ [46] @ drop k m)"

fun to_fixed :: "nat \<Rightarrow> jsnum \<Rightarrow> jstring" where
  "to_fixed f (Fin r) =
     (if 10 ^ 21 \<le> \<bar>r\<bar> then num_to_string (Fin r)
      else if r < 0 then 45 # fixed_magnitude f (- r)
      else fixed_magnitude f r)"
| "to_fixed f x = num_to_string x"

end
