(* ===== verification/Js_Number_Facts.thy ===== *)
theory Js_Number_Facts
  imports Js_Number
begin

text \<open>
  The facts about JavaScript numbers the components rest on: integers up to \<open>2 ^ 53\<close> are exact,
  rounding is idempotent, seventeen digits tell any two binary64 values apart, so that
  \<^verbatim>\<open>Number(String(x))\<close> is \<open>x\<close> for every number, and natural numbers below \<open>10 ^ 15\<close> print as
  their decimal digits.
\<close>

section \<open>Logarithm and rounding\<close>

lemma flog_bounds:
  assumes b: "1 < b" and r: "0 < r"
  shows "of_nat b powi (flog b r) \<le> r" and "r < of_nat b powi (flog b r + 1)"
proof -
  obtain n d where q: "quotient_of r = (n, d)" by (cases "quotient_of r")
  have d: "0 < d" using q by (rule quotient_of_denom_pos)
  have rnd: "r = of_int n / of_int d" using q by (rule quotient_of_div)
  with r d have n: "0 < n"
    by (metis Fract_of_int_quotient zero_less_Fract_iff)
  define N where "N = nat n"
  define D where "D = nat d"
  have rND: "r = of_nat N / of_nat D" and pos: "0 < N" "0 < D"
    using rnd n d by (simp_all add: N_def D_def)
  define fn where "fn = floorlog b N"
  define fd where "fd = floorlog b D"
  have B: "(0::rat) < of_nat b" "(of_nat b :: rat) \<noteq> 0" using b by auto
  have f1: "0 < fn" "0 < fd" using b pos by (simp_all add: fn_def fd_def floorlog_def)
  have bn: "b ^ (fn - 1) \<le> N" "N < b ^ fn" and bd: "b ^ (fd - 1) \<le> D" "D < b ^ fd"
    using floorlog_bounds [of N b] floorlog_bounds [of D b] pos b
    by (auto simp: fn_def fd_def)
  let ?B = "of_nat b :: rat"
  have qn: "?B powi (int fn - 1) \<le> of_nat N" "of_nat N < ?B powi (int fn)"
    and qd: "?B powi (int fd - 1) \<le> of_nat D" "of_nat D < ?B powi (int fd)"
    using bn bd f1
    by (simp_all add: power_int_def nat_diff_distrib' flip: of_nat_power)
  let ?k = "int fn - int fd"
  have up: "r < ?B powi (?k + 1)"
  proof -
    have "r \<le> of_nat N / ?B powi (int fd - 1)"
      unfolding rND using qd B pos by (intro divide_left_mono mult_pos_pos) auto
    also have "\<dots> < ?B powi (int fn) / ?B powi (int fd - 1)"
      using qn B by (intro divide_strict_right_mono) auto
    also have "\<dots> = ?B powi (int fn - (int fd - 1))"
      using B by (simp only: power_int_diff [symmetric] not_False_eq_True simp_thms)
    also have "int fn - (int fd - 1) = ?k + 1" by simp
    finally show ?thesis .
  qed
  have lo: "?B powi (?k - 1) \<le> r"
  proof -
    have "?k - 1 = int fn - 1 - int fd" by simp
    also have "?B powi \<dots> = ?B powi (int fn - 1) / ?B powi (int fd)"
      using B by (simp only: power_int_diff [symmetric] not_False_eq_True simp_thms)
    also have "\<dots> \<le> of_nat N / ?B powi (int fd)"
      using qn B by (intro divide_right_mono) auto
    also have "\<dots> \<le> of_nat N / of_nat D"
      using qd B pos by (intro divide_left_mono mult_pos_pos) auto
    finally show ?thesis by (simp add: rND)
  qed
  have fl: "flog b r = (if ?B powi ?k \<le> r then ?k else ?k - 1)"
    by (simp add: flog_def q N_def D_def fn_def fd_def Let_def)
  show "of_nat b powi (flog b r) \<le> r" using lo by (simp add: fl)
  show "r < of_nat b powi (flog b r + 1)" using up by (simp add: fl)
qed

lemma powi_less_imp_less: "1 < (B::rat) \<Longrightarrow> B powi a < B powi c \<Longrightarrow> a < c"
  by (meson not_le power_int_increasing less_imp_le)

lemma flog_unique:
  assumes b: "1 < b" and lo: "of_nat b powi e \<le> r" and hi: "r < of_nat b powi (e + 1)"
  shows "flog b r = e"
proof -
  have B: "(1::rat) < of_nat b" using b by simp
  have "0 < (of_nat b :: rat) powi e" using b by simp
  with lo have r: "0 < r" by linarith
  from flog_bounds [OF b r] lo hi
  have "(of_nat b :: rat) powi (flog b r) < of_nat b powi (e + 1)"
    and "(of_nat b :: rat) powi e < of_nat b powi (flog b r + 1)" by linarith+
  then have "flog b r < e + 1" "e < flog b r + 1"
    using powi_less_imp_less [OF B] by blast+
  then show ?thesis by simp
qed

lemma flog_le:
  assumes b: "1 < b" and r: "0 < r" and hi: "r < of_nat b powi (e + 1)"
  shows "flog b r \<le> e"
proof -
  have B: "(1::rat) < of_nat b" using b by simp
  from flog_bounds [OF b r] hi
  have "(of_nat b :: rat) powi (flog b r) < of_nat b powi (e + 1)" by linarith
  then have "flog b r < e + 1" using powi_less_imp_less [OF B] by blast
  then show ?thesis by simp
qed

lemma round_even_int [simp]: "round_even (of_int n) = n"
  by (simp add: round_even_def)

lemma two_53: "(2::rat) ^ 53 * 2 powi (e - 52) = 2 powi (e + 1)"
proof -
  have "e + 1 = 53 + (e - 52)" by simp
  also have "(2::rat) powi \<dots> = 2 powi 53 * 2 powi (e - 52)"
    by (rule power_int_add) simp
  finally show ?thesis by simp
qed

lemma of_int_le_53: "k \<le> 2 ^ 53 \<Longrightarrow> (of_int k :: rat) \<le> 2 ^ 53"
  by (metis of_int_le_iff of_int_numeral of_int_power)

text \<open>A multiple of the unit in the last place with at most 53 bits is not changed.\<close>

lemma round_mag_exact:
  assumes k: "0 < k" "k \<le> 2 ^ 53" and e: "- 1022 \<le> e" and v: "v = of_int k * 2 powi (e - 52)"
  shows "round_mag v = v"
proof -
  have pos: "0 < v" using k v by simp
  have "v \<le> 2 ^ 53 * 2 powi (e - 52)"
    unfolding v using of_int_le_53 [OF k(2)] by (intro mult_right_mono) simp_all
  also have "\<dots> = 2 powi (e + 1)" by (rule two_53)
  finally have le: "v \<le> 2 powi (e + 1)" .
  define e' where "e' = max (flog 2 v) (- 1022)"
  have "\<exists>j. v / 2 powi (e' - 52) = of_int j"
  proof (cases "v = 2 powi (e + 1)")
    case True
    moreover have "(2::rat) powi (e + 1) < 2 powi (e + 1 + 1)"
      by (rule power_int_strict_increasing) simp_all
    ultimately have "flog 2 v = e + 1" by (intro flog_unique) simp_all
    then have "e' = e + 1" using e by (simp add: e'_def)
    then have "v / 2 powi (e' - 52) = 2 powi 52"
      using True by (simp add: power_int_diff [symmetric])
    then show ?thesis by (intro exI [of _ "2 ^ 52"]) simp
  next
    case False
    with le have "flog 2 v \<le> e" using pos by (intro flog_le) simp_all
    then have e'e: "e' \<le> e" using e by (simp add: e'_def)
    have "v / 2 powi (e' - 52) = of_int k * 2 powi (e - e')"
      unfolding v by (simp add: power_int_diff field_simps)
    also have "\<dots> = of_int (k * 2 ^ nat (e - e'))"
      using e'e by (simp add: power_int_def)
    finally show ?thesis by blast
  qed
  then obtain j where j: "v / 2 powi (e' - 52) = of_int j" by blast
  have "round_mag v = of_int (round_even (v / 2 powi (e' - 52))) * 2 powi (e' - 52)"
    by (simp add: round_mag_def Let_def e'_def)
  also have "\<dots> = of_int j * 2 powi (e' - 52)" by (simp add: j)
  also have "\<dots> = v" using j by (simp add: field_simps)
  finally show ?thesis .
qed

lemma double_exact:
  assumes k: "\<bar>k\<bar> \<le> 2 ^ 53" and e: "- 1022 \<le> e" "e \<le> 970" and v: "v = of_int k * 2 powi (e - 52)"
  shows "double v = Fin v"
proof (cases "k = 0")
  case True
  with v show ?thesis by (simp add: double_def)
next
  case False
  have abs: "\<bar>v\<bar> = of_int \<bar>k\<bar> * 2 powi (e - 52)" unfolding v by (simp add: abs_mult)
  have m: "round_mag \<bar>v\<bar> = \<bar>v\<bar>"
    using round_mag_exact [OF _ k e(1) abs] False by simp
  have "\<bar>v\<bar> \<le> 2 ^ 53 * 2 powi (e - 52)"
    unfolding abs using of_int_le_53 [OF k] by (intro mult_right_mono) simp_all
  also have "\<dots> = 2 powi (e + 1)" by (rule two_53)
  also have "\<dots> < (2::rat) powi 1024" using e by (intro power_int_strict_increasing) simp_all
  finally have "\<not> 2 ^ 1024 \<le> \<bar>v\<bar>" by (simp only: power_int_numeral not_le)
  moreover have "v \<noteq> 0" using False v by simp
  moreover have "sgn v * \<bar>v\<bar> = v" by (rule sgn_mult_abs)
  ultimately show ?thesis
    unfolding double_def m Let_def by (simp only: if_False)
qed

lemma double_int [simp]: "\<bar>k\<bar> \<le> 2 ^ 53 \<Longrightarrow> double (of_int k) = Fin (of_int k)"
  by (rule double_exact [where e = 52 and k = k]) auto

lemma double_nat [simp]: "n \<le> 2 ^ 53 \<Longrightarrow> double (of_nat n) = Fin (of_nat n)"
proof -
  assume "n \<le> 2 ^ 53"
  then have "int n \<le> 2 ^ 53" by (metis of_nat_le_iff of_nat_numeral of_nat_power)
  then show ?thesis using double_int [of "int n"] by simp
qed

text \<open>What may follow a number so that no character of it is read as part of the number.\<close>

definition number_ends :: "jstring \<Rightarrow> bool" where
  "number_ends r \<longleftrightarrow> r = [] \<or> \<not> is_digit (hd r) \<and> hd r \<noteq> 46 \<and> hd r \<noteq> 101 \<and> hd r \<noteq> 69"

lemma number_ends_Nil [simp]: "number_ends []"
  by (simp add: number_ends_def)

lemma span_digits_append:
  "(\<forall>c \<in> set ds. is_digit c) \<Longrightarrow> r = [] \<or> \<not> is_digit (hd r) \<Longrightarrow> span_digits (ds @ r) = (ds, r)"
  by (cases r) (auto simp: span_digits_def dropWhile_append takeWhile_append)

lemma scan_exponent_none: "number_ends r \<Longrightarrow> scan_exponent r = (0, r)"
  by (cases r) (auto simp: scan_exponent_def number_ends_def)

lemma scan_exponent_show:
  assumes "number_ends r"
  shows "scan_exponent (101 # (if e < 0 then 45 else 43) # show_nat (nat \<bar>e\<bar>) @ r) = (e, r)"
proof -
  have "span_digits (show_nat (nat \<bar>e\<bar>) @ r) = (show_nat (nat \<bar>e\<bar>), r)"
    using assms by (intro span_digits_append) (auto simp: number_ends_def dest: show_nat_digits)
  then show ?thesis by (cases "e < 0") (simp_all add: scan_exponent_def)
qed

lemma scan_decimal_plain:
  assumes "all_digits ds" "number_ends r"
  shows "scan_decimal (ds @ r) = Some (of_nat (digits_val ds), r)"
proof -
  have "span_digits (ds @ r) = (ds, r)"
    using assms by (intro span_digits_append) (auto simp: number_ends_def all_digits_def)
  with assms show ?thesis
    by (auto simp: scan_decimal_def scan_exponent_none all_digits_def number_ends_def
        split: list.splits)
qed

lemma scan_decimal_point:
  assumes "all_digits ip" "\<forall>c \<in> set fp. is_digit c" "scan_exponent r = (ex, r')"
    and "r = [] \<or> \<not> is_digit (hd r)"
  shows "scan_decimal (ip @ 46 # fp @ r) =
    Some (of_nat (digits_val (ip @ fp)) * 10 powi (ex - int (length fp)), r')"
proof -
  have "span_digits (ip @ 46 # fp @ r) = (ip, 46 # fp @ r)"
    using assms by (intro span_digits_append) (auto simp: all_digits_def is_digit_def)
  moreover have "span_digits (fp @ r) = (fp, r)"
    using assms by (intro span_digits_append) auto
  ultimately show ?thesis
    using assms by (auto simp: scan_decimal_def all_digits_def)
qed

lemma scan_decimal_exp:
  assumes "all_digits ip" "scan_exponent r = (ex, r')"
    and "r = [] \<or> \<not> is_digit (hd r) \<and> hd r \<noteq> 46"
  shows "scan_decimal (ip @ r) = Some (of_nat (digits_val ip) * 10 powi ex, r')"
proof -
  have "span_digits (ip @ r) = (ip, r)"
    using assms by (intro span_digits_append) (auto simp: all_digits_def)
  with assms show ?thesis
    by (auto simp: scan_decimal_def all_digits_def split: list.splits)
qed

lemma scan_layout_int:
  assumes ds: "all_digits ds" and r: "number_ends r" and n: "int (length ds) \<le> n" "n \<le> 21"
  shows "scan_decimal (layout_number ds n @ r) =
    Some (of_nat (digits_val ds) * 10 powi (n - int (length ds)), r)"
proof -
  let ?z = "replicate (nat (n - int (length ds))) 48"
  have lay: "layout_number ds n @ r = (ds @ ?z) @ r" using n by (simp add: layout_number_def)
  have "all_digits (ds @ ?z)" using ds by (auto simp: all_digits_def is_digit_def)
  from scan_decimal_plain [OF this r]
  have "scan_decimal (layout_number ds n @ r) = Some (of_nat (digits_val (ds @ ?z)), r)"
    by (simp only: lay)
  moreover have "(10::rat) powi (n - int (length ds)) = 10 ^ nat (n - int (length ds))"
    using n by (simp add: power_int_def)
  ultimately show ?thesis by (simp add: digits_val_append)
qed

lemma scan_layout_point:
  assumes ds: "all_digits ds" and r: "number_ends r" and n: "n < int (length ds)" "0 < n" "n \<le> 21"
  shows "scan_decimal (layout_number ds n @ r) =
    Some (of_nat (digits_val ds) * 10 powi (n - int (length ds)), r)"
proof -
  let ?ip = "take (nat n) ds" and ?fp = "drop (nat n) ds"
  have lay: "layout_number ds n @ r = ?ip @ 46 # ?fp @ r" using n by (simp add: layout_number_def)
  have "all_digits ?ip" "\<forall>c \<in> set ?fp. is_digit c"
    using n ds by (auto simp: all_digits_def dest: in_set_takeD in_set_dropD)
  moreover have "r = [] \<or> \<not> is_digit (hd r)" using r by (auto simp: number_ends_def)
  moreover have "0 - int (length ?fp) = n - int (length ds)" using n by auto
  ultimately show ?thesis
    using n scan_decimal_point [OF _ _ scan_exponent_none [OF r]] by (simp add: lay)
qed

lemma scan_layout_small:
  assumes ds: "all_digits ds" and r: "number_ends r" and n: "- 6 < n" "n \<le> 0"
  shows "scan_decimal (layout_number ds n @ r) =
    Some (of_nat (digits_val ds) * 10 powi (n - int (length ds)), r)"
proof -
  let ?fp = "replicate (nat (- n)) 48 @ ds"
  have ip: "all_digits [48]" by (simp add: all_digits_def is_digit_def)
  have fp: "\<forall>c \<in> set ?fp. is_digit c" using ds by (auto simp: all_digits_def is_digit_def)
  have rd: "r = [] \<or> \<not> is_digit (hd r)" using r by (auto simp: number_ends_def)
  have "\<not> int (length ds) \<le> n" using n ds by (cases ds) (auto simp: all_digits_def)
  then have lay: "layout_number ds n @ r = [48] @ 46 # ?fp @ r"
    using n by (simp add: layout_number_def Let_def)
  have val: "digits_val ([48] @ ?fp) = digits_val ds"
    by (simp only: digits_val_append digits_val_replicate_0) (simp add: digits_val_def)
  have "0 - int (length ?fp) = n - int (length ds)" using n by simp
  with scan_decimal_point [OF ip fp scan_exponent_none [OF r] rd] show ?thesis
    by (simp only: lay val)
qed

lemma scan_layout_exp:
  assumes ds: "all_digits ds" and r: "number_ends r" and n: "n \<le> - 6 \<or> 21 < n"
  shows "scan_decimal (layout_number ds n @ r) =
    Some (of_nat (digits_val ds) * 10 powi (n - int (length ds)), r)"
proof -
  define es where "es = 101 # (if n - 1 < 0 then 45 else 43) # show_nat (nat \<bar>n - 1\<bar>) @ r"
  have sc: "scan_exponent es = (n - 1, r)" unfolding es_def by (rule scan_exponent_show [OF r])
  have hd: "es = [] \<or> \<not> is_digit (hd es) \<and> hd es \<noteq> 46" by (simp add: es_def is_digit_def)
  have ne: "ds \<noteq> []" using ds by (simp add: all_digits_def)
  show ?thesis
  proof (cases "length ds = 1")
    case True
    then have "layout_number ds n @ r = ds @ es"
      using n by (auto simp: layout_number_def Let_def es_def)
    with scan_decimal_exp [OF ds sc hd] True show ?thesis by simp
  next
    case False
    then have lay: "layout_number ds n @ r = [hd ds] @ 46 # tl ds @ es"
      using n ne by (auto simp: layout_number_def Let_def es_def)
    have "all_digits [hd ds]" "\<forall>c \<in> set (tl ds). is_digit c"
      using ds by (auto simp: all_digits_def dest: list.set_sel(2))
    from scan_decimal_point [OF this sc] hd ne show ?thesis
      unfolding lay by (cases ds) (auto simp: algebra_simps)
  qed
qed

lemma scan_layout_number:
  assumes "all_digits ds" "number_ends r"
  shows "scan_decimal (layout_number ds n @ r) =
    Some (of_nat (digits_val ds) * 10 powi (n - int (length ds)), r)"
proof -
  consider "int (length ds) \<le> n \<and> n \<le> 21" | "n < int (length ds) \<and> 0 < n \<and> n \<le> 21"
    | "- 6 < n \<and> n \<le> 0" | "n \<le> - 6 \<or> 21 < n" by linarith
  then show ?thesis
    by cases (use assms scan_layout_int scan_layout_point scan_layout_small scan_layout_exp in blast)+
qed

section \<open>What is printed reads back\<close>

lemma length_show_nat: "0 < k \<Longrightarrow> 10 ^ (k - 1) \<le> s \<Longrightarrow> s < 10 ^ k \<Longrightarrow> length (show_nat s) = k"
proof (induction k arbitrary: s)
  case (Suc k)
  show ?case
  proof (cases "k = 0")
    case True
    with Suc.prems show ?thesis by (simp add: show_nat_small)
  next
    case False
    then obtain j where j: "k = Suc j" by (cases k) auto
    from Suc.prems have "10 ^ (k - 1) \<le> s div 10" "s div 10 < 10 ^ k" "10 \<le> s"
      unfolding j by (auto simp: div_less_iff_less_mult less_eq_div_iff_mult_less_eq
          intro: order_trans [rotated])
    with Suc.IH False show ?thesis by (simp add: show_nat.simps [of s])
  qed
qed simp

lemma floor_decimal_bounds:
  assumes x: "0 < x" and k: "0 < k" and y: "y = x / 10 powi (flog 10 x + 1 - int k)"
  shows "10 ^ (k - 1) \<le> y" and "y < 10 ^ k"
proof -
  let ?f = "flog 10 x"
  have b: "(10::rat) powi ?f \<le> x" "x < 10 powi (?f + 1)" using flog_bounds [of 10 x] x by simp_all
  have "(10::rat) ^ k * 10 powi (?f + 1 - int k) = 10 powi (int k + (?f + 1 - int k))"
    by (subst power_int_add) simp_all
  then have e1: "(10::rat) ^ k * 10 powi (?f + 1 - int k) = 10 powi (?f + 1)" by simp
  have "(10::rat) ^ (k - 1) * 10 powi (?f + 1 - int k) = 10 powi (int (k - 1) + (?f + 1 - int k))"
    by (subst power_int_add) simp_all
  then have e2: "(10::rat) ^ (k - 1) * 10 powi (?f + 1 - int k) = 10 powi ?f"
    using k by (simp add: of_nat_diff)
  show "10 ^ (k - 1) \<le> y" unfolding y using b e2 by (simp add: le_divide_eq)
  show "y < 10 ^ k" unfolding y using b e1 by (simp add: divide_less_eq)
qed

lemma decimal_of_digits_cases:
  fixes x k
  defines "m \<equiv> flog 10 x + 1 - int k"
  defines "lo \<equiv> nat \<lfloor>x / 10 powi m\<rfloor>"
  assumes "decimal_of_digits x k = Some (s, n)"
  obtains t where "t = lo \<or> t = Suc lo" "reads_back x t m"
    "(s, n) = (if t = 10 ^ k then (10 ^ (k - 1), flog 10 x + 1 + 1) else (t, flog 10 x + 1))"
proof -
  have "\<exists>t. (t = lo \<or> t = Suc lo) \<and> reads_back x t m \<and>
      (s, n) = (if t = 10 ^ k then (10 ^ (k - 1), flog 10 x + 1 + 1) else (t, flog 10 x + 1))"
    using assms(3) unfolding decimal_of_digits_def Let_def m_def [symmetric] lo_def [symmetric]
    by (auto split: if_splits)
  with that show ?thesis by blast
qed

lemma decimal_of_digits_Some:
  assumes x: "0 < x" and k: "0 < k" and eq: "decimal_of_digits x k = Some (s, n)"
  shows "length (show_nat s) = k" and "reads_back x s (n - int k)"
proof -
  define m where "m = flog 10 x + 1 - int k"
  define y where "y = x / 10 powi m"
  define lo where "lo = nat \<lfloor>y\<rfloor>"
  have y: "10 ^ (k - 1) \<le> y" "y < 10 ^ k" using floor_decimal_bounds [OF x k] by (simp_all add: y_def m_def)
  have "(10::rat) ^ (k - 1) \<ge> 0" by simp
  with y have y0: "0 \<le> y" by linarith
  have "(10::int) ^ (k - 1) \<le> \<lfloor>y\<rfloor>" using y by (simp add: le_floor_iff)
  then have lo1: "10 ^ (k - 1) \<le> lo" unfolding lo_def by (simp add: nat_le_iff le_nat_iff flip: of_nat_power)
  have "\<lfloor>y\<rfloor> < (10::int) ^ k" using y by (simp add: floor_less_iff)
  then have lo2: "lo < 10 ^ k" unfolding lo_def using y0 by (simp add: nat_less_iff)
  obtain t where t: "t = lo \<or> t = Suc lo" "reads_back x t m"
    "(s, n) = (if t = 10 ^ k then (10 ^ (k - 1), flog 10 x + 1 + 1) else (t, flog 10 x + 1))"
    using decimal_of_digits_cases [OF eq] unfolding m_def [symmetric] y_def [symmetric] lo_def [symmetric] .
  have "10 ^ (k - 1) \<le> s \<and> s < 10 ^ k \<and> reads_back x s (n - int k)"
  proof (cases "t = 10 ^ k")
    case True
    have "(of_nat (10 ^ k) :: rat) * 10 powi m = of_nat (10 ^ (k - 1)) * 10 powi (m + 1)"
      using k by (simp add: power_int_add power_eq_if)
    with True t k show ?thesis by (simp add: reads_back_def m_def algebra_simps)
  next
    case False
    with t lo1 lo2 show ?thesis by (auto simp: m_def)
  qed
  then show "length (show_nat s) = k" "reads_back x s (n - int k)"
    using k by (auto intro: length_show_nat)
qed

lemma shortest_Some:
  assumes "0 < x" "shortest x = Some (s, n)"
  shows "reads_back x s (n - int (length (show_nat s)))"
proof -
  from assms(2) obtain k where k: "List.find (\<lambda>k. decimal_of_digits x k \<noteq> None) [1..<18] = Some k"
    "decimal_of_digits x k = Some (s, n)"
    by (auto simp: shortest_def split: option.splits)
  then have "0 < k" by (auto simp: find_Some_iff)
  with decimal_of_digits_Some [OF assms(1) _ k(2)] show ?thesis by simp
qed

section \<open>Seventeen digits are enough\<close>

definition normal_form :: "rat \<Rightarrow> int \<Rightarrow> int \<Rightarrow> bool" where
  "normal_form x k e \<longleftrightarrow> x = of_int k * 2 powi (e - 52) \<and> - 1022 \<le> e \<and> 0 < k \<and> k < 2 ^ 53 \<and>
     (2 ^ 52 \<le> k \<or> e = - 1022)"

lemma round_even_near:
  assumes "of_int k - 1 / 2 < r" "r < of_int k + 1 / 2"
  shows "round_even r = k"
proof (cases "of_int k \<le> r")
  case True
  then have "\<lfloor>r\<rfloor> = k" using assms by (intro floor_unique) auto
  with assms show ?thesis by (simp add: round_even_def)
next
  case False
  then have "\<lfloor>r\<rfloor> = k - 1" using assms by (intro floor_unique) auto
  with assms show ?thesis by (simp add: round_even_def)
qed

lemma round_even_ge: "of_int k \<le> r \<Longrightarrow> k \<le> round_even r"
proof -
  assume "of_int k \<le> r"
  then have "k \<le> \<lfloor>r\<rfloor>" by (simp add: le_floor_iff)
  then show ?thesis by (auto simp: round_even_def Let_def)
qed

lemma round_even_le: "r \<le> of_int k \<Longrightarrow> round_even r \<le> k"
proof -
  assume r: "r \<le> of_int k"
  show ?thesis
  proof (cases "\<lfloor>r\<rfloor> < k")
    case True
    then show ?thesis by (auto simp: round_even_def Let_def)
  next
    case False
    then have "of_int k \<le> r" by (simp add: not_less le_floor_iff)
    with r have "r = of_int k" by simp
    then show ?thesis by simp
  qed
qed

lemma round_mag_at:
  assumes "max (flog 2 z) (- 1022) = e"
    and "of_int k - 1 / 2 < z / 2 powi (e - 52)" "z / 2 powi (e - 52) < of_int k + 1 / 2"
  shows "round_mag z = of_int k * 2 powi (e - 52)"
  using assms round_even_near [of k "z / 2 powi (e - 52)"] by (simp add: round_mag_def Let_def)

lemma two_52: "(2::rat) ^ 52 * 2 powi (e - 52) = 2 powi e"
proof -
  have "e = 52 + (e - 52)" by simp
  also have "(2::rat) powi \<dots> = 2 powi 52 * 2 powi (e - 52)"
    by (rule power_int_add) simp
  finally show ?thesis by simp
qed

lemma of_int_bits:
  "k < 2 ^ 53 \<Longrightarrow> (of_int k :: rat) + 1 \<le> 2 ^ 53" "2 ^ 52 \<le> k \<Longrightarrow> (2::rat) ^ 52 \<le> of_int k"
  "2 ^ 52 < k \<Longrightarrow> (2::rat) ^ 52 + 1 \<le> of_int k"
proof -
  show "(of_int k :: rat) + 1 \<le> 2 ^ 53" if "k < 2 ^ 53"
  proof -
    have "(of_int (k + 1) :: rat) \<le> of_int (2 ^ 53)" using that by (simp only: of_int_le_iff)
    then show ?thesis by simp
  qed
  show "(2::rat) ^ 52 \<le> of_int k" if "2 ^ 52 \<le> k"
  proof -
    have "(of_int (2 ^ 52) :: rat) \<le> of_int k" using that by (simp only: of_int_le_iff)
    then show ?thesis by simp
  qed
  show "(2::rat) ^ 52 + 1 \<le> of_int k" if "2 ^ 52 < k"
  proof -
    have "(of_int (2 ^ 52 + 1) :: rat) \<le> of_int k" using that by (simp only: of_int_le_iff)
    then show ?thesis by simp
  qed
qed

lemma round_mag_form:
  assumes r: "0 < r"
  shows "round_mag r = 0 \<or> (\<exists>k e. normal_form (round_mag r) k e)"
proof -
  define e where "e = max (flog 2 r) (- 1022)"
  define u where "u = (2::rat) powi (e - 52)"
  have u: "0 < u" by (simp add: u_def)
  define k where "k = round_even (r / u)"
  have rm: "round_mag r = of_int k * u" by (simp add: round_mag_def k_def u_def e_def Let_def)
  have fl: "(2::rat) powi (flog 2 r) \<le> r" "r < 2 powi (flog 2 r + 1)" using flog_bounds [of 2 r] r by simp_all
  have "r \<le> (2::rat) powi (e + 1)"
    using fl(2) power_int_increasing [of "flog 2 r + 1" "e + 1" "2::rat"] by (simp add: e_def)
  then have "r / u \<le> of_int (2 ^ 53)"
    using two_53 [of e] u by (simp add: u_def divide_le_eq)
  then have k2: "k \<le> 2 ^ 53" unfolding k_def by (rule round_even_le)
  have k0: "0 \<le> k" unfolding k_def using r u by (intro round_even_ge) simp
  have low: "2 ^ 52 \<le> k \<or> e = - 1022"
  proof (cases "e = - 1022")
    case False
    then have "e = flog 2 r" by (auto simp: e_def)
    then have "of_int (2 ^ 52) \<le> r / u"
      using fl(1) two_52 [of e] u by (simp add: u_def le_divide_eq)
    then show ?thesis unfolding k_def by (auto intro: round_even_ge)
  qed simp
  have em: "- 1022 \<le> e" by (simp add: e_def)
  consider "k = 0" | "0 < k" "k < 2 ^ 53" | "k = 2 ^ 53" using k0 k2 by linarith
  then show ?thesis
  proof cases
    case 1
    then show ?thesis by (simp add: rm)
  next
    case 2
    then have "normal_form (round_mag r) k e" using rm low em by (simp add: normal_form_def u_def)
    then show ?thesis by blast
  next
    case 3
    then have "round_mag r = of_int (2 ^ 52) * 2 powi (e + 1 - 52)"
      using two_53 [of e] two_52 [of "e + 1"] by (simp add: rm u_def)
    then have "normal_form (round_mag r) (2 ^ 52) (e + 1)" using em by (simp add: normal_form_def)
    then show ?thesis by blast
  qed
qed

lemma normal_form_exponent:
  assumes nf: "normal_form x k e" and z: "0 < z" "z < 2 powi (e + 1)" and lo: "2 powi e \<le> z \<or> e = - 1022"
  shows "max (flog 2 z) (- 1022) = e"
proof -
  have "flog 2 z \<le> e" using z by (intro flog_le) simp_all
  moreover have "2 powi e \<le> z \<Longrightarrow> flog 2 z = e" using z by (intro flog_unique) simp_all
  moreover have "- 1022 \<le> e" using nf by (simp add: normal_form_def)
  ultimately show ?thesis using lo by auto
qed

lemma round_near_above:
  assumes nf: "normal_form x k e" and z: "x \<le> z" "z < x + 2 powi (e - 52) / 2"
  shows "round_mag z = x"
proof -
  define u where "u = (2::rat) powi (e - 52)"
  have u: "0 < u" by (simp add: u_def)
  have x: "x = of_int k * u" and kp: "0 < k" using nf by (simp_all add: normal_form_def u_def)
  have xp: "0 < x" using x kp u by simp
  have "z < (of_int k + 1) * u" using z u by (simp add: x u_def [symmetric] algebra_simps)
  also have "\<dots> \<le> 2 ^ 53 * u" using nf u by (intro mult_right_mono of_int_bits) (simp_all add: normal_form_def)
  also have "\<dots> = 2 powi (e + 1)" unfolding u_def by (rule two_53)
  finally have hi: "z < 2 powi (e + 1)" .
  have "2 powi e \<le> z \<or> e = - 1022"
  proof (cases "2 ^ 52 \<le> k")
    case True
    then have "2 ^ 52 * u \<le> x" unfolding x using u by (intro mult_right_mono of_int_bits) simp_all
    then show ?thesis using two_52 [of e] z by (simp add: u_def)
  qed (use nf in \<open>auto simp: normal_form_def\<close>)
  then have e: "max (flog 2 z) (- 1022) = e" using nf xp z hi by (intro normal_form_exponent) simp_all
  have "of_int k - 1 / 2 < z / u" using z u by (simp add: x less_divide_eq algebra_simps)
  moreover have "z / u < of_int k + 1 / 2" using z u by (simp add: x u_def [symmetric] divide_less_eq algebra_simps)
  ultimately show ?thesis using round_mag_at [OF e] by (simp add: x u_def)
qed

lemma round_near_below:
  assumes nf: "normal_form x k e" and z: "0 < z" "z < x" "x - x / 2 ^ 54 < z"
  shows "round_mag z = x"
proof -
  define u where "u = (2::rat) powi (e - 52)"
  have u: "0 < u" by (simp add: u_def)
  have x: "x = of_int k * u" and kp: "0 < k" "k < 2 ^ 53" "- 1022 \<le> e"
    using nf by (simp_all add: normal_form_def u_def)
  show ?thesis
  proof (cases "k = 2 ^ 52 \<and> e \<noteq> - 1022")
    case False
    have "x < 2 ^ 53 * u" unfolding x using of_int_bits(1) [OF kp(2)] u by (intro mult_strict_right_mono) simp_all
    then have zu: "x - u / 2 < z" using z by simp
    have "z < 2 powi (e + 1)" using \<open>x < 2 ^ 53 * u\<close> z two_53 [of e] by (simp add: u_def)
    moreover have "2 powi e \<le> z \<or> e = - 1022"
    proof (cases "2 ^ 52 < k")
      case True
      then have "(2 ^ 52 + 1) * u \<le> x" unfolding x using u by (intro mult_right_mono of_int_bits) simp_all
      then have "2 ^ 52 * u \<le> z" using zu u by (simp add: algebra_simps)
      then show ?thesis using two_52 [of e] by (simp add: u_def)
    qed (use nf False in \<open>auto simp: normal_form_def\<close>)
    ultimately have e: "max (flog 2 z) (- 1022) = e" using nf z by (intro normal_form_exponent) simp_all
    have "of_int k - 1 / 2 < z / u" using zu u by (simp add: x less_divide_eq algebra_simps)
    moreover have "z / u < of_int k + 1 / 2" using z u by (simp add: x divide_less_eq algebra_simps)
    ultimately show ?thesis using round_mag_at [OF e] by (simp add: x u_def)
  next
    case True
    then have x2: "x = 2 powi e" using two_52 [of e] by (simp add: x u_def)
    have half: "(2::rat) powi e = 2 * 2 powi (e - 1)" by (simp add: power_int_diff)
    have uh: "(2::rat) powi (e - 1 - 52) = u / 2" by (simp add: u_def power_int_diff)
    have xu: "x = 2 ^ 53 * (u / 2)" using True by (simp add: x)
    have "2 powi (e - 1) \<le> z" using z x2 half by simp
    then have "flog 2 z = e - 1" using z x2 by (intro flog_unique) simp_all
    then have e: "max (flog 2 z) (- 1022) = e - 1" using True kp by simp
    have "of_int (2 ^ 53) - 1 / 2 < z / 2 powi (e - 1 - 52)"
      unfolding uh using z u by (simp add: xu less_divide_eq algebra_simps)
    moreover have "z / 2 powi (e - 1 - 52) < of_int (2 ^ 53) + 1 / 2"
      unfolding uh using z u by (simp add: xu divide_less_eq algebra_simps)
    ultimately have "round_mag z = of_int (2 ^ 53) * 2 powi (e - 1 - 52)" by (rule round_mag_at [OF e])
    then show ?thesis by (simp only: uh xu) simp
  qed
qed

lemma double_pos_form:
  assumes "double r = Fin x" "0 < x"
  shows "\<exists>k e. normal_form x k e" and "x < 2 ^ 1024"
proof -
  have r: "r \<noteq> 0" using assms by (auto simp: double_def)
  define v where "v = round_mag \<bar>r\<bar>"
  have v: "x = sgn r * v" "v < 2 ^ 1024"
    using assms(1) r unfolding double_def v_def Let_def by (auto split: if_splits simp del: power_numeral)
  have form: "v = 0 \<or> (\<exists>k e. normal_form v k e)" unfolding v_def using r by (intro round_mag_form) simp
  have "0 \<le> v" using form by (auto simp: normal_form_def)
  with v assms(2) have "x = v" by (auto simp: sgn_if split: if_splits)
  with form v assms(2) show "\<exists>k e. normal_form x k e" "x < 2 ^ 1024" by auto
qed

lemma double_near:
  assumes x: "double r = Fin x" "0 < x" and z: "\<bar>z - x\<bar> \<le> x / 20000000000000000"
  shows "double z = Fin x"
proof -
  obtain k e where nf: "normal_form x k e" and big: "x < 2 ^ 1024" using double_pos_form [OF x] by blast
  have zb: "z \<le> x + x / 20000000000000000" "x - x / 20000000000000000 \<le> z" using z by linarith+
  have zp: "0 < z" using zb x(2) by linarith
  have rm: "round_mag z = x"
  proof (cases "x \<le> z")
    case True
    have "x < 2 ^ 53 * 2 powi (e - 52)"
    proof -
      have "x = of_int k * 2 powi (e - 52)" "k < 2 ^ 53" using nf by (simp_all add: normal_form_def)
      moreover have "(of_int k :: rat) < 2 ^ 53" using of_int_bits(1) [OF calculation(2)] by simp
      ultimately show ?thesis by simp
    qed
    then have "x < 9007199254740992 * 2 powi (e - 52)" by simp
    then have "z < x + 2 powi (e - 52) / 2" using zb x(2) by linarith
    with nf True show ?thesis by (rule round_near_above)
  next
    case False
    have "x - x / 18014398509481984 < z" using zb x(2) by linarith
    then have "x - x / 2 ^ 54 < z" by simp
    with nf zp False show ?thesis by (intro round_near_below) simp_all
  qed
  show ?thesis using zp rm big x(2) unfolding double_def Let_def by (simp del: power_numeral)
qed

lemma double_neg: "double r = Fin x \<Longrightarrow> double (- r) = Fin (- x)"
  unfolding double_def Let_def by (auto split: if_splits simp: sgn_if simp del: power_numeral)

lemma double_idem: "double r = Fin x \<Longrightarrow> double x = Fin x"
proof -
  assume d: "double r = Fin x"
  show ?thesis
  proof (cases "x = 0")
    case True
    then show ?thesis by (simp add: double_def)
  next
    case False
    show ?thesis
    proof (cases "0 < x")
      case True
      with d show ?thesis by (intro double_near [OF d]) simp_all
    next
      case False
      with \<open>x \<noteq> 0\<close> have "double (- x) = Fin (- x)"
        by (intro double_near [OF double_neg [OF d]]) simp_all
      from double_neg [OF this] show ?thesis by simp
    qed
  qed
qed

lemma is_double_double: "is_double (double r)"
  by (auto simp: is_double_def split: jsnum.splits intro: double_idem)

lemma is_double_neg: "is_double x \<Longrightarrow> is_double (num_neg x)"
  by (cases x) (auto simp: is_double_def double_neg)

lemma is_double_number_of_string: "is_double (number_of_string s)"
proof -
  have s: "is_double (signed b x)" if "is_double x" for b x
    using that is_double_neg by (auto simp: signed_def)
  have z: "is_double (Fin 0)" "is_double PosInf" "is_double NaN" by (simp_all add: is_double_def double_def)
  show ?thesis unfolding number_of_string_def Let_def
    by (auto simp del: split_paired_All split: prod.split intro: s z is_double_double split: option.split list.split)
qed

lemma decimal_17:
  assumes x: "double x = Fin x" "0 < x"
  shows "decimal_of_digits x 17 \<noteq> None"
proof -
  define m where "m = flog 10 x + 1 - int 17"
  define y where "y = x / 10 powi m"
  define lo where "lo = nat \<lfloor>y\<rfloor>"
  have tm: "(0::rat) < 10 powi m" by simp
  have y: "10 ^ 16 \<le> y" using floor_decimal_bounds(1) [OF x(2), of 17] by (simp add: y_def m_def)
  then have "0 \<le> \<lfloor>y\<rfloor>" by (simp add: le_floor_iff)
  then have "(of_nat lo :: rat) = of_int \<lfloor>y\<rfloor>" by (simp add: lo_def)
  then have lo: "of_nat lo \<le> y" "y < of_nat lo + 1" by linarith+
  have close: "reads_back x t m" if t: "\<bar>of_nat t - y\<bar> \<le> 1 / 2" for t
  proof -
    have "of_nat t * 10 powi m - x = (of_nat t - y) * 10 powi m"
      using tm by (simp add: y_def left_diff_distrib)
    then have "\<bar>of_nat t * 10 powi m - x\<bar> = \<bar>of_nat t - y\<bar> * 10 powi m"
      using tm by (simp add: abs_mult)
    also have "\<dots> \<le> 1 / 2 * 10 powi m" using t tm by (intro mult_right_mono) simp_all
    also have "\<dots> \<le> x / 20000000000000000"
    proof -
      have "10 ^ 16 * 10 powi m \<le> x" using y tm by (simp only: y_def le_divide_eq if_True)
      then show ?thesis by simp
    qed
    finally show ?thesis unfolding reads_back_def by (rule double_near [OF x])
  qed
  let ?n = "y - of_nat lo < of_nat (Suc lo) - y \<or> (y - of_nat lo = of_nat (Suc lo) - y \<and> even lo)"
  have "reads_back x (if ?n then lo else Suc lo) m"
    by (rule close) (use lo in \<open>auto simp: abs_le_iff\<close>)
  then show ?thesis
    unfolding decimal_of_digits_def Let_def m_def [symmetric] y_def [symmetric] lo_def [symmetric] by simp
qed

lemma shortest_total: "double x = Fin x \<Longrightarrow> 0 < x \<Longrightarrow> \<exists>s n. shortest x = Some (s, n)"
proof -
  assume x: "double x = Fin x" "0 < x"
  have "17 \<in> set [1..<18::nat]" by simp
  with decimal_17 [OF x] have "List.find (\<lambda>k. decimal_of_digits x k \<noteq> None) [1..<18] \<noteq> None"
    unfolding find_None_iff by blast
  then obtain k where k: "List.find (\<lambda>k. decimal_of_digits x k \<noteq> None) [1..<18] = Some k" by blast
  then have "decimal_of_digits x k \<noteq> None" by (auto simp: find_Some_iff)
  with k show ?thesis unfolding shortest_def by auto
qed

lemma scan_positive:
  assumes "double x = Fin x" "0 < x" "number_ends r"
  shows "\<exists>v. scan_decimal (positive_to_string x @ r) = Some (v, r) \<and> double v = Fin x"
proof -
  obtain s n where sn: "shortest x = Some (s, n)" using shortest_total assms by blast
  have "reads_back x s (n - int (length (show_nat s)))" by (rule shortest_Some [OF assms(2) sn])
  with scan_layout_number [OF all_digits_show_nat assms(3), of s n] sn show ?thesis
    by (simp add: positive_to_string_def reads_back_def)
qed

lemma layout_units:
  assumes "all_digits ds" "c \<in> set (layout_number ds n)"
  shows "is_digit c \<or> c \<in> {46, 101, 43, 45}"
  using assms unfolding layout_number_def all_digits_def Let_def
  by (auto split: if_splits simp: is_digit_def
      dest: in_set_takeD in_set_dropD list.set_sel(2) show_nat_digits hd_in_set)

lemma hd_layout: "all_digits ds \<Longrightarrow> is_digit (hd (layout_number ds n)) \<and> layout_number ds n \<noteq> []"
  unfolding layout_number_def all_digits_def Let_def
  by (cases ds) (auto simp: is_digit_def nat_eq_iff take_Cons')

lemma positive_to_string_units:
  assumes "double x = Fin x" "0 < x"
  shows "positive_to_string x \<noteq> []" and "is_digit (hd (positive_to_string x))"
    and "c \<in> set (positive_to_string x) \<Longrightarrow> is_digit c \<or> c \<in> {46, 101, 43, 45}"
proof -
  obtain s n where sn: "shortest x = Some (s, n)" using shortest_total assms by blast
  then have p: "positive_to_string x = layout_number (show_nat s) n" by (simp add: positive_to_string_def)
  show "positive_to_string x \<noteq> []" "is_digit (hd (positive_to_string x))"
    using hd_layout [of "show_nat s" n] by (simp_all add: p)
  show "c \<in> set (positive_to_string x) \<Longrightarrow> is_digit c \<or> c \<in> {46, 101, 43, 45}"
    using layout_units [of "show_nat s" c n] by (simp add: p)
qed

lemma radix_literal_None:
  "\<forall>c \<in> set s. is_digit c \<or> c \<in> {46, 101, 43, 45} \<Longrightarrow> radix_literal s = None"
  by (auto simp: radix_literal_def is_digit_def split: list.splits)

lemma print_units_no_ws: "is_digit c \<or> c \<in> {46, 101, 43, 45} \<Longrightarrow> \<not> is_ws c"
  by (auto simp: is_digit_def is_ws_def ws_units_def)

lemma number_of_string_positive:
  assumes x: "double x = Fin x" "0 < x"
  shows "number_of_string (positive_to_string x) = Fin x"
    and "number_of_string (45 # positive_to_string x) = Fin (- x)"
proof -
  let ?p = "positive_to_string x"
  note u = positive_to_string_units [OF x]
  obtain v where v: "scan_decimal ?p = Some (v, [])" "double v = Fin x"
    using scan_positive [OF x, of "[]"] by auto
  have ninf: "?p \<noteq> lit ''Infinity''"
  proof
    assume "?p = lit ''Infinity''"
    then have "73 \<in> set ?p" by (simp add: lit_def)
    then show False using u(3) [of 73] by (simp add: is_digit_def)
  qed
  have sg: "split_sign ?p = (False, ?p)"
    using u(1,2) by (cases ?p) (auto simp: split_sign_def is_digit_def)
  have tr: "trim ?p = ?p" "trim (45 # ?p) = 45 # ?p"
    using u(3) print_units_no_ws by (auto intro!: trim_no_ws)
  have rx: "radix_literal ?p = None" "radix_literal (45 # ?p) = None"
    using u(3) by (intro radix_literal_None; auto)+
  show "number_of_string ?p = Fin x"
    using u(1) v by (simp add: number_of_string_def tr rx sg ninf signed_def)
  show "number_of_string (45 # ?p) = Fin (- x)"
    using v by (simp add: number_of_string_def tr rx ninf signed_def split_sign_def)
qed

lemma number_of_string_0: "number_of_string [48] = Fin 0"
  by (simp add: number_of_string_def trim_no_ws is_ws_def ws_units_def lit_def radix_literal_def
      split_sign_def scan_decimal_def span_digits_def is_digit_def scan_exponent_def double_def
      signed_def digits_val_def)

lemma number_of_string_specials:
  "number_of_string (lit ''NaN'') = NaN" "number_of_string (lit ''Infinity'') = PosInf"
  "number_of_string (lit ''-Infinity'') = NegInf"
  by (simp_all add: number_of_string_def trim_no_ws is_ws_def ws_units_def lit_def radix_literal_def
      split_sign_def scan_decimal_def span_digits_def is_digit_def signed_def)

text \<open>\<^verbatim>\<open>Number(String(x))\<close> is \<open>x\<close> for every number value.\<close>

lemma number_of_string_num_to_string [simp]: "is_double x \<Longrightarrow> number_of_string (num_to_string x) = x"
proof (cases x)
  case (Fin r)
  assume "is_double x"
  then have d: "double r = Fin r" by (simp add: is_double_def Fin)
  consider "r = 0" | "0 < r" | "r < 0" by linarith
  then show ?thesis
  proof cases
    case 3
    with number_of_string_positive(2) [of "- r"] double_neg [OF d] show ?thesis by (simp add: Fin)
  qed (use number_of_string_positive(1) [OF d] number_of_string_0 in \<open>simp_all add: Fin\<close>)
qed (simp_all add: number_of_string_specials)

section \<open>Natural numbers print as their digits\<close>

lemma show_nat_mult_pow: "0 < s \<Longrightarrow> show_nat (s * 10 ^ j) = show_nat s @ replicate j 48"
proof (induction j)
  case (Suc j)
  have "\<not> s * 10 ^ Suc j < 10" using Suc.prems by simp
  then have "show_nat (s * 10 ^ Suc j) = show_nat (s * 10 ^ Suc j div 10) @ [48 + s * 10 ^ Suc j mod 10]"
    by (simp only: show_nat.simps [of "s * 10 ^ Suc j"] if_False)
  also have "s * 10 ^ Suc j div 10 = s * 10 ^ j" by simp
  also have "s * 10 ^ Suc j mod 10 = 0" by simp
  finally have "show_nat (s * 10 ^ Suc j) = show_nat s @ replicate j 48 @ [48]" using Suc by simp
  then show ?case by (simp only: replicate_append_same replicate_Suc)
qed simp

lemma of_nat_lt_pow: "n < 10 ^ 15 \<Longrightarrow> (of_nat n :: rat) < 10 ^ 15"
  by (metis of_nat_less_iff of_nat_numeral of_nat_power)

lemma flog_nat_digits:
  assumes "0 < n" "n < 10 ^ 15"
  shows "0 \<le> flog 10 (of_nat n)" and "flog 10 (of_nat n) \<le> 14"
proof -
  let ?x = "of_nat n :: rat"
  have xp: "0 < ?x" "1 \<le> ?x" using assms by simp_all
  have "?x < 10 powi (14 + 1)" using of_nat_lt_pow [OF assms(2)] by simp
  then show "flog 10 ?x \<le> 14" using xp by (intro flog_le) simp_all
  have "(10::rat) powi 0 < 10 powi (flog 10 ?x + 1)" using flog_bounds(2) [of 10 ?x] xp by simp
  then show "0 \<le> flog 10 ?x" using powi_less_imp_less [of 10 0 "flog 10 ?x + 1"] by simp
qed

lemma double_small_nat: "n < 10 ^ 15 \<Longrightarrow> double (of_nat n) = Fin (of_nat n)"
  by (rule double_nat) simp

lemma decimal_full_nat:
  assumes "0 < n" "n < 10 ^ 15"
  shows "decimal_of_digits (of_nat n) (nat (flog 10 (of_nat n) + 1)) \<noteq> None"
  using flog_nat_digits [OF assms] double_small_nat [OF assms(2)]
  unfolding decimal_of_digits_def Let_def by (simp add: reads_back_def)

lemma shortest_nat_digits:
  assumes n: "0 < n" "n < 10 ^ 15" and sh: "shortest (of_nat n) = Some (s, p)"
  obtains k where "0 < k" "int k \<le> flog 10 (of_nat n) + 1" "decimal_of_digits (of_nat n) k = Some (s, p)"
proof -
  let ?x = "of_nat n :: rat"
  let ?D = "nat (flog 10 ?x + 1)"
  obtain k where k: "List.find (\<lambda>k. decimal_of_digits ?x k \<noteq> None) [1..<18] = Some k"
    "decimal_of_digits ?x k = Some (s, p)"
    using sh by (auto simp: shortest_def split: option.splits)
  obtain i where i: "k = Suc i" "\<forall>j < i. decimal_of_digits ?x (Suc j) = None"
    using k(1) unfolding find_Some_iff by fastforce
  have D: "0 < ?D" using flog_nat_digits [OF n] by simp
  have "\<not> ?D - 1 < i" using i(2) decimal_full_nat [OF n] D by auto
  then have "int k \<le> flog 10 ?x + 1" using i(1) D by linarith
  with k(2) i(1) that show ?thesis by blast
qed

lemma nearby_nat_exact:
  fixes n t j :: nat
  defines "x \<equiv> of_nat n :: rat"
  assumes n: "0 < n" "n < 10 ^ 15" and j: "int j \<le> flog 10 x"
    and t: "t = nat \<lfloor>x / 10 ^ j\<rfloor> \<or> t = Suc (nat \<lfloor>x / 10 ^ j\<rfloor>)" and rb: "reads_back x t (int j)"
  shows "t * 10 ^ j = n"
proof -
  have "(10::rat) powi (int j) \<le> 10 powi (flog 10 x)" using j by (intro power_int_increasing) simp_all
  also have "\<dots> \<le> x" using flog_bounds(1) [of 10 x] n by (simp add: x_def)
  finally have jx: "(10::rat) ^ j \<le> x" by simp
  define f where "f = \<lfloor>x / 10 ^ j\<rfloor>"
  have f: "of_int f \<le> x / 10 ^ j" "0 \<le> f" by (simp_all add: f_def x_def)
  have "t = nat f \<or> t = Suc (nat f)" using t by (simp add: f_def)
  then have "(of_nat t :: rat) \<le> of_int f + 1" using f(2) by auto
  then have "of_nat t \<le> x / 10 ^ j + 1" using f(1) by linarith
  then have "of_nat t * 10 ^ j \<le> x + 10 ^ j" by (simp add: field_simps)
  then have "of_nat t * 10 ^ j \<le> 2 * x" using jx by linarith
  then have "(of_nat (t * 10 ^ j) :: rat) \<le> of_nat (2 * n)" by (simp add: x_def)
  then have "t * 10 ^ j \<le> 2 * n" by (simp only: of_nat_le_iff)
  with n have "t * 10 ^ j \<le> 2 ^ 53" by simp
  then have "double (of_nat (t * 10 ^ j)) = Fin (of_nat (t * 10 ^ j))" by (rule double_nat)
  moreover have "double (of_nat (t * 10 ^ j)) = Fin x" using rb by (simp add: reads_back_def)
  ultimately have "(of_nat (t * 10 ^ j) :: rat) = of_nat n" by (simp add: x_def)
  then show ?thesis by (simp only: of_nat_eq_iff)
qed

lemma shortest_nat_exact:
  assumes n: "0 < n" "n < 10 ^ 15" and sh: "shortest (of_nat n) = Some (s, p)"
  shows "0 < s \<and> int (length (show_nat s)) \<le> p \<and> p \<le> 21 \<and>
    s * 10 ^ nat (p - int (length (show_nat s))) = n"
proof -
  let ?x = "of_nat n :: rat"
  obtain k where k: "0 < k" "int k \<le> flog 10 ?x + 1" "decimal_of_digits ?x k = Some (s, p)"
    using shortest_nat_digits [OF n sh] .
  have len: "length (show_nat s) = k" using decimal_of_digits_Some(1) [OF _ k(1,3)] n by simp
  define j where "j = nat (flog 10 ?x + 1 - int k)"
  have m: "flog 10 ?x + 1 - int k = int j" using k by (simp add: j_def)
  obtain t where t: "t = nat \<lfloor>?x / 10 ^ j\<rfloor> \<or> t = Suc (nat \<lfloor>?x / 10 ^ j\<rfloor>)" "reads_back ?x t (int j)"
    "(s, p) = (if t = 10 ^ k then (10 ^ (k - 1), flog 10 ?x + 1 + 1) else (t, flog 10 ?x + 1))"
    using decimal_of_digits_cases [OF k(3)] unfolding m power_int_of_nat by blast
  have tn: "t * 10 ^ j = n" by (rule nearby_nat_exact [OF n _ t(1,2)]) (use m k(1) in simp)
  show ?thesis
  proof (cases "t = 10 ^ k")
    case True
    then have sp: "s = 10 ^ (k - 1)" "p = int k + int j + 1" using t(3) m by auto
    have "10 ^ (k - 1) * 10 ^ (j + 1) = (10 ^ k * 10 ^ j :: nat)"
      using k(1) by (cases k) simp_all
    moreover have "nat (p - int k) = j + 1" using sp by simp
    ultimately show ?thesis using sp True tn len flog_nat_digits [OF n] m by auto
  next
    case False
    then have "s = t" "p = int k + int j" using t(3) m by auto
    with tn len flog_nat_digits [OF n] m n show ?thesis by auto
  qed
qed

lemma positive_to_string_nat:
  assumes "0 < n" "n < 10 ^ 15"
  shows "positive_to_string (of_nat n) = show_nat n"
proof -
  obtain s p where sh: "shortest (of_nat n) = Some (s, p)"
    using shortest_total [OF double_small_nat [OF assms(2)]] assms(1) by auto
  with shortest_nat_exact [OF assms sh] show ?thesis
    by (auto simp: positive_to_string_def layout_number_def show_nat_mult_pow [symmetric])
qed

lemma num_to_string_nat [simp]: "n < 10 ^ 15 \<Longrightarrow> num_to_string (num_of_nat n) = show_nat n"
  by (cases "n = 0") (simp_all add: positive_to_string_nat show_nat_small)

lemma num_to_string_numeral [simp]:
  "(numeral k :: nat) < 10 ^ 15 \<Longrightarrow> num_to_string (Fin (numeral k)) = show_nat (numeral k)"
  using num_to_string_nat [of "numeral k"] by (simp only: of_nat_numeral)

lemma num_to_string_0_1 [simp]: "num_to_string (Fin 0) = [48]" "num_to_string (Fin 1) = [49]"
  using num_to_string_nat [of 1] by (simp_all add: show_nat.simps [of "Suc 0"] del: num_to_string_nat)

declare num_to_string.simps(4) [simp del]

section \<open>Rounding is monotone\<close>

lemma round_even_mono: "r \<le> s \<Longrightarrow> round_even r \<le> round_even s"
proof (cases "\<lfloor>r\<rfloor> = \<lfloor>s\<rfloor>")
  case False
  assume "r \<le> s"
  then have "\<lfloor>r\<rfloor> + 1 \<le> \<lfloor>s\<rfloor>" using False floor_mono by fastforce
  moreover have "round_even r \<le> \<lfloor>r\<rfloor> + 1" by (rule round_even_le) linarith
  moreover have "\<lfloor>s\<rfloor> \<le> round_even s" by (rule round_even_ge) simp
  ultimately show ?thesis by simp
qed (auto simp: round_even_def Let_def)

lemma round_mag_mono:
  assumes r: "0 < r" and rs: "r \<le> s"
  shows "round_mag r \<le> round_mag s"
proof -
  have s: "0 < s" using assms by simp
  define e where "e x = max (flog 2 x) (- 1022)" for x
  have rm: "round_mag x = of_int (round_even (x / 2 powi (e x - 52))) * 2 powi (e x - 52)" for x
    by (simp add: round_mag_def e_def Let_def)
  have fs: "s < 2 powi (flog 2 s + 1)" "2 powi (flog 2 s) \<le> s" "r < 2 powi (flog 2 r + 1)"
    using flog_bounds [of 2 s] flog_bounds [of 2 r] r s by simp_all
  have "flog 2 r \<le> flog 2 s"
    by (rule flog_le) (use r rs fs in auto)
  then have "e r = e s \<or> e r < e s \<and> e s = flog 2 s" unfolding e_def by linarith
  then consider "e r = e s" | "e r < e s" "e s = flog 2 s" by blast
  then show ?thesis
  proof cases
    case 1
    have "r / 2 powi (e s - 52) \<le> s / 2 powi (e s - 52)" using rs by (simp add: divide_right_mono)
    then show ?thesis unfolding rm 1 by (intro mult_right_mono) (auto intro: round_even_mono)
  next
    case 2
    have "r \<le> (2::rat) powi (e r + 1)"
      using fs(3) power_int_increasing [of "flog 2 r + 1" "e r + 1" "2::rat"] by (simp add: e_def)
    then have "r / 2 powi (e r - 52) \<le> of_int (2 ^ 53)"
      using two_53 [of "e r"] by (simp add: divide_le_eq)
    then have "round_even (r / 2 powi (e r - 52)) \<le> 2 ^ 53" by (rule round_even_le)
    then have "(of_int (round_even (r / 2 powi (e r - 52))) :: rat) \<le> of_int (2 ^ 53)"
      by (simp only: of_int_le_iff)
    then have "round_mag r \<le> of_int (2 ^ 53) * 2 powi (e r - 52)"
      unfolding rm by (intro mult_right_mono) simp_all
    also have "\<dots> = 2 powi (e r + 1)" using two_53 [of "e r"] by simp
    also have "\<dots> \<le> 2 powi (e s)" using 2(1) by (intro power_int_increasing) auto
    also have "\<dots> = of_int (2 ^ 52) * 2 powi (e s - 52)" using two_52 [of "e s"] by simp
    also have "\<dots> \<le> round_mag s"
    proof -
      have "of_int (2 ^ 52) \<le> s / 2 powi (e s - 52)"
        using fs(2) two_52 [of "e s"] 2(2) by (simp add: le_divide_eq)
      then have "2 ^ 52 \<le> round_even (s / 2 powi (e s - 52))" by (rule round_even_ge)
      then have "(of_int (2 ^ 52) :: rat) \<le> of_int (round_even (s / 2 powi (e s - 52)))"
        by (simp only: of_int_le_iff)
      then show ?thesis unfolding rm by (intro mult_right_mono) simp_all
    qed
    finally show ?thesis .
  qed
qed

text \<open>Comparing a rounded whole number with a small constant is comparing the number itself.\<close>

lemma double_nat_cases:
  "n \<le> 2 ^ 53 \<and> double (of_nat n) = num_of_nat n \<or>
   2 ^ 53 < n \<and> (double (of_nat n) = PosInf \<or> (\<exists>q \<ge> 2 ^ 53. double (of_nat n) = Fin q))"
proof (cases "n \<le> 2 ^ 53")
  case False
  have "round_mag (of_nat (2 ^ 53)) = of_nat (2 ^ 53)"
    using double_nat [of "2 ^ 53"] by (simp add: double_def Let_def split: if_splits)
  moreover have "round_mag (of_nat (2 ^ 53)) \<le> round_mag (of_nat n)"
    by (rule round_mag_mono) (use False in \<open>simp_all only: of_nat_le_iff of_nat_0_less_iff, simp_all\<close>)
  ultimately have "2 ^ 53 \<le> round_mag (of_nat n)" by simp
  then show ?thesis using False by (auto simp: double_def Let_def)
qed simp

lemma num_less_double_nat:
  assumes "c \<le> 2 ^ 52"
  shows "num_less (double (of_nat n)) (num_of_nat c) \<longleftrightarrow> n < c"
    and "num_less (num_of_nat c) (double (of_nat n)) \<longleftrightarrow> c < n"
proof -
  have c: "(of_nat c :: rat) < 2 ^ 53"
  proof -
    have "(of_nat c :: rat) \<le> of_nat (2 ^ 52)" using assms by (simp only: of_nat_le_iff)
    then show ?thesis by simp
  qed
  show "num_less (double (of_nat n)) (num_of_nat c) \<longleftrightarrow> n < c"
    using double_nat_cases [of n] c assms by auto
  show "num_less (num_of_nat c) (double (of_nat n)) \<longleftrightarrow> c < n"
    using double_nat_cases [of n] c assms by auto
qed

lemma trim_digits: "all_digits s \<Longrightarrow> trim s = s"
  by (rule trim_no_ws) (auto simp: all_digits_def is_ws_not_digit)

lemma parse_int_digits:
  assumes "all_digits s"
  shows "parse_int s = double (of_nat (digits_val s))"
proof -
  have "trim_start s = s"
    using assms by (cases s) (auto simp: all_digits_def trim_start_def dest: is_ws_not_digit)
  moreover have "split_sign s = (False, s)"
    using assms by (cases s) (auto simp: split_sign_def all_digits_def is_digit_def)
  moreover have "span_digits s = (s, [])"
    using assms span_digits_append [of s "[]"] by (auto simp: all_digits_def)
  ultimately show ?thesis using assms by (simp add: parse_int_def signed_def all_digits_def)
qed

end
