(* ===== verification/Js_Value.thy ===== *)
theory Js_Value
  imports Js_Number_Facts
begin

text \<open>
  JavaScript values as far as the modelled code handles them as data: what \<^verbatim>\<open>JSON.parse\<close>
  returns, plus \<^verbatim>\<open>undefined\<close>. An object is the list of its own enumerable properties in the
  order \<^verbatim>\<open>Object.keys\<close> lists them: array-index keys ascending, then the others in the order they
  were created. A property read sees own properties only; members inherited from
  \<^verbatim>\<open>Object.prototype\<close> are not modelled. Also here: \<^verbatim>\<open>typeof\<close>, truthiness, \<^verbatim>\<open>String(v)\<close> and
  \<^verbatim>\<open>Number(v)\<close>.
\<close>

datatype jsv =
    JUndef
  | JNull
  | JBool bool
  | JNum jsnum
  | JStr jstring
  | JArr "jsv list"
  | JObj "(jstring \<times> jsv) list"

type_synonym props = "(jstring \<times> jsv) list"

section \<open>Objects\<close>

text \<open>The array indices: canonical decimal texts of numbers below \<open>2 ^ 32 - 1\<close>.\<close>

definition array_index :: "jstring \<Rightarrow> nat option" where
  "array_index k =
     (if all_digits k \<and> (k = [48] \<or> hd k \<noteq> 48) \<and> digits_val k < 4294967295
      then Some (digits_val k) else None)"

text \<open>Position of a new key among the existing ones.\<close>

definition key_before :: "jstring \<Rightarrow> jstring \<Rightarrow> bool" where
  "key_before k k' = (case array_index k of
       None \<Rightarrow> False
     | Some i \<Rightarrow> (case array_index k' of None \<Rightarrow> True | Some j \<Rightarrow> i < j))"

fun obj_insert :: "jstring \<Rightarrow> 'v \<Rightarrow> (jstring \<times> 'v) list \<Rightarrow> (jstring \<times> 'v) list" where
  "obj_insert k v [] = [(k, v)]"
| "obj_insert k v (p # ps) = (if key_before k (fst p) then (k, v) # p # ps else p # obj_insert k v ps)"

fun obj_replace :: "jstring \<Rightarrow> 'v \<Rightarrow> (jstring \<times> 'v) list \<Rightarrow> (jstring \<times> 'v) list" where
  "obj_replace k v [] = []"
| "obj_replace k v (p # ps) = (if fst p = k then (k, v) # ps else p # obj_replace k v ps)"

text \<open>\<^verbatim>\<open>o[k] = v\<close>, \<^verbatim>\<open>delete o[k]\<close>, \<^verbatim>\<open>{ ...o, ...p }\<close>, \<^verbatim>\<open>o[k]\<close>, \<^verbatim>\<open>Object.keys(o)\<close>.\<close>

definition obj_set :: "jstring \<Rightarrow> 'v \<Rightarrow> (jstring \<times> 'v) list \<Rightarrow> (jstring \<times> 'v) list" where
  "obj_set k v ps = (if k \<in> fst ` set ps then obj_replace k v ps else obj_insert k v ps)"

definition obj_delete :: "jstring \<Rightarrow> (jstring \<times> 'v) list \<Rightarrow> (jstring \<times> 'v) list" where
  "obj_delete k ps = filter (\<lambda>p. fst p \<noteq> k) ps"

definition obj_assign :: "(jstring \<times> 'v) list \<Rightarrow> (jstring \<times> 'v) list \<Rightarrow> (jstring \<times> 'v) list" where
  "obj_assign ps qs = foldl (\<lambda>acc (k, v). obj_set k v acc) ps qs"

definition obj_of_list :: "(jstring \<times> 'v) list \<Rightarrow> (jstring \<times> 'v) list" where
  "obj_of_list qs = obj_assign [] qs"

definition obj_get :: "jstring \<Rightarrow> props \<Rightarrow> jsv" where
  "obj_get k ps = (case map_of ps k of Some v \<Rightarrow> v | None \<Rightarrow> JUndef)"

definition obj_keys :: "(jstring \<times> 'v) list \<Rightarrow> jstring list" where
  "obj_keys ps = map fst ps"

text \<open>A property list that an object can have: distinct keys in enumeration order.\<close>

definition wf_props :: "(jstring \<times> 'v) list \<Rightarrow> bool" where
  "wf_props ps \<longleftrightarrow> distinct (map fst ps) \<and> sorted_wrt (\<lambda>p q. \<not> key_before (fst q) (fst p)) ps"

section \<open>Type tests and conversions\<close>

fun truthy :: "jsv \<Rightarrow> bool" where
  "truthy JUndef = False"
| "truthy JNull = False"
| "truthy (JBool b) = b"
| "truthy (JNum x) = (x \<noteq> NaN \<and> x \<noteq> Fin 0)"
| "truthy (JStr s) = (s \<noteq> [])"
| "truthy (JArr _) = True"
| "truthy (JObj _) = True"

fun type_of :: "jsv \<Rightarrow> jstring" where
  "type_of JUndef = lit ''undefined''"
| "type_of JNull = lit ''object''"
| "type_of (JBool b) = lit ''boolean''"
| "type_of (JNum x) = lit ''number''"
| "type_of (JStr s) = lit ''string''"
| "type_of (JArr _) = lit ''object''"
| "type_of (JObj _) = lit ''object''"

fun is_array :: "jsv \<Rightarrow> bool" where
  "is_array (JArr _) = True"
| "is_array _ = False"

text \<open>\<^verbatim>\<open>v && typeof v === 'object' && !Array.isArray(v)\<close>, the test the sources repeat.\<close>

definition is_plain_object :: "jsv \<Rightarrow> bool" where
  "is_plain_object v \<longleftrightarrow> truthy v \<and> type_of v = lit ''object'' \<and> \<not> is_array v"

text \<open>\<^verbatim>\<open>a ?? b\<close> and \<^verbatim>\<open>a || b\<close>.\<close>

definition nullish :: "jsv \<Rightarrow> jsv \<Rightarrow> jsv" where
  "nullish a b = (if a = JUndef \<or> a = JNull then b else a)"

definition or_else :: "jsv \<Rightarrow> jsv \<Rightarrow> jsv" where
  "or_else a b = (if truthy a then a else b)"

text \<open>\<^verbatim>\<open>String(v)\<close>; an array prints its elements, \<^verbatim>\<open>null\<close> and \<^verbatim>\<open>undefined\<close> among them as nothing.\<close>

fun js_string :: "jsv \<Rightarrow> jstring" and js_elems :: "jsv list \<Rightarrow> jstring list" where
  "js_string JUndef = lit ''undefined''"
| "js_string JNull = lit ''null''"
| "js_string (JBool b) = (if b then lit ''true'' else lit ''false'')"
| "js_string (JNum x) = num_to_string x"
| "js_string (JStr s) = s"
| "js_string (JArr vs) = join [44] (js_elems vs)"
| "js_string (JObj _) = lit ''[object Object]''"
| "js_elems [] = []"
| "js_elems (v # vs) = (if v = JUndef \<or> v = JNull then [] else js_string v) # js_elems vs"

fun js_number :: "jsv \<Rightarrow> jsnum" where
  "js_number JUndef = NaN"
| "js_number JNull = Fin 0"
| "js_number (JBool b) = (if b then Fin 1 else Fin 0)"
| "js_number (JNum x) = x"
| "js_number (JStr s) = number_of_string s"
| "js_number (JArr vs) = number_of_string (js_string (JArr vs))"
| "js_number (JObj _) = NaN"

text \<open>
  \<^verbatim>\<open>v?.[k]\<close>: the property read of a parsed value, \<^verbatim>\<open>undefined\<close> where there is none.
\<close>

fun get_prop :: "jstring \<Rightarrow> jsv \<Rightarrow> jsv" where
  "get_prop k (JObj ps) = obj_get k ps"
| "get_prop k (JArr vs) = (case array_index k of
       Some i \<Rightarrow> if i < length vs then vs ! i else JUndef
     | None \<Rightarrow> if k = lit ''length'' then JNum (num_of_nat (length vs)) else JUndef)"
| "get_prop k (JStr s) = (case array_index k of
       Some i \<Rightarrow> if i < length s then JStr [s ! i] else JUndef
     | None \<Rightarrow> if k = lit ''length'' then JNum (num_of_nat (length s)) else JUndef)"
| "get_prop k _ = JUndef"

text \<open>\<^verbatim>\<open>Object.entries(v)\<close> of an object or an array.\<close>

fun entries_of :: "jsv \<Rightarrow> props" where
  "entries_of (JObj ps) = ps"
| "entries_of (JArr vs) = zip (map show_nat [0..<length vs]) vs"
| "entries_of (JStr s) = zip (map show_nat [0..<length s]) (map (\<lambda>c. JStr [c]) s)"
| "entries_of _ = []"

section \<open>Lemmas on objects\<close>

lemma key_before_asym: "key_before a b \<Longrightarrow> \<not> key_before b a"
  by (auto simp: key_before_def split: option.splits)

lemma key_before_trans: "key_before a b \<Longrightarrow> key_before b c \<Longrightarrow> key_before a c"
  by (auto simp: key_before_def split: option.splits)

lemma key_before_cotrans: "\<not> key_before a b \<Longrightarrow> \<not> key_before b c \<Longrightarrow> \<not> key_before a c"
  by (auto simp: key_before_def split: option.splits)

lemma set_obj_insert: "set (obj_insert k v ps) = insert (k, v) (set ps)"
  by (induction ps) auto

lemma map_of_obj_insert:
  "k \<notin> fst ` set ps \<Longrightarrow> map_of (obj_insert k v ps) = (map_of ps)(k \<mapsto> v)"
  by (induction ps) (auto simp: fun_eq_iff)

lemma map_of_obj_replace:
  "k \<in> fst ` set ps \<Longrightarrow> map_of (obj_replace k v ps) = (map_of ps)(k \<mapsto> v)"
proof (induction ps)
  case (Cons p ps)
  then show ?case by (cases "fst p = k") (auto simp del: image_iff simp add: fun_eq_iff)
qed simp

lemma keys_obj_replace [simp]: "map fst (obj_replace k v ps) = map fst ps"
  by (induction ps) auto

lemma map_of_obj_set [simp]: "map_of (obj_set k v ps) = (map_of ps)(k \<mapsto> v)"
  by (simp add: obj_set_def map_of_obj_insert map_of_obj_replace)

lemma keys_obj_set: "fst ` set (obj_set k v ps) = insert k (fst ` set ps)"
  unfolding dom_map_of_conv_image_fst [symmetric] by simp

lemma map_of_obj_delete [simp]: "map_of (obj_delete k ps) = (map_of ps)(k := None)"
  by (induction ps) (auto simp: obj_delete_def fun_eq_iff)

lemma map_of_obj_assign: "map_of (obj_assign ps qs) = map_of ps ++ map_of (rev qs)"
proof (induction qs arbitrary: ps)
  case Nil
  then show ?case by (simp add: obj_assign_def)
next
  case (Cons q qs)
  then show ?case by (cases q) (simp add: obj_assign_def map_add_def fun_eq_iff split: option.split)
qed

lemma obj_get_set [simp]: "obj_get k (obj_set k' v ps) = (if k = k' then v else obj_get k ps)"
  by (simp add: obj_get_def)

lemma obj_get_Nil [simp]: "obj_get k [] = JUndef"
  by (simp add: obj_get_def)

lemma obj_get_Cons [simp]: "obj_get k (p # ps) = (if fst p = k then snd p else obj_get k ps)"
  by (cases p) (simp add: obj_get_def)

lemma wf_props_Nil [simp]: "wf_props []"
  by (simp add: wf_props_def)

lemma distinct_obj_insert:
  "distinct (map fst ps) \<Longrightarrow> k \<notin> fst ` set ps \<Longrightarrow> distinct (map fst (obj_insert k v ps))"
  by (induction ps) (auto simp: set_obj_insert)

lemma sorted_obj_insert:
  "sorted_wrt (\<lambda>p q. \<not> key_before (fst q) (fst p)) ps \<Longrightarrow>
   sorted_wrt (\<lambda>p q. \<not> key_before (fst q) (fst p)) (obj_insert k v ps)"
proof (induction ps)
  case (Cons p ps)
  then show ?case
    by (auto simp: set_obj_insert dest: key_before_asym key_before_cotrans key_before_trans)
qed simp

lemma sorted_obj_replace:
  "sorted_wrt (\<lambda>p q. \<not> key_before (fst q) (fst p)) (obj_replace k v ps) =
   sorted_wrt (\<lambda>p q. \<not> key_before (fst q) (fst p)) ps"
proof -
  have "sorted_wrt (\<lambda>p q. \<not> key_before (fst q) (fst p)) qs \<longleftrightarrow>
      sorted_wrt (\<lambda>a b. \<not> key_before b a) (map fst qs)" for qs :: "(jstring \<times> 'a) list"
    by (simp add: sorted_wrt_map)
  then show ?thesis by simp
qed

lemma wf_obj_set [inv_intros]: "wf_props ps \<Longrightarrow> wf_props (obj_set k v ps)"
  by (simp add: wf_props_def obj_set_def distinct_obj_insert sorted_obj_insert sorted_obj_replace)

lemma wf_obj_delete [inv_intros]: "wf_props ps \<Longrightarrow> wf_props (obj_delete k ps)"
  by (auto simp: wf_props_def obj_delete_def sorted_wrt_filter distinct_map inj_on_def)

lemma wf_obj_assign [inv_intros]: "wf_props ps \<Longrightarrow> wf_props (obj_assign ps qs)"
proof (induction qs arbitrary: ps)
  case Nil
  then show ?case by (simp add: obj_assign_def)
next
  case (Cons q qs)
  then show ?case using wf_obj_set by (cases q) (fastforce simp: obj_assign_def)
qed

lemma wf_obj_of_list [inv_intros]: "wf_props (obj_of_list qs)"
  by (simp add: obj_of_list_def wf_obj_assign)

lemma obj_insert_last:
  "\<forall>p \<in> set ps. \<not> key_before k (fst p) \<Longrightarrow> obj_insert k v ps = ps @ [(k, v)]"
  by (induction ps) auto

lemma obj_assign_append: "wf_props (ps @ qs) \<Longrightarrow> obj_assign ps qs = ps @ qs"
proof (induction qs arbitrary: ps)
  case Nil
  then show ?case by (simp add: obj_assign_def)
next
  case (Cons q qs)
  obtain k v where q: "q = (k, v)" by (cases q)
  have "k \<notin> fst ` set ps" and "\<forall>p \<in> set ps. \<not> key_before k (fst p)"
    using Cons.prems by (auto simp: wf_props_def q sorted_wrt_append)
  then have "obj_set k v ps = ps @ [(k, v)]" by (simp add: obj_set_def obj_insert_last)
  then have "obj_assign ps (q # qs) = obj_assign (ps @ [q]) qs" by (simp add: obj_assign_def q)
  with Cons.IH [of "ps @ [q]"] Cons.prems show ?case by simp
qed

text \<open>Rebuilding an object property by property in its own order gives it back.\<close>

lemma obj_of_list_wf [simp]: "wf_props ps \<Longrightarrow> obj_of_list ps = ps"
  using obj_assign_append [of "[]" ps] by (simp add: obj_of_list_def)

lemma map_of_obj_of_list: "map_of (obj_of_list qs) = map_of (rev qs)"
  by (simp add: obj_of_list_def map_of_obj_assign)

section \<open>Lemmas on type tests\<close>

lemma is_plain_object_iff: "is_plain_object v \<longleftrightarrow> (\<exists>ps. v = JObj ps)"
  by (cases v) (auto simp: is_plain_object_def)

lemma is_plain_object_JObj [simp]: "is_plain_object (JObj ps)"
  by (simp add: is_plain_object_iff)

lemma is_plain_object_others [simp]:
  "\<not> is_plain_object JUndef" "\<not> is_plain_object JNull" "\<not> is_plain_object (JBool b)"
  "\<not> is_plain_object (JNum x)" "\<not> is_plain_object (JStr s)" "\<not> is_plain_object (JArr vs)"
  by (auto simp: is_plain_object_iff)

end
