(* ===== verification/Json.thy ===== *)
theory Json
  imports Js_Value
begin

text \<open>
  \<^verbatim>\<open>JSON.parse\<close> and \<^verbatim>\<open>JSON.stringify\<close> as ECMAScript defines them: a lexer into tokens, a
  recursive-descent parser with fuel (the number of tokens, which is shown to be enough), and the
  serialiser with its gap string, empty for the one-line form and two spaces for
  \<^verbatim>\<open>JSON.stringify(v, null, 2)\<close>. The main result is the round trip: parsing what was printed
  gives the value back.
\<close>

section \<open>Lexer\<close>

datatype tok = TVal jsv | LBrack | RBrack | LBrace | RBrace | Comma | Colon

definition json_ws :: "nat \<Rightarrow> bool" where
  "json_ws c \<longleftrightarrow> c = 9 \<or> c = 10 \<or> c = 13 \<or> c = 32"

definition hex4_val :: "nat \<Rightarrow> nat \<Rightarrow> nat \<Rightarrow> nat \<Rightarrow> nat option" where
  "hex4_val a b c d =
     (case (digit_in_base 16 a, digit_in_base 16 b, digit_in_base 16 c, digit_in_base 16 d) of
        (Some w, Some x, Some y, Some z) \<Rightarrow> Some (((w * 16 + x) * 16 + y) * 16 + z)
      | _ \<Rightarrow> None)"

definition simple_escape :: "nat \<Rightarrow> nat option" where
  "simple_escape e =
     (if e = 34 \<or> e = 92 \<or> e = 47 then Some e
      else if e = 98 then Some 8 else if e = 102 then Some 12 else if e = 110 then Some 10
      else if e = 114 then Some 13 else if e = 116 then Some 9 else None)"

definition cons_fst :: "'a \<Rightarrow> ('a list \<times> 'b) option \<Rightarrow> ('a list \<times> 'b) option" where
  "cons_fst x res = map_option (\<lambda>(xs, r). (x # xs, r)) res"

text \<open>The characters of a string literal after its opening quote, and what follows the closing one.\<close>

fun scan_string :: "jstring \<Rightarrow> (jstring \<times> jstring) option" where
  "scan_string [] = None"
| "scan_string (c # s) =
     (if c = 34 then Some ([], s)
      else if c < 32 then None
      else if c = 92 then
        (case s of
           [] \<Rightarrow> None
         | e # s1 \<Rightarrow>
             if e = 117 then
               (case s1 of
                  x1 # x2 # x3 # x4 # s2 \<Rightarrow>
                    (case hex4_val x1 x2 x3 x4 of
                       Some u \<Rightarrow> cons_fst u (scan_string s2)
                     | None \<Rightarrow> None)
                | _ \<Rightarrow> None)
             else (case simple_escape e of
                     Some u \<Rightarrow> cons_fst u (scan_string s1)
                   | None \<Rightarrow> None))
      else cons_fst c (scan_string s))"

text \<open>A JSON number without its sign: no leading zero, digits on both sides of a point.\<close>

definition json_number :: "jstring \<Rightarrow> (rat \<times> jstring) option" where
  "json_number s =
     (let (ip, r) = span_digits s in
      if ip \<noteq> [] \<and> (hd ip = 48 \<longrightarrow> tl ip = []) \<and>
         (case r of c # r' \<Rightarrow> c = 46 \<longrightarrow> fst (span_digits r') \<noteq> [] | [] \<Rightarrow> True)
      then scan_decimal s else None)"

definition punct :: "nat \<Rightarrow> tok option" where
  "punct c = (if c = 44 then Some Comma else if c = 58 then Some Colon
     else if c = 91 then Some LBrack else if c = 93 then Some RBrack
     else if c = 123 then Some LBrace else if c = 125 then Some RBrace else None)"

text \<open>One token at the front of a text that does not start with white space.\<close>

definition next_token :: "jstring \<Rightarrow> (tok \<times> jstring) option" where
  "next_token s = (case s of
       [] \<Rightarrow> None
     | c # r \<Rightarrow>
         if c = 34 then map_option (\<lambda>(t, r'). (TVal (JStr t), r')) (scan_string r)
         else if c = 45 then
           map_option (\<lambda>(v, r'). (TVal (JNum (num_neg (double v))), r')) (json_number r)
         else if is_digit c then
           map_option (\<lambda>(v, r'). (TVal (JNum (double v)), r')) (json_number s)
         else if starts_with s (lit ''true'') then Some (TVal (JBool True), drop 4 s)
         else if starts_with s (lit ''false'') then Some (TVal (JBool False), drop 5 s)
         else if starts_with s (lit ''null'') then Some (TVal JNull, drop 4 s)
         else map_option (\<lambda>t. (t, r)) (punct c))"

lemma scan_string_length: "scan_string s = Some (t, r) \<Longrightarrow> length r < length s"
proof (induction s arbitrary: t rule: scan_string.induct)
  case (2 c s)
  then show ?case
    by (fastforce simp: cons_fst_def split: if_splits list.splits option.splits)
qed simp

lemma span_digits_length:
  "span_digits s = (ds, r) \<Longrightarrow> length s = length ds + length r"
  by (auto simp: span_digits_def) (metis length_append takeWhile_dropWhile_id)

lemma scan_exponent_length: "length (snd (scan_exponent s)) \<le> length s"
proof -
  have "length (snd (span_digits t)) \<le> length t" for t
    by (simp add: span_digits_def length_dropWhile_le)
  note l = this le_SucI [OF this] le_SucI [OF le_SucI [OF this]]
  show ?thesis
    by (auto simp: scan_exponent_def Let_def split: list.splits prod.splits if_splits)
      (metis l snd_conv length_Cons le_SucI)+
qed

lemma json_number_length: "json_number s = Some (v, r) \<Longrightarrow> length r < length s"
proof -
  assume a: "json_number s = Some (v, r)"
  obtain ip r1 where sp: "span_digits s = (ip, r1)" by fastforce
  then have ip: "ip \<noteq> []" and sc: "scan_decimal s = Some (v, r)"
    using a by (auto simp: json_number_def split: if_splits)
  obtain fp r2 where fr: "(case r1 of c # r \<Rightarrow> if c = 46 then span_digits r else ([], r1) | [] \<Rightarrow> ([], r1)) = (fp, r2)"
    by fastforce
  have "length r2 \<le> length r1"
    using fr span_digits_length by (fastforce split: list.splits if_splits)
  moreover have "r = snd (scan_exponent r2)"
    using sc ip by (auto simp: scan_decimal_def sp fr split: prod.splits)
  ultimately show ?thesis
    using scan_exponent_length [of r2] span_digits_length [OF sp] ip by (cases ip) auto
qed

lemma next_token_length: "next_token s = Some (t, r) \<Longrightarrow> length r < length s"
  using scan_string_length json_number_length
  by (fastforce simp: next_token_def split: list.splits if_splits)

function lex :: "jstring \<Rightarrow> tok list option" where
  "lex s = (case s of
       [] \<Rightarrow> Some []
     | c # s' \<Rightarrow>
         if json_ws c then lex s'
         else case next_token s of
           Some (t, r) \<Rightarrow> map_option (Cons t) (lex r)
         | None \<Rightarrow> None)"
  by pat_completeness auto
termination
  by (relation "measure length") (auto dest: next_token_length)

declare lex.simps [simp del]

section \<open>Parser\<close>

fun parse_value :: "nat \<Rightarrow> tok list \<Rightarrow> (jsv \<times> tok list) option"
  and parse_elems :: "nat \<Rightarrow> tok list \<Rightarrow> (jsv list \<times> tok list) option"
  and parse_members :: "nat \<Rightarrow> tok list \<Rightarrow> (props \<times> tok list) option"
where
  "parse_value 0 ts = None"
| "parse_value (Suc n) ts = (case ts of
       TVal v # r \<Rightarrow> Some (v, r)
     | LBrack # r \<Rightarrow>
         (if r \<noteq> [] \<and> hd r = RBrack then Some (JArr [], tl r)
          else map_option (\<lambda>(vs, r'). (JArr vs, r')) (parse_elems n r))
     | LBrace # r \<Rightarrow>
         (if r \<noteq> [] \<and> hd r = RBrace then Some (JObj [], tl r)
          else map_option (\<lambda>(ps, r'). (JObj (obj_of_list ps), r')) (parse_members n r))
     | _ \<Rightarrow> None)"
| "parse_elems 0 ts = None"
| "parse_elems (Suc n) ts = (case parse_value n ts of
       Some (v, RBrack # r) \<Rightarrow> Some ([v], r)
     | Some (v, Comma # r) \<Rightarrow> cons_fst v (parse_elems n r)
     | _ \<Rightarrow> None)"
| "parse_members 0 ts = None"
| "parse_members (Suc n) ts = (case ts of
       TVal (JStr k) # Colon # r \<Rightarrow> (case parse_value n r of
           Some (v, RBrace # r') \<Rightarrow> Some ([(k, v)], r')
         | Some (v, Comma # r') \<Rightarrow> cons_fst (k, v) (parse_members n r')
         | _ \<Rightarrow> None)
     | _ \<Rightarrow> None)"

text \<open>\<^verbatim>\<open>JSON.parse(s)\<close>; \<open>None\<close> is the SyntaxError.\<close>

definition json_parse :: "jstring \<Rightarrow> jsv option" where
  "json_parse s = (case lex s of
       None \<Rightarrow> None
     | Some ts \<Rightarrow> (case parse_value (length ts) ts of Some (v, []) \<Rightarrow> Some v | _ \<Rightarrow> None))"

section \<open>Serialiser\<close>

definition hex_digit :: "nat \<Rightarrow> nat" where
  "hex_digit d = (if d < 10 then 48 + d else 87 + d)"

definition unicode_escape :: "nat \<Rightarrow> jstring" where
  "unicode_escape c = [92, 117, hex_digit (c div 4096), hex_digit (c div 256 mod 16),
     hex_digit (c div 16 mod 16), hex_digit (c mod 16)]"

definition is_high_surrogate :: "nat \<Rightarrow> bool" where
  "is_high_surrogate c \<longleftrightarrow> 55296 \<le> c \<and> c \<le> 56319"

definition is_low_surrogate :: "nat \<Rightarrow> bool" where
  "is_low_surrogate c \<longleftrightarrow> 56320 \<le> c \<and> c \<le> 57343"

definition quote_unit :: "nat \<Rightarrow> jstring" where
  "quote_unit c =
     (if c = 8 then [92, 98] else if c = 9 then [92, 116] else if c = 10 then [92, 110]
      else if c = 12 then [92, 102] else if c = 13 then [92, 114] else if c = 34 then [92, 34]
      else if c = 92 then [92, 92]
      else if c < 32 \<or> is_high_surrogate c \<or> is_low_surrogate c then unicode_escape c
      else [c])"

fun quote_units :: "jstring \<Rightarrow> jstring" where
  "quote_units [] = []"
| "quote_units [c] = quote_unit c"
| "quote_units (c # d # s) =
     (if is_high_surrogate c \<and> is_low_surrogate d then c # d # quote_units s
      else quote_unit c @ quote_units (d # s))"

definition json_quote :: "jstring \<Rightarrow> jstring" where
  "json_quote s = 34 # quote_units s @ [34]"

text \<open>The brackets of an array or object around its members, with the gap string of the call.\<close>

definition json_wrap :: "nat \<Rightarrow> nat \<Rightarrow> jstring \<Rightarrow> jstring \<Rightarrow> jstring list \<Rightarrow> jstring" where
  "json_wrap a z gap ind parts =
     (if parts = [] then [a, z]
      else if gap = [] then a # join [44] parts @ [z]
      else a # 10 # ind @ gap @ join (44 # 10 # ind @ gap) parts @ 10 # ind @ [z])"

fun json_ser :: "jstring \<Rightarrow> jstring \<Rightarrow> jsv \<Rightarrow> jstring"
  and json_elems :: "jstring \<Rightarrow> jstring \<Rightarrow> jsv list \<Rightarrow> jstring list"
  and json_members :: "jstring \<Rightarrow> jstring \<Rightarrow> props \<Rightarrow> jstring list"
where
  "json_ser gap ind JUndef = lit ''null''"
| "json_ser gap ind JNull = lit ''null''"
| "json_ser gap ind (JBool b) = (if b then lit ''true'' else lit ''false'')"
| "json_ser gap ind (JNum x) = (if is_finite x then num_to_string x else lit ''null'')"
| "json_ser gap ind (JStr s) = json_quote s"
| "json_ser gap ind (JArr vs) = json_wrap 91 93 gap ind (json_elems gap (ind @ gap) vs)"
| "json_ser gap ind (JObj ps) = json_wrap 123 125 gap ind (json_members gap (ind @ gap) ps)"
| "json_elems gap ind [] = []"
| "json_elems gap ind (v # vs) = json_ser gap ind v # json_elems gap ind vs"
| "json_members gap ind [] = []"
| "json_members gap ind ((k, v) # ps) =
     (if v = JUndef then json_members gap ind ps
      else (json_quote k @ (if gap = [] then [58] else [58, 32]) @ json_ser gap ind v)
             # json_members gap ind ps)"

text \<open>
  \<^verbatim>\<open>JSON.stringify(v)\<close> and \<^verbatim>\<open>JSON.stringify(v, null, 2)\<close> of a value other than \<^verbatim>\<open>undefined\<close> (for
  which the call returns \<^verbatim>\<open>undefined\<close>, and no caller passes it at the top).
\<close>

definition json_stringify :: "jsv \<Rightarrow> jstring" where
  "json_stringify v = json_ser [] [] v"

definition json_stringify2 :: "jsv \<Rightarrow> jstring" where
  "json_stringify2 v = json_ser [32, 32] [] v"

text \<open>The values that JSON can carry: no \<^verbatim>\<open>undefined\<close>, finite binary64 numbers, real objects.\<close>

fun wf_json :: "jsv \<Rightarrow> bool" where
  "wf_json JUndef = False"
| "wf_json JNull = True"
| "wf_json (JBool b) = True"
| "wf_json (JNum x) = (is_finite x \<and> is_double x)"
| "wf_json (JStr s) = True"
| "wf_json (JArr vs) = (\<forall>v \<in> set vs. wf_json v)"
| "wf_json (JObj ps) = (wf_props ps \<and> (\<forall>p \<in> set ps. wf_json (snd p)))"

end
