(* ===== verification/Json_Facts.thy ===== *)
theory Json_Facts
  imports Json
begin

text \<open>
  What the JSON model satisfies: the parser's fuel is enough, a string literal reads back the
  units it was quoted from, a printed number is a JSON number, and parsing undoes printing in the
  one-line and in the indented form.
\<close>

section \<open>Fuel\<close>

definition fuel_ok :: "(nat \<Rightarrow> ('a \<times> tok list) option) \<Rightarrow> tok list \<Rightarrow> 'a \<Rightarrow> tok list \<Rightarrow> bool" where
  "fuel_ok p ts v r \<longleftrightarrow> length r < length ts \<and> (\<forall>m \<ge> length ts - length r. p m = Some (v, r))"

lemma fuel_okI:
  assumes "length r < length ts" "\<And>m. length ts - length r \<le> Suc m \<Longrightarrow> p (Suc m) = Some (v, r)"
  shows "fuel_ok p ts v r"
  unfolding fuel_ok_def
proof (intro conjI allI impI)
  fix m assume "length ts - length r \<le> m"
  moreover from this assms(1) obtain k where "m = Suc k" by (cases m) auto
  ultimately show "p m = Some (v, r)" using assms(2) by simp
qed (rule assms(1))

text \<open>A parse that succeeds with some fuel succeeds with one unit per consumed token.\<close>

lemma parse_fuel:
  "parse_value n ts = Some (v, r) \<Longrightarrow> fuel_ok (\<lambda>m. parse_value m ts) ts v r"
  "parse_elems n ts = Some (vs, r) \<Longrightarrow> fuel_ok (\<lambda>m. parse_elems m ts) ts vs r"
  "parse_members n ts = Some (ps, r) \<Longrightarrow> fuel_ok (\<lambda>m. parse_members m ts) ts ps r"
proof (induction n ts and n ts and n ts arbitrary: v r and vs r and ps r
    rule: parse_value_parse_elems_parse_members.induct)
  case (2 n ts)
  from "2.prems" consider (scalar) x where "ts = TVal x # r" "v = x"
    | (earr) s where "ts = LBrack # s" "s \<noteq> [] \<and> hd s = RBrack" "r = tl s" "v = JArr []"
    | (arr) s ws where "ts = LBrack # s" "parse_elems n s = Some (ws, r)" "v = JArr ws"
        "\<not> (s \<noteq> [] \<and> hd s = RBrack)"
    | (eobj) s where "ts = LBrace # s" "s \<noteq> [] \<and> hd s = RBrace" "r = tl s" "v = JObj []"
    | (obj) s qs where "ts = LBrace # s" "parse_members n s = Some (qs, r)" "v = JObj (obj_of_list qs)"
        "\<not> (s \<noteq> [] \<and> hd s = RBrace)"
    by (simp split: list.splits tok.splits if_splits) blast+
  then show ?case
  proof cases
    case arr
    then have "fuel_ok (\<lambda>m. parse_elems m s) s ws r"
      by (intro "2.IH"(1)) simp_all
    with arr show ?thesis
      by (intro fuel_okI) (auto simp: fuel_ok_def)
  next
    case obj
    then have "fuel_ok (\<lambda>m. parse_members m s) s qs r"
      by (intro "2.IH"(2)) simp_all
    with obj show ?thesis
      by (intro fuel_okI) (auto simp: fuel_ok_def)
  qed (auto intro!: fuel_okI)
next
  case (4 n ts)
  from "4.prems" consider (stop) v where "parse_value n ts = Some (v, RBrack # r)" "vs = [v]"
    | (more) v s ws where "parse_value n ts = Some (v, Comma # s)" "parse_elems n s = Some (ws, r)" "vs = v # ws"
    by (fastforce simp: cons_fst_def split: option.splits list.splits tok.splits)
  then show ?case
    by cases (use "4.IH" in \<open>fastforce intro!: fuel_okI simp: fuel_ok_def cons_fst_def\<close>)+
next
  case (6 n ts)
  from "6.prems" consider
      (stop) k s v where "ts = TVal (JStr k) # Colon # s" "parse_value n s = Some (v, RBrace # r)" "ps = [(k, v)]"
    | (more) k s v s' qs where "ts = TVal (JStr k) # Colon # s" "parse_value n s = Some (v, Comma # s')"
        "parse_members n s' = Some (qs, r)" "ps = (k, v) # qs"
    by (fastforce simp: cons_fst_def split: option.splits list.splits tok.splits jsv.splits)
  then show ?case
    by cases (use "6.IH" in \<open>fastforce intro!: fuel_okI simp: fuel_ok_def cons_fst_def\<close>)+
qed simp_all

text \<open>So \<open>json_parse\<close> never fails for want of fuel.\<close>

lemma json_parse_fuel:
  assumes "lex s = Some ts" "parse_value n ts = Some (v, [])"
  shows "json_parse s = Some v"
  using parse_fuel(1) [OF assms(2)] assms(1) by (simp add: json_parse_def fuel_ok_def)

section \<open>Strings\<close>

lemma digit_in_base_hex [simp]: "d < 16 \<Longrightarrow> digit_in_base 16 (hex_digit d) = Some d"
  by (auto simp: digit_in_base_def hex_digit_def is_digit_def)

lemma hex4_val_escape:
  assumes "c < 65536"
  shows "hex4_val (hex_digit (c div 4096)) (hex_digit (c div 256 mod 16))
    (hex_digit (c div 16 mod 16)) (hex_digit (c mod 16)) = Some c"
proof -
  have "c div 4096 < 16" using assms by simp
  moreover have "((c div 4096 * 16 + c div 256 mod 16) * 16 + c div 16 mod 16) * 16 + c mod 16 = c"
  proof -
    have "c div 4096 = c div 256 div 16" "c div 256 = c div 16 div 16" by (simp_all add: div_mult2_eq [symmetric])
    then show ?thesis by (simp only: div_mult_mod_eq)
  qed
  ultimately show ?thesis by (simp add: hex4_val_def)
qed

lemma scan_unicode_escape:
  "c < 65536 \<Longrightarrow> scan_string (unicode_escape c @ t) = cons_fst c (scan_string t)"
  by (simp add: unicode_escape_def hex4_val_escape)

lemma scan_quote_unit: "scan_string (quote_unit c @ t) = cons_fst c (scan_string t)"
proof (cases "c < 32 \<or> is_high_surrogate c \<or> is_low_surrogate c")
  case True
  then have "c < 65536" by (auto simp: is_high_surrogate_def is_low_surrogate_def)
  then show ?thesis
    unfolding quote_unit_def using True
    by (simp add: scan_unicode_escape simple_escape_def)
next
  case False
  then show ?thesis by (simp add: quote_unit_def simple_escape_def)
qed

lemma scan_quote_units: "scan_string (quote_units s @ 34 # r) = Some (s, r)"
proof (induction s rule: quote_units.induct)
  case (3 c d s)
  then show ?case
    by (auto simp: scan_quote_unit cons_fst_def is_high_surrogate_def is_low_surrogate_def)
qed (simp_all add: scan_quote_unit cons_fst_def)

section \<open>Numbers\<close>

lemma show_nat_lead: "0 < s \<Longrightarrow> hd (show_nat s) \<noteq> 48"
proof (cases "s < 10")
  case True
  assume "0 < s"
  with True show ?thesis by (simp add: show_nat.simps [of s])
qed (simp add: hd_show_nat)

lemma json_number_int:
  assumes "all_digits ds" "hd ds \<noteq> 48 \<or> tl ds = []"
    "t = [] \<or> \<not> is_digit (hd t) \<and> hd t \<noteq> 46"
  shows "json_number (ds @ t) = scan_decimal (ds @ t)"
proof -
  have "span_digits (ds @ t) = (ds, t)" using assms by (intro span_digits_append) (auto simp: all_digits_def)
  then show ?thesis using assms by (auto simp: json_number_def all_digits_def split: list.splits)
qed

lemma json_number_point:
  assumes "all_digits ip" "hd ip \<noteq> 48 \<or> tl ip = []" "all_digits fp"
  shows "json_number (ip @ 46 # fp @ t) = scan_decimal (ip @ 46 # fp @ t)"
proof -
  have "span_digits (ip @ 46 # fp @ t) = (ip, 46 # fp @ t)"
    using assms by (intro span_digits_append) (auto simp: all_digits_def is_digit_def)
  moreover have "fst (span_digits (fp @ t)) \<noteq> []"
    using assms by (cases fp) (auto simp: span_digits_def all_digits_def)
  ultimately show ?thesis using assms by (auto simp: json_number_def all_digits_def)
qed

text \<open>What \<^verbatim>\<open>String(x)\<close> prints for a positive number is a JSON number.\<close>

lemma json_number_layout:
  assumes ds: "all_digits ds" "hd ds \<noteq> 48" and r: "number_ends r"
  shows "json_number (layout_number ds n @ r) = scan_decimal (layout_number ds n @ r)"
proof -
  have ne: "ds \<noteq> []" using ds by (simp add: all_digits_def)
  have r': "r = [] \<or> \<not> is_digit (hd r) \<and> hd r \<noteq> 46" using r by (auto simp: number_ends_def)
  consider (int) "int (length ds) \<le> n \<and> n \<le> 21" | (pt) "n < int (length ds) \<and> 0 < n \<and> n \<le> 21"
    | (small) "- 6 < n \<and> n \<le> 0" | (ex) "n \<le> - 6 \<or> 21 < n" by linarith
  then show ?thesis
  proof cases
    case int
    have "all_digits (ds @ replicate (nat (n - int (length ds))) 48)"
      using ds by (auto simp: all_digits_def is_digit_def)
    from json_number_int [OF this _ r'] ne ds int show ?thesis by (simp add: layout_number_def)
  next
    case pt
    have "all_digits (take (nat n) ds)" "all_digits (drop (nat n) ds)"
      using pt ds by (auto simp: all_digits_def dest: in_set_takeD in_set_dropD)
    from json_number_point [OF this(1) _ this(2), of r] pt ds ne show ?thesis
      by (simp add: layout_number_def hd_take)
  next
    case small
    have "all_digits [48]" "all_digits (replicate (nat (- n)) 48 @ ds)"
      using ds by (auto simp: all_digits_def is_digit_def)
    from json_number_point [OF this(1) _ this(2), of r] small ne show ?thesis
      by (cases ds) (simp_all add: layout_number_def Let_def)
  next
    case ex
    define es where "es = 101 # (if n - 1 < 0 then 45 else 43) # show_nat (nat \<bar>n - 1\<bar>) @ r"
    have es: "es = [] \<or> \<not> is_digit (hd es) \<and> hd es \<noteq> 46" by (simp add: es_def is_digit_def)
    show ?thesis
    proof (cases "length ds = 1")
      case True
      then have "layout_number ds n @ r = ds @ es"
        using ex by (auto simp: layout_number_def Let_def es_def)
      with json_number_int [OF ds(1) _ es] ds show ?thesis by simp
    next
      case False
      then have lay: "layout_number ds n @ r = [hd ds] @ 46 # tl ds @ es"
        using ex ne by (auto simp: layout_number_def Let_def es_def)
      have "all_digits [hd ds]" "all_digits (tl ds)"
        using ds ne False by (cases ds; auto simp: all_digits_def)+
      from json_number_point [OF this(1) _ this(2)] show ?thesis unfolding lay by simp
    qed
  qed
qed

lemma json_number_positive:
  assumes x: "double x = Fin x" "0 < x" and r: "number_ends r"
  shows "\<exists>v. json_number (positive_to_string x @ r) = Some (v, r) \<and> double v = Fin x"
proof -
  obtain s n where sn: "shortest x = Some (s, n)" using shortest_total x by blast
  have "reads_back x s (n - int (length (show_nat s)))" by (rule shortest_Some [OF x(2) sn])
  then have "0 < s" using x(2) by (cases s) (auto simp: reads_back_def double_def)
  then have "json_number (positive_to_string x @ r) = scan_decimal (positive_to_string x @ r)"
    using json_number_layout [OF all_digits_show_nat show_nat_lead r] sn
    by (simp add: positive_to_string_def)
  with scan_positive [OF x r] show ?thesis by simp
qed

section \<open>Lexing what was printed\<close>

fun toks :: "jsv \<Rightarrow> tok list" and toks_elems :: "jsv list \<Rightarrow> tok list list"
  and toks_members :: "props \<Rightarrow> tok list list"
where
  "toks (JArr vs) = LBrack # join [Comma] (toks_elems vs) @ [RBrack]"
| "toks (JObj ps) = LBrace # join [Comma] (toks_members ps) @ [RBrace]"
| "toks v = [TVal v]"
| "toks_elems [] = []"
| "toks_elems (v # vs) = toks v # toks_elems vs"
| "toks_members [] = []"
| "toks_members ((k, v) # ps) = (TVal (JStr k) # Colon # toks v) # toks_members ps"

lemma lex_Nil [simp]: "lex [] = Some []"
  by (simp add: lex.simps [of "[]"])

lemma lex_ws: "\<forall>c \<in> set w. json_ws c \<Longrightarrow> lex (w @ r) = lex r"
proof (induction w)
  case (Cons c w)
  then show ?case by (simp add: lex.simps [of "c # w @ r"])
qed simp

lemma lex_token:
  "next_token (c # s) = Some (t, r) \<Longrightarrow> \<not> json_ws c \<Longrightarrow> lex (c # s) = map_option (Cons t) (lex r)"
  by (simp add: lex.simps [of "c # s"])

lemma lex_punct: "punct c = Some t \<Longrightarrow> lex (c # r) = map_option (Cons t) (lex r)"
  by (rule lex_token)
    (auto simp: next_token_def punct_def is_digit_def starts_with_def lit_def json_ws_def split: if_splits)

lemmas lex_puncts =
  lex_punct [of 44 Comma, simplified punct_def, simplified] lex_punct [of 58 Colon, simplified punct_def, simplified]
  lex_punct [of 91 LBrack, simplified punct_def, simplified] lex_punct [of 93 RBrack, simplified punct_def, simplified]
  lex_punct [of 123 LBrace, simplified punct_def, simplified] lex_punct [of 125 RBrace, simplified punct_def, simplified]

lemma lex_quote: "lex (json_quote s @ r) = map_option (Cons (TVal (JStr s))) (lex r)"
  using lex_token [of 34 "quote_units s @ 34 # r"]
  by (simp add: json_quote_def next_token_def json_ws_def scan_quote_units)

lemma lex_words:
  "lex (lit ''true'' @ r) = map_option (Cons (TVal (JBool True))) (lex r)"
  "lex (lit ''false'' @ r) = map_option (Cons (TVal (JBool False))) (lex r)"
  "lex (lit ''null'' @ r) = map_option (Cons (TVal JNull)) (lex r)"
  unfolding lit_def list.map append_Cons append_Nil
  by (rule lex_token; simp add: next_token_def json_ws_def starts_with_def lit_def is_digit_def)+

lemma lex_positive:
  assumes x: "double x = Fin x" "0 < x" and r: "number_ends r"
  shows "lex (positive_to_string x @ r) = map_option (Cons (TVal (JNum (Fin x)))) (lex r)"
    and "lex (45 # positive_to_string x @ r) = map_option (Cons (TVal (JNum (Fin (- x))))) (lex r)"
proof -
  note u = positive_to_string_units [OF x]
  obtain v where v: "json_number (positive_to_string x @ r) = Some (v, r)" "double v = Fin x"
    using json_number_positive [OF assms] by blast
  obtain d ds where d: "positive_to_string x = d # ds" "is_digit d"
    using u(1,2) by (cases "positive_to_string x") auto
  have "d \<noteq> 34 \<and> d \<noteq> 45 \<and> \<not> json_ws d" using d(2) by (auto simp: is_digit_def json_ws_def)
  then show "lex (positive_to_string x @ r) = map_option (Cons (TVal (JNum (Fin x)))) (lex r)"
    using lex_token [of d "ds @ r"] v d by (simp add: next_token_def)
  show "lex (45 # positive_to_string x @ r) = map_option (Cons (TVal (JNum (Fin (- x))))) (lex r)"
    using lex_token [of 45 "positive_to_string x @ r"] v by (simp add: next_token_def json_ws_def)
qed

lemma lex_zero: "number_ends r \<Longrightarrow> lex (48 # r) = map_option (Cons (TVal (JNum (Fin 0)))) (lex r)"
proof -
  assume r: "number_ends r"
  have d: "all_digits [48]" by (simp add: all_digits_def is_digit_def)
  have "json_number ([48] @ r) = scan_decimal ([48] @ r)"
    by (rule json_number_int [OF d]) (use r in \<open>auto simp: number_ends_def\<close>)
  with scan_decimal_plain [OF d r] have "json_number (48 # r) = Some (0, r)"
    by (simp add: digits_val_def)
  then show ?thesis
    using lex_token [of 48 r] by (simp add: next_token_def json_ws_def is_digit_def double_def)
qed

lemma lex_number:
  assumes "is_finite x" "is_double x" "number_ends r"
  shows "lex (num_to_string x @ r) = map_option (Cons (TVal (JNum x))) (lex r)"
proof (cases x)
  case (Fin q)
  then have d: "double q = Fin q" using assms by (simp add: is_double_def)
  consider "q = 0" | "0 < q" | "q < 0" by linarith
  then show ?thesis
  proof cases
    case 3
    with lex_positive(2) [of "- q" r] double_neg [OF d] assms(3) show ?thesis
      by (simp add: Fin num_to_string.simps)
  qed (use lex_positive(1) [OF d] lex_zero assms(3) in \<open>simp_all add: Fin num_to_string.simps\<close>)
qed (use assms in simp_all)

abbreviation all_ws :: "jstring \<Rightarrow> bool" where
  "all_ws w \<equiv> \<forall>c \<in> set w. json_ws c"

lemma number_ends_puncts [simp]:
  "number_ends (44 # r)" "number_ends (93 # r)" "number_ends (125 # r)" "number_ends (10 # r)"
  by (simp_all add: number_ends_def is_digit_def)

lemma lex_wrap:
  assumes "all_ws gap" "all_ws ind" "punct a = Some ta" "punct z = Some tz" "number_ends (z # r)"
    and parts: "\<And>w r. all_ws w \<Longrightarrow> number_ends r \<Longrightarrow>
      lex (join (44 # w) parts @ r) = map_option (append ts) (lex r)"
    and "parts = [] \<Longrightarrow> ts = []"
  shows "lex (json_wrap a z gap ind parts @ r) = map_option (\<lambda>u. ta # ts @ tz # u) (lex r)"
proof -
  note lx = lex_punct [OF assms(3)] lex_punct [OF assms(4)]
  have p1: "lex (join [44] parts @ z # r) = map_option (append ts) (lex (z # r))"
    using parts [of "[]" "z # r"] assms(5) by simp
  have p2: "lex (join (44 # 10 # ind @ gap) parts @ 10 # ind @ z # r) = map_option (append ts) (lex (z # r))"
    using parts [of "10 # ind @ gap" "10 # ind @ z # r"] assms(1,2) lex_ws [of "10 # ind" "z # r"]
    by (auto simp: json_ws_def)
  have p3: "lex (10 # ind @ gap @ s) = lex s" for s
    using lex_ws [of "10 # ind @ gap" s] assms(1,2) by (auto simp: json_ws_def)
  show ?thesis
    using assms(7) by (auto simp: json_wrap_def lx p1 p2 p3 option.map_comp comp_def)
qed

lemma lex_join_Cons:
  assumes "\<And>r. number_ends r \<Longrightarrow> lex (x @ r) = map_option (append t) (lex r)"
    and "lex (join (44 # w) xs @ r) = map_option (append (join [Comma] ts)) (lex r)"
    and "xs = [] \<longleftrightarrow> ts = []" "all_ws w" "number_ends r"
  shows "lex (join (44 # w) (x # xs) @ r) = map_option (append (join [Comma] (t # ts))) (lex r)"
  using assms by (cases xs; cases ts; cases "lex r") (simp_all add: lex_puncts lex_ws)

lemma append_funs: "append [x] = Cons x" "append [] = (\<lambda>u. u)"
  by auto

lemma lex_json_ser:
  "wf_json v \<Longrightarrow> all_ws gap \<Longrightarrow> all_ws ind \<Longrightarrow> number_ends r \<Longrightarrow>
     lex (json_ser gap ind v @ r) = map_option (append (toks v)) (lex r)"
  "\<forall>v \<in> set vs. wf_json v \<Longrightarrow> all_ws gap \<Longrightarrow> all_ws ind \<Longrightarrow> all_ws w \<Longrightarrow> number_ends r \<Longrightarrow>
     lex (join (44 # w) (json_elems gap ind vs) @ r) = map_option (append (join [Comma] (toks_elems vs))) (lex r)"
  "\<forall>p \<in> set ps. wf_json (snd p) \<Longrightarrow> all_ws gap \<Longrightarrow> all_ws ind \<Longrightarrow> all_ws w \<Longrightarrow> number_ends r \<Longrightarrow>
     lex (join (44 # w) (json_members gap ind ps) @ r) = map_option (append (join [Comma] (toks_members ps))) (lex r)"
proof (induction gap ind v and gap ind vs and gap ind ps arbitrary: r and w r and w r
    rule: json_ser_json_elems_json_members.induct)
  case (6 gap ind vs)
  have "lex (json_wrap 91 93 gap ind (json_elems gap (ind @ gap) vs) @ r) =
      map_option (\<lambda>u. LBrack # join [Comma] (toks_elems vs) @ RBrack # u) (lex r)"
  proof (rule lex_wrap)
    show "json_elems gap (ind @ gap) vs = [] \<Longrightarrow> join [Comma] (toks_elems vs) = []" by (cases vs) auto
  qed (use 6 in \<open>auto simp: punct_def ball_Un\<close>)
  then show ?case by (simp add: comp_def)
next
  case (7 gap ind ps)
  have "lex (json_wrap 123 125 gap ind (json_members gap (ind @ gap) ps) @ r) =
      map_option (\<lambda>u. LBrace # join [Comma] (toks_members ps) @ RBrace # u) (lex r)"
  proof (rule lex_wrap)
    show "json_members gap (ind @ gap) ps = [] \<Longrightarrow> join [Comma] (toks_members ps) = []"
      using "7.prems"(1) by (cases ps) (auto split: if_splits)
  qed (use 7 in \<open>auto simp: punct_def ball_Un\<close>)
  then show ?case by (simp add: comp_def)
next
  case (9 gap ind v vs)
  have "json_elems gap ind vs = [] \<longleftrightarrow> toks_elems vs = []" by (cases vs) auto
  with 9 show ?case unfolding json_elems.simps toks_elems.simps by (intro lex_join_Cons) simp_all
next
  case (11 gap ind k v ps)
  have v: "wf_json v" "v \<noteq> JUndef" using "11.prems" by auto
  let ?x = "json_quote k @ (if gap = [] then [58] else [58, 32]) @ json_ser gap ind v"
  have sp: "lex (32 # s) = lex s" for s using lex_ws [of "[32]" s] by (simp add: json_ws_def)
  have x: "lex (?x @ r) = map_option (append (TVal (JStr k) # Colon # toks v)) (lex r)" if "number_ends r" for r
    using "11.IH"(2) [of r] "11.prems"(2,3) v that
    by (cases "lex r") (auto simp: lex_quote lex_puncts sp)
  have "json_members gap ind ps = [] \<longleftrightarrow> toks_members ps = []"
    using "11.prems"(1) by (cases ps) (auto split: if_splits)
  with x 11 v show ?case
    unfolding toks_members.simps json_members.simps if_not_P [OF v(2)] by (intro lex_join_Cons) simp_all
qed (simp_all add: lex_words lex_quote lex_number append_funs option.map_ident)

section \<open>Parsing the tokens of a value\<close>

lemma toks_hd: "toks v \<noteq> [] \<and> hd (toks v) \<noteq> RBrack \<and> hd (toks v) \<noteq> RBrace"
  by (cases v) auto

lemma parse_toks:
  "wf_json v \<Longrightarrow> length (toks v) \<le> m \<Longrightarrow> parse_value m (toks v @ r) = Some (v, r)"
  "vs \<noteq> [] \<Longrightarrow> \<forall>v \<in> set vs. wf_json v \<Longrightarrow> length (join [Comma] (toks_elems vs)) < m \<Longrightarrow>
     parse_elems m (join [Comma] (toks_elems vs) @ RBrack # r) = Some (vs, r)"
  "ps \<noteq> [] \<Longrightarrow> \<forall>p \<in> set ps. wf_json (snd p) \<Longrightarrow> length (join [Comma] (toks_members ps)) < m \<Longrightarrow>
     parse_members m (join [Comma] (toks_members ps) @ RBrace # r) = Some (ps, r)"
proof (induction v and vs and ps arbitrary: m r and m r and m r rule: toks_toks_elems_toks_members.induct)
  case (1 vs)
  then obtain n where m: "m = Suc n" by (cases m) auto
  show ?case
  proof (cases vs)
    case Nil
    then show ?thesis by (simp add: m)
  next
    case (Cons v ws)
    then have "hd (join [Comma] (toks_elems vs) @ RBrack # r) \<noteq> RBrack"
      using toks_hd [of v] by (cases ws) auto
    with 1 Cons show ?thesis by (simp add: m)
  qed
next
  case (2 ps)
  then obtain n where m: "m = Suc n" by (cases m) auto
  show ?case
  proof (cases ps)
    case Nil
    then show ?thesis by (simp add: m)
  next
    case (Cons p qs)
    then have "hd (join [Comma] (toks_members ps) @ RBrace # r) \<noteq> RBrace"
      by (cases p; cases qs) auto
    with 2 Cons show ?thesis by (simp add: m)
  qed
next
  case (5 v vs)
  then obtain n where m: "m = Suc n" by (cases m) auto
  have "toks_elems vs = [] \<longleftrightarrow> vs = []" by (cases vs) auto
  with 5 show ?case by (cases "vs = []") (auto simp: m join_Cons cons_fst_def)
next
  case (7 k v ps)
  then obtain n where m: "m = Suc n" by (cases m) auto
  have "toks_members ps = [] \<longleftrightarrow> ps = []" by (cases ps) auto
  with 7 show ?case by (cases "ps = []") (auto simp: m join_Cons cons_fst_def)
qed (use Suc_le_D in fastforce)+

section \<open>The round trip\<close>

lemma json_parse_ser: "wf_json v \<Longrightarrow> all_ws gap \<Longrightarrow> json_parse (json_ser gap [] v) = Some v"
  using lex_json_ser(1) [of v gap "[]" "[]"] parse_toks(1) [of v _ "[]"]
  by (simp add: json_parse_def)

lemma json_parse_stringify [simp]: "wf_json v \<Longrightarrow> json_parse (json_stringify v) = Some v"
  by (simp add: json_stringify_def json_parse_ser)

lemma json_parse_stringify2 [simp]: "wf_json v \<Longrightarrow> json_parse (json_stringify2 v) = Some v"
  by (simp add: json_stringify2_def json_parse_ser json_ws_def)

section \<open>Blank texts\<close>

lemma next_token_ws:
  assumes "is_ws c"
  shows "next_token (c # s) = None"
proof -
  have "c \<noteq> 34" "c \<noteq> 45" "\<not> is_digit c" "c \<noteq> 116" "c \<noteq> 102" "c \<noteq> 110" "punct c = None"
    using assms is_ws_not_digit [of c] by (auto simp: is_ws_def ws_units_def punct_def)
  then show ?thesis by (simp add: next_token_def starts_with_def lit_def)
qed

lemma lex_blank: "\<forall>c \<in> set s. is_ws c \<Longrightarrow> lex s = None \<or> lex s = Some []"
proof (induction s)
  case (Cons c s)
  then show ?case by (simp add: lex.simps [of "c # s"] next_token_ws)
qed simp

lemma json_parse_blank: "trim s = [] \<Longrightarrow> json_parse s = None"
  using lex_blank [of s] by (auto simp: trim_eq_Nil json_parse_def)

section \<open>Objects that are JSON values\<close>

definition all_json :: "props \<Rightarrow> bool" where
  "all_json ps \<longleftrightarrow> (\<forall>p \<in> set ps. wf_json (snd p))"

lemma set_obj_replace: "set (obj_replace k v ps) \<subseteq> insert (k, v) (set ps)"
  by (induction ps) auto

lemma all_json_obj_set: "all_json ps \<Longrightarrow> wf_json v \<Longrightarrow> all_json (obj_set k v ps)"
  using set_obj_replace [of k v ps] by (auto simp: all_json_def obj_set_def set_obj_insert)

lemma all_json_simps [simp]: "all_json []" "all_json (p # ps) \<longleftrightarrow> wf_json (snd p) \<and> all_json ps"
  by (auto simp: all_json_def)

lemma wf_json_JObj [simp]: "wf_json (JObj ps) \<longleftrightarrow> wf_props ps \<and> all_json ps"
  by (simp add: all_json_def)

declare wf_json.simps(7) [simp del]

lemma all_json_obj_of_list: "all_json qs \<Longrightarrow> all_json (obj_of_list qs)"
proof -
  have "all_json qs \<Longrightarrow> all_json ps \<Longrightarrow> all_json (obj_assign ps qs)" for ps
  proof (induction qs arbitrary: ps)
    case (Cons q qs)
    then show ?case by (cases q) (simp add: obj_assign_def all_json_obj_set)
  qed (simp add: obj_assign_def)
  then show "all_json qs \<Longrightarrow> all_json (obj_of_list qs)" by (simp add: obj_of_list_def)
qed

lemma wf_props_single [simp]: "wf_props [p]"
  by (simp add: wf_props_def)

lemma obj_get_of_list: "obj_get k (obj_of_list qs) = (case map_of (rev qs) k of Some v \<Rightarrow> v | None \<Rightarrow> JUndef)"
  by (simp add: obj_get_def map_of_obj_of_list)

end
