(* ===== verification/Status_Rules.thy ===== *)
theory Status_Rules
  imports Json_Facts
begin

text \<open>
  The HTTP status code rules of the channel settings, \<^verbatim>\<open>web/src/helpers/statusCodeRules.js\<close>: a
  text such as \<^verbatim>\<open>401, 500-503\<close> is split into tokens, each token is a code or a range of codes, and
  the ranges are sorted and merged into a normal form that is printed back. Shown: the merged
  ranges cover the same codes and are separated, the normal form depends on the covered codes
  only, it parses back to itself, and a text with a bad token is refused as a whole.
\<close>

section \<open>Model\<close>

record code_range =
  range_start :: nat
  range_end :: nat

abbreviation mk_range :: "nat \<Rightarrow> nat \<Rightarrow> code_range" where
  "mk_range a b \<equiv> \<lparr>range_start = a, range_end = b\<rparr>"

record rules_result =
  rules_ok :: bool
  rules_ranges :: "code_range list"
  rules_tokens :: "jstring list"
  rules_normalized :: jstring
  rules_invalid :: "jstring list"

definition isNumber :: "jstring \<Rightarrow> bool" where
  "isNumber s = all_digits s"

text \<open>The whole number a finite number value stands for.\<close>

definition whole :: "jsnum \<Rightarrow> nat" where
  "whole x = (case x of Fin q \<Rightarrow> nat \<lfloor>q\<rfloor> | _ \<Rightarrow> 0)"

text \<open>The checks on the parsed numbers, of a range and of a single code.\<close>

definition checked_range :: "jsnum \<Rightarrow> jsnum \<Rightarrow> code_range option" where
  "checked_range start fin =
     (if \<not> is_finite start \<or> \<not> is_finite fin then None
      else if num_less fin start then None
      else if num_less start (num_of_nat 100) \<or> num_less (num_of_nat 599) fin then None
      else Some (mk_range (whole start) (whole fin)))"

definition checked_code :: "jsnum \<Rightarrow> code_range option" where
  "checked_code code =
     (if \<not> is_finite code then None
      else if num_less code (num_of_nat 100) \<or> num_less (num_of_nat 599) code then None
      else Some (mk_range (whole code) (whole code)))"

definition parseToken :: "jstring \<Rightarrow> code_range option" where
  "parseToken token =
     (let cleaned = replace_unit 32 [] (trim token) in
      if cleaned = [] then None
      else if includes_str cleaned [45] then
        (case split_on 45 cleaned of
           [a, b] \<Rightarrow>
             if \<not> isNumber a \<or> \<not> isNumber b then None
             else checked_range (parse_int a) (parse_int b)
         | _ \<Rightarrow> None)
      else if \<not> isNumber cleaned then None
      else checked_code (parse_int cleaned))"

text \<open>The comparator of the sort: \<open>range_le a b\<close> is \<^verbatim>\<open>cmp(a, b) <= 0\<close>.\<close>

definition range_le :: "code_range \<Rightarrow> code_range \<Rightarrow> bool" where
  "range_le a b =
     (if range_start a \<noteq> range_start b then range_start a \<le> range_start b
      else range_end a \<le> range_end b)"

text \<open>The loop of \<^verbatim>\<open>mergeRanges\<close>; the accumulator holds \<^verbatim>\<open>merged\<close> with its last entry first.\<close>

fun merge_loop :: "code_range list \<Rightarrow> code_range list \<Rightarrow> code_range list" where
  "merge_loop merged [] = rev merged"
| "merge_loop [] (current # rest) = merge_loop [current] rest"
| "merge_loop (prev # merged) (current # rest) =
     (if range_start current \<le> range_end prev + 1
      then merge_loop (prev\<lparr>range_end := max (range_end prev) (range_end current)\<rparr> # merged) rest
      else merge_loop (current # prev # merged) rest)"

definition mergeRanges :: "code_range list \<Rightarrow> code_range list" where
  "mergeRanges rs =
     (if rs = [] then []
      else let sorted = stable_sort range_le rs in merge_loop [hd sorted] (tl sorted))"

definition range_token :: "code_range \<Rightarrow> jstring" where
  "range_token r =
     (if range_start r = range_end r then num_to_string (num_of_nat (range_start r))
      else num_to_string (num_of_nat (range_start r)) @ [45] @ num_to_string (num_of_nat (range_end r)))"

text \<open>The nonempty segments of the text, trimmed, and the loop over them.\<close>

definition rule_segments :: "jstring \<Rightarrow> jstring list" where
  "rule_segments raw =
     filter (\<lambda>t. t \<noteq> []) (map trim (split_on 44 (replace_unit 65292 [44] raw)))"

definition parseHttpStatusCodeRules :: "jsv \<Rightarrow> rules_result" where
  "parseHttpStatusCodeRules input =
     (let raw = trim (js_string (nullish input (JStr []))) in
      if raw = [] then \<lparr>rules_ok = True, rules_ranges = [], rules_tokens = [], rules_normalized = [], rules_invalid = []\<rparr>
      else
        (let segs = rule_segments raw;
             rs = List.map_filter parseToken segs;
             invalid = filter (\<lambda>t. parseToken t = None) segs
         in if invalid \<noteq> [] then
              \<lparr>rules_ok = False, rules_ranges = [], rules_tokens = [], rules_normalized = raw, rules_invalid = invalid\<rparr>
            else
              (let merged = mergeRanges rs; ts = map range_token merged
               in \<lparr>rules_ok = True, rules_ranges = merged, rules_tokens = ts, rules_normalized = join [44] ts,
                   rules_invalid = []\<rparr>)))"

section \<open>Specification\<close>

text \<open>The codes a list of ranges stands for, and the normal form of such lists.\<close>

definition covered :: "code_range list \<Rightarrow> nat set" where
  "covered rs = (\<Union>r \<in> set rs. {range_start r..range_end r})"

definition range_ok :: "code_range \<Rightarrow> bool" where
  "range_ok r \<longleftrightarrow> 100 \<le> range_start r \<and> range_start r \<le> range_end r \<and> range_end r \<le> 599"

definition separated :: "code_range list \<Rightarrow> bool" where
  "separated rs \<longleftrightarrow> (\<forall>r \<in> set rs. range_start r \<le> range_end r) \<and>
     sorted_wrt (\<lambda>a b. range_end a + 1 < range_start b) rs"

section \<open>Tokens\<close>

lemma whole_nat [simp]: "whole (num_of_nat n) = n"
  by (simp add: whole_def)

lemma double_nat_small:
  "(\<exists>q. double (of_nat n) = Fin q \<and> n < 600 \<and> q = of_nat n) \<or> double (of_nat n) = PosInf \<and> 600 \<le> n \<or>
   (\<exists>q \<ge> 600. double (of_nat n) = Fin q \<and> 600 \<le> n)"
proof (cases "n \<le> 2 ^ 53")
  case False
  then have "600 \<le> n" by simp
  moreover have "(600::rat) \<le> q" if "2 ^ 53 \<le> q" for q using that by simp
  ultimately show ?thesis using double_nat_cases [of n] False by auto
qed (cases "n < 600"; simp)

lemma checked_range_digits:
  assumes "all_digits a" "all_digits b"
  shows "checked_range (parse_int a) (parse_int b) =
    (if 100 \<le> digits_val a \<and> digits_val a \<le> digits_val b \<and> digits_val b \<le> 599
     then Some (mk_range (digits_val a) (digits_val b)) else None)"
  using double_nat_small [of "digits_val a"] double_nat_small [of "digits_val b"]
  unfolding checked_range_def parse_int_digits [OF assms(1)] parse_int_digits [OF assms(2)]
  by (elim disjE exE conjE) simp_all

lemma checked_code_digits:
  assumes "all_digits c"
  shows "checked_code (parse_int c) =
    (if 100 \<le> digits_val c \<and> digits_val c \<le> 599 then Some (mk_range (digits_val c) (digits_val c)) else None)"
  using double_nat_small [of "digits_val c"]
  unfolding checked_code_def parse_int_digits [OF assms] by (elim disjE exE conjE) simp_all

text \<open>
  What a token means, over the natural numbers its digits denote: the checks on binary64 values
  decide the same, however long the digits are.
\<close>

lemma parseToken_eq:
  "parseToken token =
     (let cleaned = replace_unit 32 [] (trim token) in
      case split_on 45 cleaned of
        [c] \<Rightarrow> if all_digits c \<and> 100 \<le> digits_val c \<and> digits_val c \<le> 599
               then Some (mk_range (digits_val c) (digits_val c)) else None
      | [a, b] \<Rightarrow> if all_digits a \<and> all_digits b \<and> 100 \<le> digits_val a \<and> digits_val a \<le> digits_val b \<and>
                    digits_val b \<le> 599
                  then Some (mk_range (digits_val a) (digits_val b)) else None
      | _ \<Rightarrow> None)"
proof -
  define cl where "cl = replace_unit 32 [] (trim token)"
  show ?thesis
  proof (cases "45 \<in> set cl")
    case True
    then have "includes_str cl [45]" "cl \<noteq> []" by auto
    moreover have "split_on 45 cl \<noteq> [c]" for c
      using True by (simp add: split_on_single)
    ultimately show ?thesis
      unfolding parseToken_def cl_def [symmetric] Let_def
      by (auto simp: isNumber_def checked_range_digits split: list.split)
  next
    case False
    then have "split_on 45 cl = [cl]" "\<not> all_digits []" "\<not> includes_str cl [45]"
      by (auto simp: split_on_no_sep all_digits_def)
    then show ?thesis
      unfolding parseToken_def cl_def [symmetric] Let_def
      by (auto simp: isNumber_def checked_code_digits)
  qed
qed

text \<open>A token is a code or a range within 100 to 599.\<close>

lemma parseToken_range_ok: "parseToken t = Some r \<Longrightarrow> range_ok r"
  by (auto simp: parseToken_eq Let_def range_ok_def split: list.splits if_splits)

lemma num_to_string_code: "n \<le> 599 \<Longrightarrow> num_to_string (num_of_nat n) = show_nat n"
  by simp

lemma show_nat_units: "c \<in> set (show_nat n) \<Longrightarrow> is_digit c"
  using all_digits_show_nat [of n] by (auto simp: all_digits_def)

lemma range_token_units: "range_ok r \<Longrightarrow> c \<in> set (range_token r) \<Longrightarrow> is_digit c \<or> c = 45"
  by (auto simp: range_token_def range_ok_def num_to_string_code split: if_splits dest: show_nat_units)

lemma range_token_ne: "range_ok r \<Longrightarrow> range_token r \<noteq> []"
  using all_digits_show_nat by (auto simp: range_token_def range_ok_def num_to_string_code all_digits_def)

lemma token_unit_plain: "is_digit c \<or> c = 45 \<Longrightarrow> \<not> is_ws c \<and> c \<noteq> 32 \<and> c \<noteq> 44 \<and> c \<noteq> 65292"
  by (auto simp: is_digit_def is_ws_def ws_units_def)

lemma trim_range_token: "range_ok r \<Longrightarrow> trim (range_token r) = range_token r"
  using range_token_units token_unit_plain by (intro trim_no_ws) blast

text \<open>A printed token reads back as its range.\<close>

lemma parseToken_range_token:
  assumes "range_ok r"
  shows "parseToken (range_token r) = Some r"
proof -
  have cl: "replace_unit 32 [] (trim (range_token r)) = range_token r"
    using range_token_units [OF assms] token_unit_plain
    by (subst trim_range_token [OF assms]) (intro replace_unit_id, blast)
  have nd: "45 \<notin> set (show_nat n)" for n
    using show_nat_units [of 45 n] by (auto simp: is_digit_def)
  show ?thesis
  proof (cases "range_start r = range_end r")
    case True
    then have "range_token r = show_nat (range_end r)"
      using assms by (simp add: range_token_def range_ok_def)
    with cl nd True assms show ?thesis
      by (simp add: parseToken_eq Let_def split_on_no_sep range_ok_def)
  next
    case False
    then have "range_token r = show_nat (range_start r) @ 45 # show_nat (range_end r)"
      using assms by (simp add: range_token_def range_ok_def)
    with cl nd False assms show ?thesis
      by (simp add: parseToken_eq Let_def split_on_no_sep split_on_append range_ok_def)
  qed
qed

section \<open>Merging\<close>

interpretation range_order: comparator range_le
  by unfold_locales (auto simp: range_le_def split: if_splits)

lemma covered_simps [simp]:
  "covered [] = {}" "covered (r # rs) = {range_start r..range_end r} \<union> covered rs"
  "covered (rs @ qs) = covered rs \<union> covered qs" "covered (rev rs) = covered rs"
  by (auto simp: covered_def)

lemma merge_loop_separated:
  assumes "separated (rev (l # m))" "sorted_wrt range_le rest"
    and "\<forall>r \<in> set rest. range_start l \<le> range_start r \<and> range_start r \<le> range_end r"
  shows "separated (merge_loop (l # m) rest) \<and>
    covered (merge_loop (l # m) rest) = covered (l # m) \<union> covered rest"
  using assms
proof (induction "l # m" rest arbitrary: l m rule: merge_loop.induct)
  case (3 prev merged current rest)
  show ?case
  proof (cases "range_start current \<le> range_end prev + 1")
    case True
    let ?l = "prev\<lparr>range_end := max (range_end prev) (range_end current)\<rparr>"
    have "{range_start prev..max (range_end prev) (range_end current)} =
        {range_start prev..range_end prev} \<union> {range_start current..range_end current}"
      using 3(4-5) True by (auto simp: max_def)
    then have "covered (?l # merged) = covered (prev # merged) \<union> {range_start current..range_end current}"
      by auto
    moreover have "separated (rev (?l # merged))"
      using 3(3) by (auto simp: separated_def sorted_wrt_append)
    ultimately show ?thesis using 3(1) [OF True] 3(4-5) True by (auto simp: range_le_def)
  next
    case False
    have "separated (rev (current # prev # merged))"
      using 3(3,5) False by (fastforce simp: separated_def sorted_wrt_append)
    moreover have "\<forall>r \<in> set rest. range_start current \<le> range_start r"
      using 3(4) by (auto simp: range_le_def split: if_splits)
    ultimately show ?thesis using 3(2) [OF False] 3(4-5) False by auto
  qed
qed (simp add: Un_commute)

lemma mergeRanges_spec:
  assumes "\<forall>r \<in> set rs. range_start r \<le> range_end r"
  shows "separated (mergeRanges rs) \<and> covered (mergeRanges rs) = covered rs"
proof (cases "rs = []")
  case False
  define s where "s = stable_sort range_le rs"
  have "set s = set rs" by (simp add: s_def)
  then have cov: "covered s = covered rs" by (simp add: covered_def)
  have "s \<noteq> []" using False \<open>set s = set rs\<close> by auto
  then obtain l t where lt: "s = l # t" by (cases s) auto
  have srt: "sorted_wrt range_le (l # t)"
    using range_order.sorted_stable_sort [of rs] by (simp only: s_def [symmetric] lt)
  have ok: "\<forall>r \<in> set (l # t). range_start r \<le> range_end r"
    using assms \<open>set s = set rs\<close> by (simp only: lt)
  have "separated (merge_loop [l] t) \<and> covered (merge_loop [l] t) = covered [l] \<union> covered t"
    by (rule merge_loop_separated) (use srt ok in \<open>auto simp: separated_def range_le_def split: if_splits\<close>)
  then show ?thesis using cov False by (simp add: mergeRanges_def s_def [symmetric] lt)
qed (simp add: mergeRanges_def separated_def)

text \<open>A separated list is determined by what it covers.\<close>

lemma separated_Cons:
  "separated (r # rs) \<longleftrightarrow> range_start r \<le> range_end r \<and> (\<forall>c \<in> covered rs. range_end r + 1 < c) \<and> separated rs"
proof -
  have "separated rs \<Longrightarrow> (\<forall>c \<in> covered rs. range_end r + 1 < c) \<longleftrightarrow> (\<forall>q \<in> set rs. range_end r + 1 < range_start q)"
    by (fastforce simp: covered_def separated_def)
  then show ?thesis by (auto simp: separated_def)
qed

lemma separated_unique: "separated xs \<Longrightarrow> separated ys \<Longrightarrow> covered xs = covered ys \<Longrightarrow> xs = ys"
proof (induction xs arbitrary: ys)
  case Nil
  then show ?case by (cases ys) (auto simp: separated_Cons)
next
  case (Cons r xs)
  note x = Cons.prems(1) [unfolded separated_Cons]
  obtain q ys' where ys: "ys = q # ys'"
    using Cons.prems(1,3) by (cases ys) (auto simp: separated_Cons)
  note y = Cons.prems(2) [unfolded ys separated_Cons]
  have eq: "{range_start r..range_end r} \<union> covered xs = {range_start q..range_end q} \<union> covered ys'"
    using Cons.prems(3) by (simp add: ys)
  have iff: "c \<in> {range_start r..range_end r} \<or> c \<in> covered xs \<longleftrightarrow>
      c \<in> {range_start q..range_end q} \<or> c \<in> covered ys'" for c using eq by blast
  have st: "range_start r = range_start q"
    using iff [of "range_start r"] iff [of "range_start q"] x y by fastforce
  have "\<not> range_end r < range_end q"
    using iff [of "range_end r + 1"] x y st by fastforce
  moreover have "\<not> range_end q < range_end r"
    using iff [of "range_end q + 1"] x y st by fastforce
  ultimately have en: "range_end r = range_end q" by simp
  have "c \<in> covered xs \<longleftrightarrow> c \<in> covered ys'" for c
  proof (cases "c \<le> range_end r")
    case True
    then have "\<not> range_end r + 1 < c" by simp
    with x y en show ?thesis by metis
  qed (use iff [of c] en in auto)
  then have "covered xs = covered ys'" by blast
  with Cons.IH [of ys'] x y have "xs = ys'" by simp
  moreover have "r = q" using st en by simp
  ultimately show ?case by (simp add: ys)
qed

section \<open>The whole routine\<close>

lemma map_filter_Some: "(\<And>x. x \<in> set xs \<Longrightarrow> f (g x) = Some x) \<Longrightarrow> List.map_filter f (map g xs) = xs"
  by (induction xs) (auto simp: List.map_filter_simps)

lemma mergeRanges_separated: "separated rs \<Longrightarrow> mergeRanges rs = rs"
  using mergeRanges_spec [of rs] separated_unique by (auto simp: separated_def)

lemma mergeRanges_same_cover:
  assumes "\<forall>r \<in> set rs. range_start r \<le> range_end r" "\<forall>r \<in> set qs. range_start r \<le> range_end r"
    and "covered rs = covered qs"
  shows "mergeRanges rs = mergeRanges qs"
  using mergeRanges_spec [OF assms(1)] mergeRanges_spec [OF assms(2)] assms(3)
  by (intro separated_unique) auto

lemma mergeRanges_ok:
  assumes "\<forall>r \<in> set rs. range_ok r"
  shows "\<forall>r \<in> set (mergeRanges rs). range_ok r"
proof
  fix r assume r: "r \<in> set (mergeRanges rs)"
  have "\<forall>r \<in> set rs. range_start r \<le> range_end r" using assms by (simp add: range_ok_def)
  note sp = mergeRanges_spec [OF this]
  have le: "range_start r \<le> range_end r" using sp r unfolding separated_def by blast
  have "{range_start r..range_end r} \<subseteq> covered (mergeRanges rs)"
    unfolding covered_def by (rule UN_upper [OF r])
  also have "\<dots> = covered rs" using sp by blast
  also have "\<dots> \<subseteq> {100..599}"
    unfolding covered_def
  proof (rule UN_least)
    fix q assume "q \<in> set rs"
    with assms have "range_ok q" by blast
    then show "{range_start q..range_end q} \<subseteq> {100..599}" by (simp add: range_ok_def)
  qed
  finally show "range_ok r" using le by (simp add: range_ok_def)
qed

text \<open>The segments of a printed list of ranges are its tokens.\<close>

lemma rule_segments_join:
  assumes "\<forall>r \<in> set rs. range_ok r" "rs \<noteq> []"
  shows "rule_segments (join [44] (map range_token rs)) = map range_token rs"
    and "trim (join [44] (map range_token rs)) = join [44] (map range_token rs)"
    and "join [44] (map range_token rs) \<noteq> []"
proof -
  let ?ts = "map range_token rs"
  have u: "c \<in> set t \<Longrightarrow> is_digit c \<or> c = 45" if "t \<in> set ?ts" for t c
    using that assms(1) range_token_units by auto
  have uj: "is_digit c \<or> c = 45 \<or> c = 44" if "c \<in> set (join [44] ?ts)" for c
    using subsetD [OF set_join that] u by (elim UnE UN_E) (simp, blast)
  have "65292 \<notin> set (join [44] ?ts)" using uj [of 65292] by (auto simp: is_digit_def)
  then have rp: "replace_unit 65292 [44] (join [44] ?ts) = join [44] ?ts" by (rule replace_unit_id)
  have "44 \<notin> set t" if "t \<in> set ?ts" for t using u [OF that, of 44] by (auto simp: is_digit_def)
  then have sp: "split_on 44 (join [44] ?ts) = ?ts" using assms(2) by (intro split_on_join) auto
  have "map trim ?ts = ?ts" "filter (\<lambda>t. t \<noteq> []) ?ts = ?ts"
    using assms(1) by (auto simp: trim_range_token range_token_ne filter_id_conv)
  then show "rule_segments (join [44] ?ts) = ?ts" by (simp only: rule_segments_def rp sp)
  show "trim (join [44] ?ts) = join [44] ?ts"
  proof (rule trim_no_ws, rule ballI)
    fix c assume "c \<in> set (join [44] ?ts)"
    from uj [OF this] show "\<not> is_ws c" using is_ws_not_digit by (auto simp: is_ws_def ws_units_def)
  qed
  show "join [44] ?ts \<noteq> []"
    using assms range_token_ne by (cases rs) (auto simp: join_Cons)
qed

lemma map_filter_set: "set (List.map_filter f xs) = {y. \<exists>x \<in> set xs. f x = Some y}"
  by (force simp: List.map_filter_def)

lemma parsed_ranges_ok: "\<forall>r \<in> set (List.map_filter parseToken segs). range_ok r"
  by (auto simp: map_filter_set dest: parseToken_range_ok)

lemma raw_JStr [simp]: "js_string (nullish (JStr t) (JStr [])) = t"
  by (simp add: nullish_def)

abbreviation (input) raw_of :: "jsv \<Rightarrow> jstring" where
  "raw_of input \<equiv> trim (js_string (nullish input (JStr [])))"

abbreviation (input) parsed_of :: "jsv \<Rightarrow> code_range list" where
  "parsed_of input \<equiv> List.map_filter parseToken (rule_segments (raw_of input))"

text \<open>An accepted text in one equation; the empty text is the case of no segments.\<close>

lemma rules_accepted:
  "rules_ok (parseHttpStatusCodeRules input) \<longleftrightarrow> (\<forall>t \<in> set (rule_segments (raw_of input)). parseToken t \<noteq> None)"
  "rules_ok (parseHttpStatusCodeRules input) \<Longrightarrow>
    parseHttpStatusCodeRules input =
      \<lparr>rules_ok = True, rules_ranges = mergeRanges (parsed_of input),
       rules_tokens = map range_token (mergeRanges (parsed_of input)),
       rules_normalized = join [44] (map range_token (mergeRanges (parsed_of input))), rules_invalid = []\<rparr>"
proof -
  have e: "rule_segments [] = []" by (simp add: rule_segments_def trim_def trim_start_def trim_end_def)
  have m: "mergeRanges [] = []" by (simp add: mergeRanges_def)
  show "rules_ok (parseHttpStatusCodeRules input) \<longleftrightarrow> (\<forall>t \<in> set (rule_segments (raw_of input)). parseToken t \<noteq> None)"
    by (auto simp: parseHttpStatusCodeRules_def Let_def e filter_empty_conv)
  show "rules_ok (parseHttpStatusCodeRules input) \<Longrightarrow>
    parseHttpStatusCodeRules input =
      \<lparr>rules_ok = True, rules_ranges = mergeRanges (parsed_of input),
       rules_tokens = map range_token (mergeRanges (parsed_of input)),
       rules_normalized = join [44] (map range_token (mergeRanges (parsed_of input))), rules_invalid = []\<rparr>"
    by (simp add: parseHttpStatusCodeRules_def Let_def e m List.map_filter_simps split: if_splits)
qed

lemma rules_printed:
  assumes "\<forall>r \<in> set rs. range_ok r"
  shows "parseHttpStatusCodeRules (JStr (join [44] (map range_token rs))) =
    \<lparr>rules_ok = True, rules_ranges = mergeRanges rs, rules_tokens = map range_token (mergeRanges rs),
     rules_normalized = join [44] (map range_token (mergeRanges rs)), rules_invalid = []\<rparr>"
proof (cases "rs = []")
  case True
  then show ?thesis by (simp add: parseHttpStatusCodeRules_def mergeRanges_def trim_def trim_start_def trim_end_def)
next
  case False
  note seg = rule_segments_join [OF assms False]
  have rb: "List.map_filter parseToken (map range_token rs) = rs"
    using assms parseToken_range_token by (intro map_filter_Some) blast
  have "filter (\<lambda>t. parseToken t = None) (map range_token rs) = []"
    using assms parseToken_range_token by (auto simp: filter_empty_conv)
  then show ?thesis
    by (simp add: parseHttpStatusCodeRules_def Let_def seg rb)
qed

lemma rules_ranges_ok:
  "rules_ok (parseHttpStatusCodeRules input) \<Longrightarrow>
    separated (rules_ranges (parseHttpStatusCodeRules input)) \<and>
    (\<forall>r \<in> set (rules_ranges (parseHttpStatusCodeRules input)). range_ok r) \<and>
    covered (rules_ranges (parseHttpStatusCodeRules input)) = covered (parsed_of input)"
  using mergeRanges_spec [of "parsed_of input"] mergeRanges_ok [OF parsed_ranges_ok] parsed_ranges_ok
  by (simp add: rules_accepted(2) range_ok_def)

section \<open>Properties\<close>

text \<open>
  C11: A text of status code rules that is accepted yields ranges that are separated (sorted, with a
  gap of at least one code between neighbours), lie within 100 to 599, and cover exactly the codes
  that its tokens name; its tokens are all of its nonempty comma-separated segments.
\<close>

theorem rules_ranges_spec:
  assumes "rules_ok (parseHttpStatusCodeRules input)"
  defines "segs \<equiv> rule_segments (trim (js_string (nullish input (JStr []))))"
    and "rs \<equiv> rules_ranges (parseHttpStatusCodeRules input)"
  shows "separated rs \<and> (\<forall>r \<in> set rs. range_ok r) \<and>
    (\<forall>t \<in> set segs. parseToken t \<noteq> None) \<and>
    covered rs = {c. \<exists>t \<in> set segs. \<exists>r. parseToken t = Some r \<and> range_start r \<le> c \<and> c \<le> range_end r}"
proof -
  have "covered (List.map_filter parseToken segs) =
      {c. \<exists>t \<in> set segs. \<exists>r. parseToken t = Some r \<and> range_start r \<le> c \<and> c \<le> range_end r}"
    unfolding covered_def map_filter_set by (auto, blast)
  then show ?thesis
    using rules_ranges_ok [OF assms(1)] rules_accepted(1) [of input] assms(1)
    unfolding rs_def segs_def by blast
qed

theorem rules_ranges_spec_witness:
  "rules_ok (parseHttpStatusCodeRules (JStr (lit ''500-502,401,502-504''))) \<and>
   covered (rules_ranges (parseHttpStatusCodeRules (JStr (lit ''500-502,401,502-504'')))) =
     {c. \<exists>t \<in> set (rule_segments (lit ''500-502,401,502-504'')). \<exists>r. parseToken t = Some r \<and> range_start r \<le> c \<and> c \<le> range_end r}"
proof -
  let ?rs = "[mk_range 500 502, mk_range 401 401, mk_range 502 504]"
  have tx: "lit ''500-502,401,502-504'' = join [44] (map range_token ?rs)"
    by (simp add: range_token_def lit_def show_nat.simps)
  have "\<forall>r \<in> set ?rs. range_ok r" by (simp add: range_ok_def)
  then have ok: "rules_ok (parseHttpStatusCodeRules (JStr (lit ''500-502,401,502-504'')))"
    and tr: "trim (lit ''500-502,401,502-504'') = lit ''500-502,401,502-504''"
    using rules_printed [of ?rs] rule_segments_join(2) [of ?rs] by (simp_all add: tx)
  show ?thesis using rules_ranges_spec [OF ok] ok by (simp add: tr)
qed

text \<open>
  C24: The normal form of an accepted text is accepted again, with the same ranges, tokens and
  normal form.
\<close>

theorem rules_normalized_roundtrip:
  assumes "rules_ok (parseHttpStatusCodeRules input)"
  shows "parseHttpStatusCodeRules (JStr (rules_normalized (parseHttpStatusCodeRules input))) =
    parseHttpStatusCodeRules input"
  using rules_printed [of "mergeRanges (parsed_of input)"] rules_ranges_ok [OF assms]
  by (simp add: rules_accepted(2) [OF assms] mergeRanges_separated)

theorem rules_normalized_roundtrip_witness:
  "rules_normalized (parseHttpStatusCodeRules (JStr (lit ''500-502,401,502-504''))) = lit ''401,500-504'' \<and>
   parseHttpStatusCodeRules (JStr (lit ''401,500-504'')) = parseHttpStatusCodeRules (JStr (lit ''500-502,401,502-504''))"
proof -
  let ?rs = "[mk_range 500 502, mk_range 401 401, mk_range 502 504]"
  have tx: "lit ''500-502,401,502-504'' = join [44] (map range_token ?rs)"
    by (simp add: range_token_def lit_def show_nat.simps)
  have "\<forall>r \<in> set ?rs. range_ok r" by (simp add: range_ok_def)
  note p = rules_printed [OF this, folded tx]
  have n: "rules_normalized (parseHttpStatusCodeRules (JStr (lit ''500-502,401,502-504''))) = lit ''401,500-504''"
    unfolding p by (simp add: mergeRanges_def range_le_def max_def range_token_def lit_def show_nat.simps)
  with rules_normalized_roundtrip [of "JStr (lit ''500-502,401,502-504'')"] show ?thesis by (simp add: p)
qed

text \<open>
  C25: Two accepted texts that stand for the same set of status codes have the same normal form.
\<close>

theorem rules_canonical:
  assumes "rules_ok (parseHttpStatusCodeRules a)" "rules_ok (parseHttpStatusCodeRules b)"
    and "covered (rules_ranges (parseHttpStatusCodeRules a)) = covered (rules_ranges (parseHttpStatusCodeRules b))"
  shows "rules_normalized (parseHttpStatusCodeRules a) = rules_normalized (parseHttpStatusCodeRules b)"
proof -
  have "rules_ranges (parseHttpStatusCodeRules a) = rules_ranges (parseHttpStatusCodeRules b)"
    using rules_ranges_ok [OF assms(1)] rules_ranges_ok [OF assms(2)] assms(3) by (intro separated_unique) auto
  then show ?thesis by (simp add: rules_accepted(2) assms(1,2))
qed

theorem rules_canonical_witness:
  "rules_normalized (parseHttpStatusCodeRules (JStr (lit ''500-502,503''))) =
   rules_normalized (parseHttpStatusCodeRules (JStr (lit ''502-503,500-501'')))"
proof -
  let ?a = "[mk_range 500 502, mk_range 503 503]" and ?b = "[mk_range 502 503, mk_range 500 501]"
  have tx: "lit ''500-502,503'' = join [44] (map range_token ?a)"
      "lit ''502-503,500-501'' = join [44] (map range_token ?b)"
    by (simp_all add: range_token_def lit_def show_nat.simps)
  have ok: "\<forall>r \<in> set ?a. range_ok r" "\<forall>r \<in> set ?b. range_ok r" by (simp_all add: range_ok_def)
  note p = rules_printed [OF ok(1), folded tx] rules_printed [OF ok(2), folded tx]
  have "mergeRanges ?a = [mk_range 500 503]" "mergeRanges ?b = [mk_range 500 503]"
    by (simp_all add: mergeRanges_def range_le_def max_def)
  then show ?thesis by (intro rules_canonical) (simp_all add: p)
qed

end
