(* ===== verification/Status_Guard.thy ===== *)
theory Status_Guard
  imports Status_Rules
begin

text \<open>
  The guard in front of saving a channel's status code mapping,
  \<^verbatim>\<open>components/table/channels/modals/statusCodeRiskGuard.js\<close>: a JSON object maps upstream status
  codes to the codes the gateway answers with. Redirecting 504 or 524 disables a retry safeguard,
  so the editor asks for a confirmation when a save adds such a redirect. Shown: the guard reports
  exactly the redirects that the new text has and the saved text did not have.
\<close>

section \<open>Model\<close>

definition NON_REDIRECTABLE_STATUS_CODES :: "nat set" where
  "NON_REDIRECTABLE_STATUS_CODES = {504, 524}"

text \<open>The pattern \<^verbatim>\<open>/^[1-5]\d{2}$/\<close>.\<close>

definition is_status_text :: "jstring \<Rightarrow> bool" where
  "is_status_text s = (case s of
       [a, b, c] \<Rightarrow> 49 \<le> a \<and> a \<le> 53 \<and> is_digit b \<and> is_digit c
     | _ \<Rightarrow> False)"

definition parseStatusCodeKey :: "jstring \<Rightarrow> nat option" where
  "parseStatusCodeKey rawKey =
     (let n = trim rawKey in if \<not> is_status_text n then None else Some (whole (parse_int n)))"

fun parseStatusCodeMappingTarget :: "jsv \<Rightarrow> nat option" where
  "parseStatusCodeMappingTarget (JNum x) =
     (if is_integer x then
        (if num_le (num_of_nat 100) x \<and> num_le x (num_of_nat 599) then Some (whole x) else None)
      else None)"
| "parseStatusCodeMappingTarget (JStr s) =
     (let n = trim s in
      if \<not> is_status_text n then None
      else let code = parse_int n in
        if num_le (num_of_nat 100) code \<and> num_le code (num_of_nat 599) then Some (whole code) else None)"
| "parseStatusCodeMappingTarget _ = None"

text \<open>
  The common start of both collectors: the entries of the parsed object, or none when the text is
  blank, is no JSON or is no object.
\<close>

definition mapping_entries :: "jsv \<Rightarrow> props" where
  "mapping_entries txtv = (case txtv of
       JStr s \<Rightarrow>
         if trim s = [] then []
         else (case json_parse s of
                 None \<Rightarrow> []
               | Some parsed \<Rightarrow> if is_plain_object parsed then entries_of parsed else [])
     | _ \<Rightarrow> [])"

definition collectInvalidStatusCodeEntries :: "jsv \<Rightarrow> jstring list" where
  "collectInvalidStatusCodeEntries mapping =
     List.map_filter (\<lambda>(rawKey, rawValue).
        if parseStatusCodeKey rawKey = None \<or> parseStatusCodeMappingTarget rawValue = None
        then Some (rawKey @ [32, 8594, 32] @ js_string rawValue) else None)
       (mapping_entries mapping)"

definition redirect_text :: "nat \<Rightarrow> nat \<Rightarrow> jstring" where
  "redirect_text f t =
     num_to_string (num_of_nat f) @ lit '' -> '' @ num_to_string (num_of_nat t)"

definition risky_redirect :: "jstring \<times> jsv \<Rightarrow> jstring option" where
  "risky_redirect e =
     (case (parseStatusCodeKey (fst e), parseStatusCodeMappingTarget (snd e)) of
        (Some f, Some t) \<Rightarrow>
          if f \<notin> NON_REDIRECTABLE_STATUS_CODES then None
          else if f = t then None
          else Some (redirect_text f t)
      | _ \<Rightarrow> None)"

definition collectDisallowedStatusCodeRedirects :: "jsv \<Rightarrow> jstring list" where
  "collectDisallowedStatusCodeRedirects mapping =
     stable_sort str_le (dedup (List.map_filter risky_redirect (mapping_entries mapping)))"

definition collectNewDisallowedStatusCodeRedirects :: "jsv \<Rightarrow> jsv \<Rightarrow> jstring list" where
  "collectNewDisallowedStatusCodeRedirects original current =
     (let currentRisky = collectDisallowedStatusCodeRedirects current in
      if currentRisky = [] then []
      else let originalRisky = set (collectDisallowedStatusCodeRedirects original)
           in filter (\<lambda>x. x \<notin> originalRisky) currentRisky)"

section \<open>Specification\<close>

text \<open>The mapping redirects the safeguarded code \<open>f\<close> to another code \<open>t\<close>.\<close>

definition redirects :: "jsv \<Rightarrow> nat \<Rightarrow> nat \<Rightarrow> bool" where
  "redirects mapping f t \<longleftrightarrow> f \<in> NON_REDIRECTABLE_STATUS_CODES \<and> f \<noteq> t \<and>
     (\<exists>(k, v) \<in> set (mapping_entries mapping).
        parseStatusCodeKey k = Some f \<and> parseStatusCodeMappingTarget v = Some t)"

section \<open>Lemmas\<close>

lemma is_status_text_digits: "is_status_text s \<Longrightarrow> all_digits s \<and> 100 \<le> digits_val s \<and> digits_val s \<le> 599"
  by (auto simp: is_status_text_def all_digits_def is_digit_def digits_val_def split: list.splits)

lemma status_text_number:
  "is_status_text s \<Longrightarrow> parse_int s = num_of_nat (digits_val s)"
  using is_status_text_digits [of s] by (simp add: parse_int_digits)

lemma key_range: "parseStatusCodeKey k = Some f \<Longrightarrow> 100 \<le> f \<and> f \<le> 599"
  using is_status_text_digits [of "trim k"]
  by (auto simp: parseStatusCodeKey_def Let_def status_text_number split: if_splits)

lemma num_le_fin: "num_le (num_of_nat c) x \<and> num_le x (num_of_nat d) \<Longrightarrow> \<exists>q. x = Fin q \<and> of_nat c \<le> q \<and> q \<le> of_nat d"
  by (cases x) (auto simp: num_le_def)

lemma target_range: "parseStatusCodeMappingTarget v = Some t \<Longrightarrow> 100 \<le> t \<and> t \<le> 599"
proof (induction v rule: parseStatusCodeMappingTarget.induct)
  case (1 x)
  then have "num_le (num_of_nat 100) x \<and> num_le x (num_of_nat 599)" "t = whole x"
    by (auto split: if_splits)
  with num_le_fin [of 100 x 599] show ?case
    by (auto simp: whole_def le_nat_iff le_floor_iff nat_le_iff floor_le_iff)
next
  case (2 s)
  then show ?case using is_status_text_digits [of "trim s"]
    by (auto simp: Let_def status_text_number split: if_splits)
qed simp_all

lemma redirect_text_inject:
  assumes "redirect_text f t = redirect_text f' t'" "f \<le> 599" "t \<le> 599" "f' \<le> 599" "t' \<le> 599"
  shows "f = f' \<and> t = t'"
proof -
  have sp: "split_on 32 (redirect_text a b) = [show_nat a, lit ''->'', show_nat b]" if "a \<le> 599" "b \<le> 599" for a b
  proof -
    have n: "32 \<notin> set (show_nat c)" for c using show_nat_units [of 32 c] by (auto simp: is_digit_def)
    have "redirect_text a b = show_nat a @ 32 # lit ''->'' @ 32 # show_nat b"
      using that by (simp add: redirect_text_def lit_def)
    moreover have "32 \<notin> set (lit ''->'')" by (simp add: lit_def)
    ultimately show ?thesis using n by (simp add: split_on_append split_on_no_sep)
  qed
  have "[show_nat f, lit ''->'', show_nat t] = [show_nat f', lit ''->'', show_nat t']"
    using sp [OF assms(2,3)] sp [OF assms(4,5)] assms(1) by argo
  then have "show_nat f = show_nat f' \<and> show_nat t = show_nat t'" by blast
  then show ?thesis using show_nat_inject by blast
qed

lemma risky_redirect_Some:
  "risky_redirect e = Some x \<longleftrightarrow> (\<exists>f t. parseStatusCodeKey (fst e) = Some f \<and>
     parseStatusCodeMappingTarget (snd e) = Some t \<and> f \<in> NON_REDIRECTABLE_STATUS_CODES \<and> f \<noteq> t \<and>
     x = redirect_text f t)"
  unfolding risky_redirect_def by (auto split: option.split)

lemma set_disallowed:
  "set (collectDisallowedStatusCodeRedirects m) = {x. \<exists>f t. redirects m f t \<and> x = redirect_text f t}"
  unfolding collectDisallowedStatusCodeRedirects_def redirects_def
  unfolding set_stable_sort set_dedup map_filter_set risky_redirect_Some case_prod_unfold by blast

lemma redirects_range: "redirects m f t \<Longrightarrow> f \<le> 599 \<and> t \<le> 599"
  by (auto simp: redirects_def dest: key_range target_range)

section \<open>Properties\<close>

text \<open>
  C26: The guard lists, sorted and without repetition, exactly the redirects of a safeguarded status
  code (504 or 524) that the edited mapping has and the saved mapping does not have; both sides
  identified by their codes, not by the spelling of the JSON entries.
\<close>

theorem new_redirects_spec:
  "set (collectNewDisallowedStatusCodeRedirects original current) =
     {redirect_text f t | f t. redirects current f t \<and> \<not> redirects original f t} \<and>
   distinct (collectNewDisallowedStatusCodeRedirects original current) \<and>
   sorted_wrt str_le (collectNewDisallowedStatusCodeRedirects original current)"
proof (intro conjI)
  have filt: "collectNewDisallowedStatusCodeRedirects original current =
      filter (\<lambda>x. x \<notin> set (collectDisallowedStatusCodeRedirects original)) (collectDisallowedStatusCodeRedirects current)"
    by (simp add: collectNewDisallowedStatusCodeRedirects_def Let_def)
  have same: "redirects original f t \<longleftrightarrow> redirect_text f t \<in> set (collectDisallowedStatusCodeRedirects original)"
    if "redirects current f t" for f t
  proof
    assume "redirect_text f t \<in> set (collectDisallowedStatusCodeRedirects original)"
    then obtain f' t' where o: "redirects original f' t'" "redirect_text f t = redirect_text f' t'"
      by (auto simp: set_disallowed)
    with redirect_text_inject [OF o(2)] redirects_range [OF that] redirects_range [OF o(1)]
    show "redirects original f t" by simp
  qed (auto simp: set_disallowed)
  have "set (collectNewDisallowedStatusCodeRedirects original current) =
      {x. \<exists>f t. redirects current f t \<and> x = redirect_text f t} - set (collectDisallowedStatusCodeRedirects original)"
    unfolding filt set_filter set_disallowed [of current, symmetric] by blast
  also have "\<dots> = {redirect_text f t | f t. redirects current f t \<and>
      redirect_text f t \<notin> set (collectDisallowedStatusCodeRedirects original)}" by blast
  also have "\<dots> = {redirect_text f t | f t. redirects current f t \<and> \<not> redirects original f t}"
    by (simp only: same cong: conj_cong)
  finally show "set (collectNewDisallowedStatusCodeRedirects original current) =
      {redirect_text f t | f t. redirects current f t \<and> \<not> redirects original f t}" .
  show "distinct (collectNewDisallowedStatusCodeRedirects original current)"
    unfolding filt by (simp add: collectDisallowedStatusCodeRedirects_def)
  show "sorted_wrt str_le (collectNewDisallowedStatusCodeRedirects original current)"
    unfolding filt collectDisallowedStatusCodeRedirects_def
    by (intro sorted_wrt_filter string_order.sorted_stable_sort)
qed

end
