(* ===== verification/Param_Model.thy ===== *)
theory Param_Model
  imports Json_Facts
begin

text \<open>
  The data and the pure functions of the parameter override editor,
  \<^verbatim>\<open>components/table/channels/modals/ParamOverrideEditorModal.jsx\<close> up to the component itself. A
  channel's parameter override is a JSON text; the editor shows it as a list of operations with
  conditions, keeps the operands as text, and prints the list back. The modes are the values of
  the two option lists; a message the code builds with the translation function \<^verbatim>\<open>t\<close> is a
  constructor of \<open>po_error\<close> with the parameters of the call.
\<close>

section \<open>Environment\<close>

text \<open>
  What the code reads from its surroundings: the engine's Unicode case tables and the clock
  (\<open>clock n\<close> is \<^verbatim>\<open>Date.now()\<close> when the id number \<open>n\<close> is made).
\<close>

record js_env =
  lower_map :: unicode_map
  upper_map :: unicode_map
  clock :: "nat \<Rightarrow> nat"

text \<open>\<^verbatim>\<open>nextLocalId()\<close>: the module variable \<^verbatim>\<open>localIdSeed\<close> is passed on.\<close>

definition local_id :: "js_env \<Rightarrow> nat \<Rightarrow> jstring" where
  "local_id env seed = lit ''param_override_'' @ show_nat (clock env seed) @ [95] @ show_nat seed"

definition nextLocalId :: "js_env \<Rightarrow> nat \<Rightarrow> jstring \<times> nat" where
  "nextLocalId env seed = (local_id env seed, Suc seed)"

section \<open>Modes\<close>

datatype op_mode =
    M_set | M_delete | M_append | M_prepend | M_copy | M_move | M_replace | M_regex_replace
  | M_trim_prefix | M_trim_suffix | M_ensure_prefix | M_ensure_suffix | M_trim_space | M_to_lower
  | M_to_upper | M_return_error | M_prune_objects | M_pass_headers | M_sync_fields | M_set_header
  | M_delete_header | M_copy_header | M_move_header

fun op_mode_text :: "op_mode \<Rightarrow> jstring" where
  "op_mode_text M_set = lit ''set''"
| "op_mode_text M_delete = lit ''delete''"
| "op_mode_text M_append = lit ''append''"
| "op_mode_text M_prepend = lit ''prepend''"
| "op_mode_text M_copy = lit ''copy''"
| "op_mode_text M_move = lit ''move''"
| "op_mode_text M_replace = lit ''replace''"
| "op_mode_text M_regex_replace = lit ''regex_replace''"
| "op_mode_text M_trim_prefix = lit ''trim_prefix''"
| "op_mode_text M_trim_suffix = lit ''trim_suffix''"
| "op_mode_text M_ensure_prefix = lit ''ensure_prefix''"
| "op_mode_text M_ensure_suffix = lit ''ensure_suffix''"
| "op_mode_text M_trim_space = lit ''trim_space''"
| "op_mode_text M_to_lower = lit ''to_lower''"
| "op_mode_text M_to_upper = lit ''to_upper''"
| "op_mode_text M_return_error = lit ''return_error''"
| "op_mode_text M_prune_objects = lit ''prune_objects''"
| "op_mode_text M_pass_headers = lit ''pass_headers''"
| "op_mode_text M_sync_fields = lit ''sync_fields''"
| "op_mode_text M_set_header = lit ''set_header''"
| "op_mode_text M_delete_header = lit ''delete_header''"
| "op_mode_text M_copy_header = lit ''copy_header''"
| "op_mode_text M_move_header = lit ''move_header''"

text \<open>\<^verbatim>\<open>OPERATION_MODE_OPTIONS\<close> in its order, and membership in \<^verbatim>\<open>OPERATION_MODE_VALUES\<close>.\<close>

definition OPERATION_MODES :: "op_mode list" where
  "OPERATION_MODES = [M_set, M_delete, M_append, M_prepend, M_copy, M_move, M_replace,
     M_regex_replace, M_trim_prefix, M_trim_suffix, M_ensure_prefix, M_ensure_suffix, M_trim_space,
     M_to_lower, M_to_upper, M_return_error, M_prune_objects, M_pass_headers, M_sync_fields,
     M_set_header, M_delete_header, M_copy_header, M_move_header]"

definition op_mode_of :: "jsv \<Rightarrow> op_mode option" where
  "op_mode_of v = (case v of
       JStr s \<Rightarrow> List.find (\<lambda>m. op_mode_text m = s) OPERATION_MODES
     | _ \<Rightarrow> None)"

datatype cond_mode = C_full | C_prefix | C_suffix | C_contains | C_gt | C_gte | C_lt | C_lte

fun cond_mode_text :: "cond_mode \<Rightarrow> jstring" where
  "cond_mode_text C_full = lit ''full''"
| "cond_mode_text C_prefix = lit ''prefix''"
| "cond_mode_text C_suffix = lit ''suffix''"
| "cond_mode_text C_contains = lit ''contains''"
| "cond_mode_text C_gt = lit ''gt''"
| "cond_mode_text C_gte = lit ''gte''"
| "cond_mode_text C_lt = lit ''lt''"
| "cond_mode_text C_lte = lit ''lte''"

definition CONDITION_MODES :: "cond_mode list" where
  "CONDITION_MODES = [C_full, C_prefix, C_suffix, C_contains, C_gt, C_gte, C_lt, C_lte]"

definition cond_mode_of :: "jsv \<Rightarrow> cond_mode option" where
  "cond_mode_of v = (case v of
       JStr s \<Rightarrow> List.find (\<lambda>m. cond_mode_text m = s) CONDITION_MODES
     | _ \<Rightarrow> None)"

text \<open>\<^verbatim>\<open>MODE_META\<close>: which fields a mode has. A flag that is absent or false is \<open>False\<close>.\<close>

record mode_meta =
  meta_path :: bool
  meta_pathOptional :: bool
  meta_value :: bool
  meta_keepOrigin :: bool
  meta_from :: bool
  meta_to :: bool
  meta_pathAlias :: bool

definition no_meta :: mode_meta where
  "no_meta = \<lparr>meta_path = False, meta_pathOptional = False, meta_value = False, meta_keepOrigin = False,
     meta_from = False, meta_to = False, meta_pathAlias = False\<rparr>"

fun MODE_META :: "op_mode \<Rightarrow> mode_meta" where
  "MODE_META M_delete = no_meta\<lparr>meta_path := True\<rparr>"
| "MODE_META M_set = no_meta\<lparr>meta_path := True, meta_value := True, meta_keepOrigin := True\<rparr>"
| "MODE_META M_append = no_meta\<lparr>meta_path := True, meta_value := True, meta_keepOrigin := True\<rparr>"
| "MODE_META M_prepend = no_meta\<lparr>meta_path := True, meta_value := True, meta_keepOrigin := True\<rparr>"
| "MODE_META M_copy = no_meta\<lparr>meta_from := True, meta_to := True\<rparr>"
| "MODE_META M_move = no_meta\<lparr>meta_from := True, meta_to := True\<rparr>"
| "MODE_META M_replace = no_meta\<lparr>meta_path := True, meta_from := True\<rparr>"
| "MODE_META M_regex_replace = no_meta\<lparr>meta_path := True, meta_from := True\<rparr>"
| "MODE_META M_trim_prefix = no_meta\<lparr>meta_path := True, meta_value := True\<rparr>"
| "MODE_META M_trim_suffix = no_meta\<lparr>meta_path := True, meta_value := True\<rparr>"
| "MODE_META M_ensure_prefix = no_meta\<lparr>meta_path := True, meta_value := True\<rparr>"
| "MODE_META M_ensure_suffix = no_meta\<lparr>meta_path := True, meta_value := True\<rparr>"
| "MODE_META M_trim_space = no_meta\<lparr>meta_path := True\<rparr>"
| "MODE_META M_to_lower = no_meta\<lparr>meta_path := True\<rparr>"
| "MODE_META M_to_upper = no_meta\<lparr>meta_path := True\<rparr>"
| "MODE_META M_return_error = no_meta\<lparr>meta_value := True\<rparr>"
| "MODE_META M_prune_objects = no_meta\<lparr>meta_pathOptional := True, meta_value := True\<rparr>"
| "MODE_META M_pass_headers = no_meta\<lparr>meta_value := True, meta_keepOrigin := True\<rparr>"
| "MODE_META M_sync_fields = no_meta\<lparr>meta_from := True, meta_to := True\<rparr>"
| "MODE_META M_set_header = no_meta\<lparr>meta_path := True, meta_value := True, meta_keepOrigin := True\<rparr>"
| "MODE_META M_delete_header = no_meta\<lparr>meta_path := True\<rparr>"
| "MODE_META M_copy_header = no_meta\<lparr>meta_from := True, meta_to := True, meta_keepOrigin := True, meta_pathAlias := True\<rparr>"
| "MODE_META M_move_header = no_meta\<lparr>meta_from := True, meta_to := True, meta_keepOrigin := True, meta_pathAlias := True\<rparr>"

definition VALUE_REQUIRED_MODES :: "op_mode set" where
  "VALUE_REQUIRED_MODES = {M_trim_prefix, M_trim_suffix, M_ensure_prefix, M_ensure_suffix,
     M_set_header, M_return_error, M_prune_objects, M_pass_headers}"

definition FROM_REQUIRED_MODES :: "op_mode set" where
  "FROM_REQUIRED_MODES = {M_copy, M_move, M_replace, M_regex_replace, M_copy_header, M_move_header,
     M_sync_fields}"

definition TO_REQUIRED_MODES :: "op_mode set" where
  "TO_REQUIRED_MODES = {M_copy, M_move, M_copy_header, M_move_header, M_sync_fields}"

section \<open>Operand texts\<close>

fun toValueText :: "jsv \<Rightarrow> jstring" where
  "toValueText JUndef = []"
| "toValueText (JStr s) = s"
| "toValueText v = json_stringify v"

definition parseLooseValue :: "jstring \<Rightarrow> jsv" where
  "parseLooseValue raw =
     (if trim raw = [] then JStr []
      else case json_parse raw of Some v \<Rightarrow> v | None \<Rightarrow> JStr raw)"

definition header_names :: "jsv list \<Rightarrow> jstring list" where
  "header_names vs = filter (\<lambda>s. s \<noteq> []) (map (\<lambda>v. trim (js_string (nullish v (JStr [])))) vs)"

definition parsePassHeaderNames :: "jsv \<Rightarrow> jstring list" where
  "parsePassHeaderNames rawValue = (case rawValue of
       JArr vs \<Rightarrow> header_names vs
     | JObj ps \<Rightarrow>
         (case obj_get (lit ''headers'') ps of
            JArr vs \<Rightarrow> header_names vs
          | _ \<Rightarrow>
              if obj_get (lit ''header'') ps \<noteq> JUndef then header_names [obj_get (lit ''header'') ps]
              else [])
     | JStr s \<Rightarrow> filter (\<lambda>t. t \<noteq> []) (map trim (split_on 44 s))
     | _ \<Rightarrow> [])"

section \<open>The draft of a custom error\<close>

record return_error_draft =
  red_message :: jstring
  red_statusCode :: jsnum
  red_code :: jstring
  red_type :: jstring
  red_skipRetry :: bool
  red_simpleMode :: bool

definition red_defaults :: return_error_draft where
  "red_defaults = \<lparr>red_message = [], red_statusCode = Fin 400, red_code = [], red_type = [],
     red_skipRetry = True, red_simpleMode = True\<rparr>"

text \<open>\<^verbatim>\<open>Number.isInteger(n) && n >= 100 && n <= 599 ? n : 400\<close>, written twice in the source.\<close>

definition status_or_400 :: "jsnum \<Rightarrow> jsnum" where
  "status_or_400 x =
     (if is_integer x \<and> num_le (Fin 100) x \<and> num_le x (Fin 599) then x else Fin 400)"

definition parseReturnErrorDraft :: "jstring \<Rightarrow> return_error_draft" where
  "parseReturnErrorDraft valueText =
     (let raw = trim valueText in
      if raw = [] then red_defaults
      else case json_parse raw of
        Some (JObj ps) \<Rightarrow>
          (let g = (\<lambda>k. obj_get (lit k) ps);
               statusRaw = (if g ''status_code'' \<noteq> JUndef then g ''status_code'' else g ''status'')
           in \<lparr>red_message = trim (js_string (or_else (or_else (g ''message'') (g ''msg'')) (JStr []))),
               red_statusCode = status_or_400 (js_number statusRaw),
               red_code = trim (js_string (or_else (g ''code'') (JStr []))),
               red_type = trim (js_string (or_else (g ''type'') (JStr []))),
               red_skipRetry = (g ''skip_retry'' \<noteq> JBool False),
               red_simpleMode = False\<rparr>)
      | _ \<Rightarrow> red_defaults\<lparr>red_message := raw, red_simpleMode := True\<rparr>)"

definition set_if :: "bool \<Rightarrow> string \<Rightarrow> jsv \<Rightarrow> props \<Rightarrow> props" where
  "set_if c k v ps = (if c then obj_set (lit k) v ps else ps)"

definition buildReturnErrorValueText :: "return_error_draft \<Rightarrow> jstring" where
  "buildReturnErrorValueText draft =
     (let message = trim (red_message draft) in
      if red_simpleMode draft then message
      else
        (let code = trim (red_code draft); typ = trim (red_type draft);
             payload = obj_of_list [(lit ''message'', JStr message),
               (lit ''status_code'', JNum (status_or_400 (red_statusCode draft)))];
             payload = set_if (code \<noteq> []) ''code'' (JStr code) payload;
             payload = set_if (typ \<noteq> []) ''type'' (JStr typ) payload;
             payload = set_if (\<not> red_skipRetry draft) ''skip_retry'' (JBool False) payload
         in json_stringify (JObj payload)))"

section \<open>Conditions and operations\<close>

record condition =
  cond_id :: jstring
  cond_path :: jstring
  cond_mode :: cond_mode
  cond_value_text :: jstring
  cond_invert :: bool
  cond_pass_missing_key :: bool

datatype logic = L_AND | L_OR

fun logic_text :: "logic \<Rightarrow> jstring" where
  "logic_text L_AND = lit ''AND''"
| "logic_text L_OR = lit ''OR''"

record operation =
  op_id :: jstring
  op_description :: jstring
  op_path :: jstring
  op_mode :: op_mode
  op_value_text :: jstring
  op_keep_origin :: bool
  op_from :: jstring
  op_to :: jstring
  op_logic :: logic
  op_conditions :: "condition list"

definition str_or_empty :: "jsv \<Rightarrow> jstring" where
  "str_or_empty v = (case v of JStr s \<Rightarrow> s | _ \<Rightarrow> [])"

text \<open>
  \<^verbatim>\<open>normalizeCondition\<close> and \<^verbatim>\<open>normalizePruneRule\<close>, which have the same body. Reading a property of
  \<^verbatim>\<open>null\<close> throws; the result \<open>None\<close> is that TypeError.
\<close>

definition normalizeCondition :: "js_env \<Rightarrow> jsv \<Rightarrow> nat \<Rightarrow> (condition \<times> nat) option" where
  "normalizeCondition env v seed =
     (if v = JNull then None
      else
        (let v = (if v = JUndef then JObj [] else v); (i, seed') = nextLocalId env seed;
             g = (\<lambda>k. get_prop (lit k) v)
         in Some (\<lparr>cond_id = i, cond_path = str_or_empty (g ''path''),
              cond_mode = (case cond_mode_of (g ''mode'') of Some m \<Rightarrow> m | None \<Rightarrow> C_full),
              cond_value_text = toValueText (g ''value''), cond_invert = (g ''invert'' = JBool True),
              cond_pass_missing_key = (g ''pass_missing_key'' = JBool True)\<rparr>, seed')))"

text \<open>\<^verbatim>\<open>xs.map(f)\<close> for a function that takes ids and may throw.\<close>

fun map_ids :: "('a \<Rightarrow> nat \<Rightarrow> ('b \<times> nat) option) \<Rightarrow> 'a list \<Rightarrow> nat \<Rightarrow> ('b list \<times> nat) option" where
  "map_ids f [] seed = Some ([], seed)"
| "map_ids f (x # xs) seed = (case f x seed of
       None \<Rightarrow> None
     | Some (y, seed') \<Rightarrow> (case map_ids f xs seed' of
           None \<Rightarrow> None
         | Some (ys, seed'') \<Rightarrow> Some (y # ys, seed'')))"

definition op_logic_of :: "js_env \<Rightarrow> jsv \<Rightarrow> logic" where
  "op_logic_of env v =
     (if to_upper (upper_map env) (js_string (or_else v (JStr (lit ''OR'')))) = lit ''AND'' then L_AND else L_OR)"

definition normalizeOperation :: "js_env \<Rightarrow> jsv \<Rightarrow> nat \<Rightarrow> (operation \<times> nat) option" where
  "normalizeOperation env v seed =
     (if v = JNull then None
      else
        (let v = (if v = JUndef then JObj [] else v); (i, seed1) = nextLocalId env seed;
             g = (\<lambda>k. get_prop (lit k) v);
             items = (case g ''conditions'' of JArr vs \<Rightarrow> vs | _ \<Rightarrow> [])
         in case map_ids (normalizeCondition env) items seed1 of
              None \<Rightarrow> None
            | Some (cs, seed2) \<Rightarrow>
                Some (\<lparr>op_id = i, op_description = str_or_empty (g ''description''),
                  op_path = str_or_empty (g ''path''),
                  op_mode = (case op_mode_of (g ''mode'') of Some m \<Rightarrow> m | None \<Rightarrow> M_set),
                  op_value_text = toValueText (g ''value''), op_keep_origin = (g ''keep_origin'' = JBool True),
                  op_from = str_or_empty (g ''from''), op_to = str_or_empty (g ''to''),
                  op_logic = op_logic_of env (g ''logic''), op_conditions = cs\<rparr>, seed2)))"

text \<open>\<^verbatim>\<open>createDefaultCondition()\<close> and \<^verbatim>\<open>createDefaultOperation()\<close>, which cannot throw.\<close>

definition createDefaultCondition :: "js_env \<Rightarrow> nat \<Rightarrow> condition \<times> nat" where
  "createDefaultCondition env seed = the (normalizeCondition env (JObj []) seed)"

definition createDefaultOperation :: "js_env \<Rightarrow> nat \<Rightarrow> operation \<times> nat" where
  "createDefaultOperation env seed =
     the (normalizeOperation env (JObj [(lit ''mode'', JStr (lit ''set''))]) seed)"

section \<open>The draft of a clean-up rule\<close>

record prune_draft =
  pd_simpleMode :: bool
  pd_typeText :: jstring
  pd_logic :: logic
  pd_recursive :: bool
  pd_rules :: "condition list"

definition pd_defaults :: prune_draft where
  "pd_defaults = \<lparr>pd_simpleMode = True, pd_typeText = [], pd_logic = L_AND, pd_recursive = True,
     pd_rules = []\<rparr>"

definition prune_logic_of :: "js_env \<Rightarrow> jsv \<Rightarrow> logic" where
  "prune_logic_of env v =
     (if to_upper (upper_map env) (js_string (or_else v (JStr (lit ''AND'')))) = lit ''OR'' then L_OR else L_AND)"

text \<open>A property of \<^verbatim>\<open>where\<close>, as the rule object that is normalised.\<close>

definition where_rule :: "jstring \<times> jsv \<Rightarrow> jsv" where
  "where_rule e = JObj [(lit ''path'', JStr (fst e)), (lit ''mode'', JStr (lit ''full'')), (lit ''value'', snd e)]"

definition prune_rule_items :: "props \<Rightarrow> jsv list" where
  "prune_rule_items ps =
     (let wh = obj_get (lit ''where'') ps; cs = obj_get (lit ''conditions'') ps in
      (if is_plain_object wh then map where_rule (entries_of wh) else []) @
      (case cs of
         JArr vs \<Rightarrow> filter (\<lambda>v. truthy v \<and> type_of v = lit ''object'') vs
       | JObj qs \<Rightarrow> map where_rule qs
       | _ \<Rightarrow> []))"

definition parsePruneObjectsDraft :: "js_env \<Rightarrow> jstring \<Rightarrow> nat \<Rightarrow> prune_draft \<times> nat" where
  "parsePruneObjectsDraft env valueText seed =
     (let raw = trim valueText in
      if raw = [] then (pd_defaults, seed)
      else case json_parse raw of
        None \<Rightarrow> (pd_defaults\<lparr>pd_typeText := raw\<rparr>, seed)
      | Some (JStr t) \<Rightarrow> (pd_defaults\<lparr>pd_typeText := trim t\<rparr>, seed)
      | Some (JObj ps) \<Rightarrow>
          (let g = (\<lambda>k. obj_get (lit k) ps) in
           case map_ids (normalizeCondition env) (prune_rule_items ps) seed of
             None \<Rightarrow> (pd_defaults\<lparr>pd_typeText := raw\<rparr>, seed)
           | Some (rules, seed') \<Rightarrow>
               (\<lparr>pd_simpleMode = (g ''logic'' = JUndef \<and> g ''recursive'' = JUndef \<and> g ''where'' = JUndef \<and>
                   g ''conditions'' = JUndef),
                 pd_typeText = (if g ''type'' = JUndef then [] else trim (js_string (g ''type''))),
                 pd_logic = prune_logic_of env (g ''logic''),
                 pd_recursive = (g ''recursive'' \<noteq> JBool False), pd_rules = rules\<rparr>, seed'))
      | Some v \<Rightarrow> (pd_defaults\<lparr>pd_typeText := trim (js_string (nullish v (JStr [])))\<rparr>, seed))"

definition prune_condition :: "condition \<Rightarrow> jsv" where
  "prune_condition rule =
     (let valueRaw = trim (cond_value_text rule);
          p = obj_of_list [(lit ''path'', JStr (trim (cond_path rule))),
            (lit ''mode'', JStr (cond_mode_text (cond_mode rule)))];
          p = set_if (valueRaw \<noteq> []) ''value'' (parseLooseValue valueRaw) p;
          p = set_if (cond_invert rule) ''invert'' (JBool True) p;
          p = set_if (cond_pass_missing_key rule) ''pass_missing_key'' (JBool True) p
      in JObj p)"

definition buildPruneObjectsValueText :: "prune_draft \<Rightarrow> jstring" where
  "buildPruneObjectsValueText draft =
     (let typeText = trim (pd_typeText draft) in
      if pd_simpleMode draft then typeText
      else
        (let conditions = map prune_condition (filter (\<lambda>r. trim (cond_path r) \<noteq> []) (pd_rules draft));
             payload = set_if (typeText \<noteq> []) ''type'' (JStr typeText) [];
             payload = set_if (pd_logic draft = L_OR) ''logic'' (JStr (lit ''OR'')) payload;
             payload = set_if (\<not> pd_recursive draft) ''recursive'' (JBool False) payload;
             payload = set_if (conditions \<noteq> []) ''conditions'' (JArr conditions) payload
         in if typeText = [] \<and> conditions = []
            then json_stringify (JObj [(lit ''logic'', JStr (lit ''AND''))])
            else json_stringify (JObj payload)))"

section \<open>Targets of field synchronisation\<close>

datatype sync_type = S_json | S_header

definition parseSyncTargetSpec :: "js_env \<Rightarrow> jstring \<Rightarrow> sync_type \<times> jstring" where
  "parseSyncTargetSpec env spec =
     (let raw = trim spec in
      if raw = [] then (S_json, [])
      else case index_of raw [58] of
        None \<Rightarrow> (S_json, raw)
      | Some idx \<Rightarrow>
          (let prefix = to_lower (lower_map env) (trim (slice 0 idx raw));
               key = trim (slice_from (idx + 1) raw)
           in if prefix = lit ''header'' then (S_header, key) else (S_json, key)))"

definition buildSyncTargetSpec :: "sync_type \<Rightarrow> jstring \<Rightarrow> jstring" where
  "buildSyncTargetSpec typ key =
     (let normalizedType = (if typ = S_header then lit ''header'' else lit ''json''); normalizedKey = trim key
      in if normalizedKey = [] then [] else normalizedType @ [58] @ normalizedKey)"

section \<open>Order, summary and blank operations\<close>

datatype drop_position = P_before | P_after

definition reorderOperations :: "operation list \<Rightarrow> jstring \<Rightarrow> jstring \<Rightarrow> drop_position \<Rightarrow> operation list" where
  "reorderOperations ops sourceId targetId position =
     (if sourceId = [] \<or> targetId = [] \<or> sourceId = targetId then ops
      else case find_index (\<lambda>o'. op_id o' = sourceId) ops of
        None \<Rightarrow> ops
      | Some si \<Rightarrow>
          (let moved = ops ! si; nextOps = remove_at si ops in
           case find_index (\<lambda>o'. op_id o' = targetId) nextOps of
             None \<Rightarrow> ops
           | Some ti \<Rightarrow> insert_at (if position = P_after then ti + 1 else ti) moved nextOps))"

text \<open>The summary line; \<open>label\<close> is \<^verbatim>\<open>OPERATION_MODE_LABEL_MAP\<close>, the Chinese option labels.\<close>

definition first_nonempty :: "jstring list \<Rightarrow> jstring" where
  "first_nonempty xs = (case List.find (\<lambda>s. s \<noteq> []) xs of Some s \<Rightarrow> s | None \<Rightarrow> [45])"

definition getOperationSummary :: "(op_mode \<Rightarrow> jstring) \<Rightarrow> operation \<Rightarrow> nat \<Rightarrow> jstring" where
  "getOperationSummary label op index =
     (let from = trim (op_from op); to = trim (op_to op);
          subject = (if op_mode op = M_sync_fields then first_nonempty [from, to]
                     else first_nonempty [trim (op_path op), from, to])
      in show_nat (index + 1) @ lit ''. '' @ label (op_mode op) @ [32, 183, 32] @ subject)"

definition getOperationModeTagColor :: "op_mode \<Rightarrow> string" where
  "getOperationModeTagColor m =
     (let has = (\<lambda>s. includes_str (op_mode_text m) (lit s)) in
      if has ''header'' then ''cyan''
      else if has ''replace'' \<or> has ''trim'' then ''violet''
      else if has ''copy'' \<or> has ''move'' then ''blue''
      else if has ''error'' \<or> has ''prune'' then ''red''
      else if has ''sync'' then ''green'' else ''grey'')"

definition isOperationBlank :: "operation \<Rightarrow> bool" where
  "isOperationBlank op =
     (let hasCondition = list_ex (\<lambda>c. trim (cond_path c) \<noteq> [] \<or> trim (cond_value_text c) \<noteq> [] \<or>
            cond_mode c \<noteq> C_full \<or> cond_invert c \<or> cond_pass_missing_key c) (op_conditions op)
      in op_mode op = M_set \<and> trim (op_path op) = [] \<and> trim (op_from op) = [] \<and> trim (op_to op) = [] \<and>
         trim (op_value_text op) = [] \<and> \<not> op_keep_origin op \<and> \<not> hasCondition)"

section \<open>Validation\<close>

datatype po_error =
    MissingPath nat | MissingFrom nat | MissingTo nat | MissingValue nat
  | ReturnErrorNeedsMessage nat | PruneMissing nat | PruneNeedsCondition nat
  | HeadersMissing nat | HeadersInvalid nat
  | BadJson | LegacyNotObject | NotJsonObject | JsonFormatError
  | LegacyAppendBadJson | LegacyAppendNotObject | NoOperationSelected | TargetNotSupported
  | ValueNotJson | TypeError

definition return_error_invalid :: "jstring \<Rightarrow> bool" where
  "return_error_invalid raw = (case json_parse raw of
       Some (JObj ps) \<Rightarrow> trim (js_string (or_else (obj_get (lit ''message'') ps) (JStr []))) = []
     | _ \<Rightarrow> False)"

definition prune_without_condition :: "jstring \<Rightarrow> bool" where
  "prune_without_condition raw = (case json_parse raw of
       Some (JObj ps) \<Rightarrow>
         (let g = (\<lambda>k. obj_get (lit k) ps);
              hasType = (g ''type'' \<noteq> JUndef \<and> trim (js_string (g ''type'')) \<noteq> []);
              hasWhere = (is_plain_object (g ''where'') \<and> obj_keys (entries_of (g ''where'')) \<noteq> []);
              hasConditionsArray = (is_array (g ''conditions'') \<and> entries_of (g ''conditions'') \<noteq> []);
              hasConditionsObject = (is_plain_object (g ''conditions'') \<and> obj_keys (entries_of (g ''conditions'')) \<noteq> [])
          in \<not> hasType \<and> \<not> hasWhere \<and> \<not> hasConditionsArray \<and> \<not> hasConditionsObject)
     | _ \<Rightarrow> False)"

text \<open>The checks of one operation, in the order of the loop body; \<open>None\<close> goes on to the next.\<close>

definition validateOperation :: "nat \<Rightarrow> operation \<Rightarrow> po_error option" where
  "validateOperation line op =
     (let mode = op_mode op; meta = MODE_META mode; pathValue = trim (op_path op);
          fromValue = trim (op_from op); toValue = trim (op_to op); raw = trim (op_value_text op) in
      if meta_path meta \<and> pathValue = [] then Some (MissingPath line)
      else if mode \<in> FROM_REQUIRED_MODES \<and> fromValue = [] \<and> \<not> (meta_pathAlias meta \<and> pathValue \<noteq> [])
        then Some (MissingFrom line)
      else if mode \<in> TO_REQUIRED_MODES \<and> toValue = [] \<and> \<not> (meta_pathAlias meta \<and> pathValue \<noteq> [])
        then Some (MissingTo line)
      else if meta_from meta \<and> fromValue = [] then Some (MissingFrom line)
      else if meta_to meta \<and> toValue = [] then Some (MissingTo line)
      else if mode \<in> VALUE_REQUIRED_MODES \<and> raw = [] then Some (MissingValue line)
      else if mode = M_return_error \<and> raw = [] then Some (MissingValue line)
      else if mode = M_return_error \<and> return_error_invalid raw then Some (ReturnErrorNeedsMessage line)
      else if mode = M_prune_objects \<and> raw = [] then Some (PruneMissing line)
      else if mode = M_prune_objects \<and> prune_without_condition raw then Some (PruneNeedsCondition line)
      else if mode = M_pass_headers \<and> raw = [] then Some (HeadersMissing line)
      else if mode = M_pass_headers \<and> parsePassHeaderNames (parseLooseValue raw) = []
        then Some (HeadersInvalid line)
      else None)"

fun validate_from :: "nat \<Rightarrow> operation list \<Rightarrow> po_error option" where
  "validate_from i [] = None"
| "validate_from i (op # ops) = (case validateOperation (i + 1) op of
       Some e \<Rightarrow> Some e
     | None \<Rightarrow> validate_from (i + 1) ops)"

definition validateOperations :: "operation list \<Rightarrow> po_error option" where
  "validateOperations ops = validate_from 0 ops"

section \<open>Printing\<close>

definition buildConditionPayload :: "condition \<Rightarrow> jsv option" where
  "buildConditionPayload c =
     (let path = trim (cond_path c) in
      if path = [] then None
      else
        (let p = obj_of_list [(lit ''path'', JStr path), (lit ''mode'', JStr (cond_mode_text (cond_mode c))),
               (lit ''value'', parseLooseValue (cond_value_text c))];
             p = set_if (cond_invert c) ''invert'' (JBool True) p;
             p = set_if (cond_pass_missing_key c) ''pass_missing_key'' (JBool True) p
         in Some (JObj p)))"

definition operation_payload :: "operation \<Rightarrow> jsv" where
  "operation_payload op =
     (let meta = MODE_META (op_mode op); description = trim (op_description op);
          path = trim (op_path op); from = trim (op_from op); to = trim (op_to op);
          conditions = List.map_filter buildConditionPayload (op_conditions op);
          p = [(lit ''mode'', JStr (op_mode_text (op_mode op)))];
          p = set_if (description \<noteq> []) ''description'' (JStr description) p;
          p = set_if (meta_path meta) ''path'' (JStr path) p;
          p = set_if (meta_pathOptional meta \<and> path \<noteq> []) ''path'' (JStr path) p;
          p = set_if (meta_value meta) ''value'' (parseLooseValue (op_value_text op)) p;
          p = set_if (meta_keepOrigin meta \<and> op_keep_origin op) ''keep_origin'' (JBool True) p;
          p = set_if (meta_from meta) ''from'' (JStr from) p;
          p = set_if (\<not> meta_to meta \<and> to \<noteq> []) ''to'' (JStr to) p;
          p = set_if (meta_to meta) ''to'' (JStr to) p;
          p = set_if (meta_pathAlias meta \<and> \<not> truthy (obj_get (lit ''from'') p) \<and> path \<noteq> []) ''from'' (JStr path) p;
          p = set_if (meta_pathAlias meta \<and> \<not> truthy (obj_get (lit ''to'') p) \<and> path \<noteq> []) ''to'' (JStr path) p;
          p = set_if (conditions \<noteq> []) ''conditions'' (JArr conditions) p;
          p = set_if (conditions \<noteq> []) ''logic'' (JStr (logic_text (op_logic op))) p
      in JObj p)"

definition buildOperationsJson :: "operation list \<Rightarrow> bool \<Rightarrow> po_error + jstring" where
  "buildOperationsJson ops validate =
     (let filteredOps = filter (\<lambda>op. \<not> isOperationBlank op) ops in
      if filteredOps = [] then Inr []
      else case (if validate then validateOperations filteredOps else None) of
        Some e \<Rightarrow> Inl e
      | None \<Rightarrow>
          Inr (json_stringify2 (JObj [(lit ''operations'', JArr (map operation_payload filteredOps))])))"

end
