(* ===== verification/Param_Editor.thy ===== *)
theory Param_Editor
  imports Param_Model
begin

text \<open>
  The parameter override editor as a state machine: \<^verbatim>\<open>ParamOverrideEditorModal\<close> of
  \<^verbatim>\<open>components/table/channels/modals/ParamOverrideEditorModal.jsx\<close>. The record \<open>po_state\<close> has one
  field per \<^verbatim>\<open>useState\<close>, the module variable \<^verbatim>\<open>localIdSeed\<close>, and the list of outward effects (toasts
  and \<^verbatim>\<open>onSave\<close> calls). Every handler is a function from the state it closes over to the next one;
  functional updates see the same state, since a handler runs between two renders. The effects
  that follow a render are \<open>effect_select\<close> and \<open>effect_preset\<close>.
\<close>

section \<open>Templates\<close>

definition LEGACY_TEMPLATE :: jsv where
  "LEGACY_TEMPLATE = JObj [(lit ''temperature'', JNum (Fin 0)), (lit ''max_tokens'', JNum (Fin 1000))]"

abbreviation str_prop :: "string \<Rightarrow> string \<Rightarrow> jstring \<times> jsv" where
  "str_prop k v \<equiv> (lit k, JStr (lit v))"

abbreviation null_prop :: "string \<Rightarrow> jstring \<times> jsv" where
  "null_prop k \<equiv> (lit k, JNull)"

definition OPERATION_TEMPLATE :: "jsv list" where
  "OPERATION_TEMPLATE =
     [JObj [str_prop ''description'' ''Set default temperature for openai/* models.'',
        str_prop ''path'' ''temperature'', str_prop ''mode'' ''set'', (lit ''value'', JNum (double (7 / 10))),
        (lit ''conditions'', JArr [JObj [str_prop ''path'' ''model'', str_prop ''mode'' ''prefix'',
           str_prop ''value'' ''openai/'']]),
        str_prop ''logic'' ''AND'']]"

definition HEADER_PASSTHROUGH_TEMPLATE :: "jsv list" where
  "HEADER_PASSTHROUGH_TEMPLATE =
     [JObj [str_prop ''description'' ''Pass through X-Request-Id header to upstream.'',
        str_prop ''mode'' ''pass_headers'', (lit ''value'', JArr [JStr (lit ''X-Request-Id'')]),
        (lit ''keep_origin'', JBool True)]]"

definition GEMINI_IMAGE_4K_TEMPLATE :: "jsv list" where
  "GEMINI_IMAGE_4K_TEMPLATE =
     [JObj [str_prop ''description'' ''Set imageSize to 4K when model contains gemini/image and ends with 4k.'',
        str_prop ''mode'' ''set'', str_prop ''path'' ''generationConfig.imageConfig.imageSize'',
        str_prop ''value'' ''4K'',
        (lit ''conditions'', JArr
          [JObj [str_prop ''path'' ''original_model'', str_prop ''mode'' ''contains'', str_prop ''value'' ''gemini''],
           JObj [str_prop ''path'' ''original_model'', str_prop ''mode'' ''contains'', str_prop ''value'' ''image''],
           JObj [str_prop ''path'' ''original_model'', str_prop ''mode'' ''suffix'', str_prop ''value'' ''4k'']]),
        str_prop ''logic'' ''AND'']]"

definition AWS_BEDROCK_ANTHROPIC_COMPAT_TEMPLATE :: "jsv list" where
  "AWS_BEDROCK_ANTHROPIC_COMPAT_TEMPLATE =
     [JObj [str_prop ''description'' ''Normalize anthropic-beta header tokens for Bedrock compatibility.'',
        str_prop ''mode'' ''set_header'', str_prop ''path'' ''anthropic-beta'',
        (lit ''value'', JObj
          [str_prop ''advanced-tool-use-2025-11-20'' ''tool-search-tool-2025-10-19'',
           null_prop ''bash_20241022'', null_prop ''bash_20250124'', null_prop ''code-execution-2025-08-25'',
           str_prop ''compact-2026-01-12'' ''compact-2026-01-12'',
           str_prop ''computer-use-2025-01-24'' ''computer-use-2025-01-24'',
           str_prop ''computer-use-2025-11-24'' ''computer-use-2025-11-24'',
           str_prop ''context-1m-2025-08-07'' ''context-1m-2025-08-07'',
           str_prop ''context-management-2025-06-27'' ''context-management-2025-06-27'',
           null_prop ''effort-2025-11-24'', null_prop ''fast-mode-2026-02-01'', null_prop ''files-api-2025-04-14'',
           null_prop ''fine-grained-tool-streaming-2025-05-14'',
           str_prop ''interleaved-thinking-2025-05-14'' ''interleaved-thinking-2025-05-14'',
           null_prop ''mcp-client-2025-11-20'', null_prop ''mcp-client-2025-04-04'',
           null_prop ''mcp-servers-2025-12-04'', null_prop ''output-128k-2025-02-19'',
           null_prop ''structured-output-2024-03-01'', null_prop ''prompt-caching-scope-2026-01-05'',
           null_prop ''skills-2025-10-02'', null_prop ''structured-outputs-2025-11-13'',
           null_prop ''text_editor_20241022'', null_prop ''text_editor_20250124'',
           null_prop ''token-efficient-tools-2025-02-19'',
           str_prop ''tool-search-tool-2025-10-19'' ''tool-search-tool-2025-10-19'',
           null_prop ''web-fetch-2025-09-10'', null_prop ''web-search-2025-03-05'', null_prop ''oauth-2025-04-20''])],
      JObj [str_prop ''description'' ''Remove all tools[*].custom.input_examples before upstream relay.'',
        str_prop ''mode'' ''delete'', str_prop ''path'' ''tools.*.custom.input_examples'']]"

definition buildPassHeadersTemplate :: "string list \<Rightarrow> jsv list" where
  "buildPassHeadersTemplate headers =
     [JObj [str_prop ''mode'' ''pass_headers'', (lit ''value'', JArr (map (\<lambda>h. JStr (lit h)) headers)),
        (lit ''keep_origin'', JBool True)]]"

definition CODEX_CLI_HEADER_PASSTHROUGH_HEADERS :: "string list" where
  "CODEX_CLI_HEADER_PASSTHROUGH_HEADERS =
     [''Originator'', ''Session_id'', ''User-Agent'', ''X-Codex-Beta-Features'', ''X-Codex-Turn-Metadata'']"

definition CLAUDE_CLI_HEADER_PASSTHROUGH_HEADERS :: "string list" where
  "CLAUDE_CLI_HEADER_PASSTHROUGH_HEADERS =
     [''X-Stainless-Arch'', ''X-Stainless-Lang'', ''X-Stainless-Os'', ''X-Stainless-Package-Version'',
      ''X-Stainless-Retry-Count'', ''X-Stainless-Runtime'', ''X-Stainless-Runtime-Version'',
      ''X-Stainless-Timeout'', ''User-Agent'', ''X-App'', ''Anthropic-Beta'',
      ''Anthropic-Dangerous-Direct-Browser-Access'', ''Anthropic-Version'']"

text \<open>
  \<^verbatim>\<open>TEMPLATE_PRESET_CONFIG\<close>: key, group and payload; a legacy payload is an object, an operations
  payload the list under its \<^verbatim>\<open>operations\<close> key.
\<close>

datatype preset_payload = Preset_legacy jsv | Preset_operations "jsv list"

definition TEMPLATE_PRESET_CONFIG :: "(string \<times> string \<times> preset_payload) list" where
  "TEMPLATE_PRESET_CONFIG =
     [(''operations_default'', ''basic'', Preset_operations OPERATION_TEMPLATE),
      (''legacy_default'', ''basic'', Preset_legacy LEGACY_TEMPLATE),
      (''pass_headers_auth'', ''scenario'', Preset_operations HEADER_PASSTHROUGH_TEMPLATE),
      (''gemini_image_4k'', ''scenario'', Preset_operations GEMINI_IMAGE_4K_TEMPLATE),
      (''claude_cli_headers_passthrough'', ''scenario'',
         Preset_operations (buildPassHeadersTemplate CLAUDE_CLI_HEADER_PASSTHROUGH_HEADERS)),
      (''codex_cli_headers_passthrough'', ''scenario'',
         Preset_operations (buildPassHeadersTemplate CODEX_CLI_HEADER_PASSTHROUGH_HEADERS)),
      (''aws_bedrock_anthropic_beta_override'', ''scenario'',
         Preset_operations AWS_BEDROCK_ANTHROPIC_COMPAT_TEMPLATE)]"

section \<open>State\<close>

datatype edit_mode = E_visual | E_json
datatype visual_mode = V_operations | V_legacy
datatype guide_target = T_path | T_from | T_to

datatype po_effect = ShowError po_error | ShowFormatted | Saved jstring

record po_state =
  st_editMode :: edit_mode
  st_visualMode :: visual_mode
  st_legacyValue :: jstring
  st_operations :: "operation list"
  st_jsonText :: jstring
  st_jsonError :: "po_error option"
  st_operationSearch :: jstring
  st_selectedOperationId :: jstring
  st_expandedConditionMap :: "(jstring \<times> jstring list) list"
  st_draggedOperationId :: jstring
  st_dragOverOperationId :: jstring
  st_dragOverPosition :: drop_position
  st_templateGroupKey :: string
  st_templatePresetKey :: string
  st_headerValueExampleVisible :: bool
  st_fieldGuideVisible :: bool
  st_fieldGuideTarget :: guide_target
  st_fieldGuideKeyword :: jstring
  st_seed :: nat
  st_crashed :: bool
  st_out :: "po_effect list"

definition emit :: "po_effect \<Rightarrow> po_state \<Rightarrow> po_state" where
  "emit e st = st\<lparr>st_out := st_out st @ [e]\<rparr>"

text \<open>\<^verbatim>\<open>verifyJSON\<close> of the helpers.\<close>

definition verifyJSON :: "jstring \<Rightarrow> bool" where
  "verifyJSON s \<longleftrightarrow> json_parse s \<noteq> None"

text \<open>The result of \<^verbatim>\<open>parseInitialState\<close>; \<open>None\<close> is the TypeError of a \<^verbatim>\<open>null\<close> operation.\<close>

record initial_state =
  in_editMode :: edit_mode
  in_visualMode :: visual_mode
  in_legacyValue :: jstring
  in_operations :: "operation list"
  in_jsonText :: jstring
  in_jsonError :: "po_error option"

definition default_operations :: "js_env \<Rightarrow> nat \<Rightarrow> operation list \<times> nat" where
  "default_operations env seed = (case createDefaultOperation env seed of (op, seed') \<Rightarrow> ([op], seed'))"

definition operations_of_items :: "js_env \<Rightarrow> jsv list \<Rightarrow> nat \<Rightarrow> (operation list \<times> nat) option" where
  "operations_of_items env items seed =
     (if items \<noteq> [] then map_ids (normalizeOperation env) items seed
      else Some (default_operations env seed))"

definition parseInitialState :: "js_env \<Rightarrow> jsv \<Rightarrow> nat \<Rightarrow> (initial_state \<times> nat) option" where
  "parseInitialState env rawValue seed =
     (let txtv = str_or_empty rawValue; trimmed = trim txtv; (dflt, seed1) = default_operations env seed in
      if trimmed = [] then
        Some (\<lparr>in_editMode = E_visual, in_visualMode = V_operations, in_legacyValue = [],
          in_operations = dflt, in_jsonText = [], in_jsonError = None\<rparr>, seed1)
      else case json_parse trimmed of
        None \<Rightarrow>
          Some (\<lparr>in_editMode = E_json, in_visualMode = V_operations, in_legacyValue = [],
            in_operations = dflt, in_jsonText = txtv, in_jsonError = Some JsonFormatError\<rparr>, seed1)
      | Some parsed \<Rightarrow>
          (let pretty = json_stringify2 parsed in
           case parsed of
             JObj ps \<Rightarrow>
               (case obj_get (lit ''operations'') ps of
                  JArr items \<Rightarrow>
                    (case operations_of_items env items seed of
                       None \<Rightarrow> None
                     | Some (ops, seed2) \<Rightarrow>
                         Some (\<lparr>in_editMode = E_visual, in_visualMode = V_operations, in_legacyValue = [],
                           in_operations = ops, in_jsonText = pretty, in_jsonError = None\<rparr>, seed2))
                | _ \<Rightarrow>
                    Some (\<lparr>in_editMode = E_visual, in_visualMode = V_legacy, in_legacyValue = pretty,
                      in_operations = dflt, in_jsonText = pretty, in_jsonError = None\<rparr>, seed1))
           | _ \<Rightarrow>
               Some (\<lparr>in_editMode = E_json, in_visualMode = V_operations, in_legacyValue = [],
                 in_operations = dflt, in_jsonText = pretty, in_jsonError = None\<rparr>, seed1)))"

definition first_id :: "operation list \<Rightarrow> jstring" where
  "first_id ops = (case ops of [] \<Rightarrow> [] | op # _ \<Rightarrow> op_id op)"

section \<open>Effects after a render\<close>

text \<open>The effect on \<^verbatim>\<open>[visible, value]\<close>; an exception in an effect unmounts the component.\<close>

definition effect_open :: "js_env \<Rightarrow> bool \<Rightarrow> jsv \<Rightarrow> po_state \<Rightarrow> po_state" where
  "effect_open env visible v st =
     (if \<not> visible then st
      else case parseInitialState env v (st_seed st) of
        None \<Rightarrow> st\<lparr>st_crashed := True\<rparr>
      | Some (ini, seed') \<Rightarrow>
          st\<lparr>st_editMode := in_editMode ini, st_visualMode := in_visualMode ini,
             st_legacyValue := in_legacyValue ini, st_operations := in_operations ini,
             st_jsonText := in_jsonText ini, st_jsonError := in_jsonError ini, st_operationSearch := [],
             st_selectedOperationId := first_id (in_operations ini), st_expandedConditionMap := [],
             st_draggedOperationId := [], st_dragOverOperationId := [], st_dragOverPosition := P_before,
             st_templateGroupKey := ''basic'',
             st_templatePresetKey := (if in_visualMode ini = V_legacy then ''legacy_default'' else ''operations_default''),
             st_headerValueExampleVisible := False, st_fieldGuideVisible := False,
             st_fieldGuideTarget := T_path, st_fieldGuideKeyword := [], st_seed := seed'\<rparr>)"

definition effect_select :: "po_state \<Rightarrow> po_state" where
  "effect_select st =
     (if st_operations st = [] then st\<lparr>st_selectedOperationId := []\<rparr>
      else if \<not> list_ex (\<lambda>op. op_id op = st_selectedOperationId st) (st_operations st)
        then st\<lparr>st_selectedOperationId := op_id (hd (st_operations st))\<rparr>
      else st)"

definition templatePresetOptions :: "string \<Rightarrow> string list" where
  "templatePresetOptions grp = map fst (filter (\<lambda>(k, g, _). g = grp) TEMPLATE_PRESET_CONFIG)"

definition effect_preset :: "po_state \<Rightarrow> po_state" where
  "effect_preset st =
     (let opts = templatePresetOptions (st_templateGroupKey st) in
      if opts = [] then st
      else if st_templatePresetKey st \<in> set opts then st
      else st\<lparr>st_templatePresetKey := hd opts\<rparr>)"

section \<open>Derived values\<close>

definition operationCount :: "po_state \<Rightarrow> nat" where
  "operationCount st = length (filter (\<lambda>op. \<not> isOperationBlank op) (st_operations st))"

definition searchable_text :: "js_env \<Rightarrow> jstring list \<Rightarrow> jstring" where
  "searchable_text env xs = to_lower (lower_map env) (join [32] (filter (\<lambda>s. s \<noteq> []) xs))"

definition filteredOperations :: "js_env \<Rightarrow> po_state \<Rightarrow> operation list" where
  "filteredOperations env st =
     (let keyword = to_lower (lower_map env) (trim (st_operationSearch st)) in
      if keyword = [] then st_operations st
      else filter (\<lambda>op. includes_str (searchable_text env
             [op_description op, op_mode_text (op_mode op), op_path op, op_from op, op_to op, op_value_text op]) keyword)
           (st_operations st))"

definition selectedOperation :: "po_state \<Rightarrow> operation option" where
  "selectedOperation st = List.find (\<lambda>op. op_id op = st_selectedOperationId st) (st_operations st)"

definition topOperationModes :: "po_state \<Rightarrow> (op_mode \<times> nat) list" where
  "topOperationModes st =
     (let modes = map op_mode (st_operations st);
          counts = map (\<lambda>m. (m, length (filter (\<lambda>x. x = m) modes))) (dedup modes)
      in take 4 (stable_sort (\<lambda>a b. snd b \<le> snd a) counts))"

text \<open>The field guide: \<open>sections\<close> is \<^verbatim>\<open>BUILTIN_FIELD_SECTIONS\<close>, titles with (key, label, tip) rows.\<close>

type_synonym guide_sections = "(jstring \<times> (jstring \<times> jstring \<times> jstring) list) list"

definition filteredFieldGuideSections :: "js_env \<Rightarrow> guide_sections \<Rightarrow> po_state \<Rightarrow> guide_sections" where
  "filteredFieldGuideSections env sections st =
     (let keyword = to_lower (lower_map env) (trim (st_fieldGuideKeyword st)) in
      if keyword = [] then sections
      else filter (\<lambda>(_, fields). fields \<noteq> [])
        (map (\<lambda>(title, fields). (title,
           filter (\<lambda>(key, label, tip). includes_str (searchable_text env [key, label, tip]) keyword) fields)) sections))"

definition fieldGuideFieldCount :: "js_env \<Rightarrow> guide_sections \<Rightarrow> po_state \<Rightarrow> nat" where
  "fieldGuideFieldCount env sections st =
     foldl (\<lambda>total sec. total + length (snd sec)) 0 (filteredFieldGuideSections env sections st)"

definition buildVisualJson :: "po_state \<Rightarrow> po_error + jstring" where
  "buildVisualJson st =
     (if st_visualMode st = V_legacy then
        (let trimmed = trim (st_legacyValue st) in
         if trimmed = [] then Inr []
         else case json_parse trimmed of
           None \<Rightarrow> Inl BadJson
         | Some parsed \<Rightarrow>
             if \<not> is_plain_object parsed then Inl LegacyNotObject else Inr (json_stringify2 parsed))
      else buildOperationsJson (st_operations st) True)"

definition visualValidationError :: "po_state \<Rightarrow> po_error option" where
  "visualValidationError st =
     (if st_editMode st \<noteq> E_visual then None
      else case buildVisualJson st of Inl e \<Rightarrow> Some e | Inr _ \<Rightarrow> None)"

section \<open>Switching the edit mode\<close>

definition switchToJsonMode :: "po_state \<Rightarrow> po_state" where
  "switchToJsonMode st =
     (if st_editMode st = E_json then st
      else
        (let st' = (case buildVisualJson st of
             Inr txtv \<Rightarrow> st\<lparr>st_jsonText := txtv, st_jsonError := None\<rparr>
           | Inl e \<Rightarrow>
               (emit (ShowError e) st)\<lparr>st_jsonText :=
                  (if st_visualMode st = V_legacy then st_legacyValue st
                   else case buildOperationsJson (st_operations st) False of Inr txtv \<Rightarrow> txtv | Inl _ \<Rightarrow> []),
                st_jsonError := Some e\<rparr>)
         in st'\<lparr>st_editMode := E_json\<rparr>))"

definition show_operations :: "operation list \<times> nat \<Rightarrow> po_state \<Rightarrow> po_state" where
  "show_operations os st =
     st\<lparr>st_operations := fst os, st_selectedOperationId := first_id (fst os), st_seed := snd os\<rparr>"

definition switchToVisualMode :: "js_env \<Rightarrow> po_state \<Rightarrow> po_state" where
  "switchToVisualMode env st =
     (if st_editMode st = E_visual then st
      else
        (let trimmed = trim (st_jsonText st); fallback = default_operations env (st_seed st) in
         if trimmed = [] then
           (show_operations fallback st)\<lparr>st_visualMode := V_operations, st_legacyValue := [],
             st_jsonError := None, st_editMode := E_visual\<rparr>
         else case json_parse trimmed of
           None \<Rightarrow> emit (ShowError BadJson) st
         | Some parsed \<Rightarrow>
             (case parsed of
                JObj ps \<Rightarrow>
                  (case obj_get (lit ''operations'') ps of
                     JArr items \<Rightarrow>
                       (case operations_of_items env items (st_seed st) of
                          None \<Rightarrow> emit (ShowError TypeError) st
                        | Some os \<Rightarrow>
                            (show_operations os st)\<lparr>st_visualMode := V_operations, st_legacyValue := [],
                              st_jsonError := None, st_editMode := E_visual, st_templateGroupKey := ''basic'',
                              st_templatePresetKey := ''operations_default''\<rparr>)
                   | _ \<Rightarrow>
                       (show_operations fallback st)\<lparr>st_visualMode := V_legacy,
                         st_legacyValue := json_stringify2 parsed, st_jsonError := None, st_editMode := E_visual,
                         st_templateGroupKey := ''basic'', st_templatePresetKey := ''legacy_default''\<rparr>)
              | _ \<Rightarrow> emit (ShowError NotJsonObject) st)))"

section \<open>Templates and reset\<close>

definition fillLegacyTemplate :: "js_env \<Rightarrow> jsv \<Rightarrow> po_state \<Rightarrow> po_state" where
  "fillLegacyTemplate env payload st =
     (let txtv = json_stringify2 payload in
      (show_operations (default_operations env (st_seed st)) st)\<lparr>st_visualMode := V_legacy,
        st_legacyValue := txtv, st_expandedConditionMap := [], st_jsonText := txtv, st_jsonError := None,
        st_editMode := E_visual\<rparr>)"

definition fillOperationsTemplate :: "js_env \<Rightarrow> jsv list \<Rightarrow> po_state \<Rightarrow> po_state" where
  "fillOperationsTemplate env items st =
     (case operations_of_items env items (st_seed st) of
        None \<Rightarrow> emit (ShowError TypeError) st
      | Some os \<Rightarrow>
          (show_operations os st)\<lparr>st_visualMode := V_operations, st_expandedConditionMap := [],
            st_jsonText := json_stringify2 (JObj [(lit ''operations'', JArr items)]), st_jsonError := None,
            st_editMode := E_visual\<rparr>)"

definition appendLegacyTemplate :: "js_env \<Rightarrow> jsv \<Rightarrow> po_state \<Rightarrow> po_state" where
  "appendLegacyTemplate env payload st =
     (let trimmed = trim (st_legacyValue st);
          current = (if st_visualMode st = V_legacy \<and> trimmed \<noteq> [] then
             (case json_parse trimmed of
                None \<Rightarrow> Inl LegacyAppendBadJson
              | Some parsed \<Rightarrow>
                  if is_plain_object parsed then Inr (entries_of parsed) else Inl LegacyAppendNotObject)
             else Inr [])
      in case current of
           Inl e \<Rightarrow> emit (ShowError e) st
         | Inr ps \<Rightarrow> fillLegacyTemplate env (JObj (obj_assign (obj_of_list (entries_of payload)) ps)) st)"

definition appendOperationsTemplate :: "js_env \<Rightarrow> jsv list \<Rightarrow> po_state \<Rightarrow> po_state" where
  "appendOperationsTemplate env items st =
     (case map_ids (normalizeOperation env) items (st_seed st) of
        None \<Rightarrow> emit (ShowError TypeError) st
      | Some (appended, seed') \<Rightarrow>
          (let existing = (if st_visualMode st = V_operations
               then filter (\<lambda>op. \<not> isOperationBlank op) (st_operations st) else [])
           in (show_operations (existing @ appended, seed') st)\<lparr>st_visualMode := V_operations,
                st_expandedConditionMap := [], st_legacyValue := [], st_jsonError := None,
                st_editMode := E_visual, st_jsonText := []\<rparr>))"

definition clearValue :: "js_env \<Rightarrow> po_state \<Rightarrow> po_state" where
  "clearValue env st =
     (show_operations (default_operations env (st_seed st)) st)\<lparr>st_visualMode := V_operations,
       st_legacyValue := [], st_expandedConditionMap := [], st_jsonText := [], st_jsonError := None,
       st_templateGroupKey := ''basic'', st_templatePresetKey := ''operations_default''\<rparr>"

definition getSelectedTemplatePreset :: "po_state \<Rightarrow> preset_payload" where
  "getSelectedTemplatePreset st =
     (case map_of TEMPLATE_PRESET_CONFIG (st_templatePresetKey st) of
        Some (_, p) \<Rightarrow> p
      | None \<Rightarrow> Preset_operations OPERATION_TEMPLATE)"

definition fillTemplateFromLibrary :: "js_env \<Rightarrow> po_state \<Rightarrow> po_state" where
  "fillTemplateFromLibrary env st = (case getSelectedTemplatePreset st of
       Preset_legacy v \<Rightarrow> fillLegacyTemplate env v st
     | Preset_operations items \<Rightarrow> fillOperationsTemplate env items st)"

definition appendTemplateFromLibrary :: "js_env \<Rightarrow> po_state \<Rightarrow> po_state" where
  "appendTemplateFromLibrary env st = (case getSelectedTemplatePreset st of
       Preset_legacy v \<Rightarrow> appendLegacyTemplate env v st
     | Preset_operations items \<Rightarrow> appendOperationsTemplate env items st)"

definition resetEditorState :: "js_env \<Rightarrow> po_state \<Rightarrow> po_state" where
  "resetEditorState env st = (clearValue env st)\<lparr>st_editMode := E_visual\<rparr>"

section \<open>Editing one operation\<close>

text \<open>The patches the form controls pass, one constructor per field.\<close>

datatype op_patch =
    OpMode op_mode | OpPath jstring | OpDescription jstring | OpValueText jstring | OpKeepOrigin bool
  | OpFrom jstring | OpTo jstring | OpLogic logic

fun patch_op :: "op_patch \<Rightarrow> operation \<Rightarrow> operation" where
  "patch_op (OpMode m) op = op\<lparr>op_mode := m\<rparr>"
| "patch_op (OpPath s) op = op\<lparr>op_path := s\<rparr>"
| "patch_op (OpDescription s) op = op\<lparr>op_description := s\<rparr>"
| "patch_op (OpValueText s) op = op\<lparr>op_value_text := s\<rparr>"
| "patch_op (OpKeepOrigin b) op = op\<lparr>op_keep_origin := b\<rparr>"
| "patch_op (OpFrom s) op = op\<lparr>op_from := s\<rparr>"
| "patch_op (OpTo s) op = op\<lparr>op_to := s\<rparr>"
| "patch_op (OpLogic l) op = op\<lparr>op_logic := l\<rparr>"

definition map_operation :: "jstring \<Rightarrow> (operation \<Rightarrow> operation) \<Rightarrow> po_state \<Rightarrow> po_state" where
  "map_operation oid f st =
     st\<lparr>st_operations := map (\<lambda>op. if op_id op = oid then f op else op) (st_operations st)\<rparr>"

definition updateOperation :: "jstring \<Rightarrow> op_patch list \<Rightarrow> po_state \<Rightarrow> po_state" where
  "updateOperation oid patch st = map_operation oid (fold patch_op patch) st"

definition applyBuiltinField :: "jstring \<Rightarrow> guide_target \<Rightarrow> po_state \<Rightarrow> po_state" where
  "applyBuiltinField fieldKey target st = (case selectedOperation st of
       None \<Rightarrow> emit (ShowError NoOperationSelected) st
     | Some op \<Rightarrow>
         (let mode = op_mode op; meta = MODE_META mode;
              ref = (if mode = M_sync_fields then buildSyncTargetSpec S_json fieldKey else fieldKey) in
          if target = T_path \<and> (meta_path meta \<or> meta_pathOptional meta \<or> meta_pathAlias meta)
            then updateOperation (op_id op) [OpPath fieldKey] st
          else if target = T_from \<and> (meta_from meta \<or> meta_pathAlias meta \<or> mode = M_sync_fields)
            then updateOperation (op_id op) [OpFrom ref] st
          else if target = T_to \<and> (meta_to meta \<or> mode = M_sync_fields)
            then updateOperation (op_id op) [OpTo ref] st
          else emit (ShowError TargetNotSupported) st))"

definition openFieldGuide :: "guide_target \<Rightarrow> po_state \<Rightarrow> po_state" where
  "openFieldGuide target st = st\<lparr>st_fieldGuideTarget := target, st_fieldGuideVisible := True\<rparr>"

definition formatSelectedOperationValueAsJson :: "po_state \<Rightarrow> po_state" where
  "formatSelectedOperationValueAsJson st = (case selectedOperation st of
       None \<Rightarrow> st
     | Some op \<Rightarrow>
         (let raw = trim (op_value_text op) in
          if raw = [] then st
          else case json_parse raw of
            None \<Rightarrow> emit (ShowError ValueNotJson) st
          | Some v \<Rightarrow> emit ShowFormatted (updateOperation (op_id op) [OpValueText (json_stringify2 v)] st)))"

definition find_operation :: "jstring \<Rightarrow> po_state \<Rightarrow> operation option" where
  "find_operation oid st = List.find (\<lambda>op. op_id op = oid) (st_operations st)"

text \<open>\<^verbatim>\<open>updateReturnErrorDraft(id, patch)\<close>: \<open>f\<close> is the spread of the patch over the draft.\<close>

definition updateReturnErrorDraft ::
  "jstring \<Rightarrow> (return_error_draft \<Rightarrow> return_error_draft) \<Rightarrow> po_state \<Rightarrow> po_state" where
  "updateReturnErrorDraft oid f st = (case find_operation oid st of
       None \<Rightarrow> st
     | Some op \<Rightarrow>
         updateOperation oid
           [OpValueText (buildReturnErrorValueText (f (parseReturnErrorDraft (op_value_text op))))] st)"

text \<open>The updater may make ids itself, so it takes and returns the seed.\<close>

definition updatePruneObjectsDraft ::
  "js_env \<Rightarrow> jstring \<Rightarrow> (prune_draft \<Rightarrow> nat \<Rightarrow> prune_draft \<times> nat) \<Rightarrow> po_state \<Rightarrow> po_state" where
  "updatePruneObjectsDraft env oid updater st = (case find_operation oid st of
       None \<Rightarrow> st
     | Some op \<Rightarrow>
         (case parsePruneObjectsDraft env (op_value_text op) (st_seed st) of
            (draft, seed1) \<Rightarrow>
              (case updater draft seed1 of
                 (nextDraft, seed2) \<Rightarrow>
                   (updateOperation oid [OpValueText (buildPruneObjectsValueText nextDraft)] st)
                     \<lparr>st_seed := seed2\<rparr>)))"

definition addPruneRule :: "js_env \<Rightarrow> jstring \<Rightarrow> po_state \<Rightarrow> po_state" where
  "addPruneRule env oid st =
     updatePruneObjectsDraft env oid (\<lambda>draft seed. case createDefaultCondition env seed of
       (rule, seed') \<Rightarrow> (draft\<lparr>pd_simpleMode := False, pd_rules := pd_rules draft @ [rule]\<rparr>, seed')) st"

datatype cond_patch =
    CondPath jstring | CondMode cond_mode | CondValueText jstring | CondInvert bool | CondPassMissing bool

fun patch_cond :: "cond_patch \<Rightarrow> condition \<Rightarrow> condition" where
  "patch_cond (CondPath s) c = c\<lparr>cond_path := s\<rparr>"
| "patch_cond (CondMode m) c = c\<lparr>cond_mode := m\<rparr>"
| "patch_cond (CondValueText s) c = c\<lparr>cond_value_text := s\<rparr>"
| "patch_cond (CondInvert b) c = c\<lparr>cond_invert := b\<rparr>"
| "patch_cond (CondPassMissing b) c = c\<lparr>cond_pass_missing_key := b\<rparr>"

definition updatePruneRule :: "js_env \<Rightarrow> jstring \<Rightarrow> jstring \<Rightarrow> cond_patch \<Rightarrow> po_state \<Rightarrow> po_state" where
  "updatePruneRule env oid ruleId patch st =
     updatePruneObjectsDraft env oid (\<lambda>draft seed. (draft\<lparr>pd_rules :=
       map (\<lambda>r. if cond_id r = ruleId then patch_cond patch r else r) (pd_rules draft)\<rparr>, seed)) st"

definition removePruneRule :: "js_env \<Rightarrow> jstring \<Rightarrow> jstring \<Rightarrow> po_state \<Rightarrow> po_state" where
  "removePruneRule env oid ruleId st =
     updatePruneObjectsDraft env oid (\<lambda>draft seed. (draft\<lparr>pd_rules :=
       filter (\<lambda>r. cond_id r \<noteq> ruleId) (pd_rules draft)\<rparr>, seed)) st"

section \<open>The list of operations\<close>

definition addOperation :: "js_env \<Rightarrow> po_state \<Rightarrow> po_state" where
  "addOperation env st = (case createDefaultOperation env (st_seed st) of (created, seed') \<Rightarrow>
     st\<lparr>st_operations := st_operations st @ [created], st_selectedOperationId := op_id created,
        st_seed := seed'\<rparr>)"

definition resetOperationDragState :: "po_state \<Rightarrow> po_state" where
  "resetOperationDragState st =
     st\<lparr>st_draggedOperationId := [], st_dragOverOperationId := [], st_dragOverPosition := P_before\<rparr>"

definition moveOperation :: "jstring \<Rightarrow> jstring \<Rightarrow> drop_position \<Rightarrow> po_state \<Rightarrow> po_state" where
  "moveOperation sourceId targetId position st =
     (if sourceId = [] \<or> targetId = [] \<or> sourceId = targetId then st
      else st\<lparr>st_operations := reorderOperations (st_operations st) sourceId targetId position,
              st_selectedOperationId := sourceId\<rparr>)"

definition handleOperationDragStart :: "jstring \<Rightarrow> po_state \<Rightarrow> po_state" where
  "handleOperationDragStart oid st = st\<lparr>st_draggedOperationId := oid, st_selectedOperationId := oid\<rparr>"

text \<open>The pointer position and the box of the row come from the event.\<close>

definition handleOperationDragOver :: "jsnum \<Rightarrow> jsnum \<Rightarrow> jsnum \<Rightarrow> jstring \<Rightarrow> po_state \<Rightarrow> po_state" where
  "handleOperationDragOver clientY rectTop rectHeight oid st =
     (if st_draggedOperationId st = [] \<or> st_draggedOperationId st = oid then st
      else
        (let position = (if num_less (num_div rectHeight (Fin 2)) (num_sub clientY rectTop) then P_after else P_before)
         in st\<lparr>st_dragOverOperationId := oid, st_dragOverPosition := position\<rparr>))"

definition handleOperationDrop :: "jstring \<Rightarrow> jstring \<Rightarrow> po_state \<Rightarrow> po_state" where
  "handleOperationDrop transferred oid st =
     (let sourceId = (if st_draggedOperationId st \<noteq> [] then st_draggedOperationId st else transferred);
          position = (if st_dragOverOperationId st = oid then st_dragOverPosition st else P_before)
      in resetOperationDragState (moveOperation sourceId oid position st))"

definition clone_condition :: "condition \<Rightarrow> jsv" where
  "clone_condition c = JObj
     [(lit ''path'', JStr (cond_path c)), (lit ''mode'', JStr (cond_mode_text (cond_mode c))),
      (lit ''value'', parseLooseValue (cond_value_text c)), (lit ''invert'', JBool (cond_invert c)),
      (lit ''pass_missing_key'', JBool (cond_pass_missing_key c))]"

definition clone_source :: "operation \<Rightarrow> jsv" where
  "clone_source op = JObj
     [(lit ''description'', JStr (op_description op)), (lit ''path'', JStr (op_path op)),
      (lit ''mode'', JStr (op_mode_text (op_mode op))), (lit ''value'', parseLooseValue (op_value_text op)),
      (lit ''keep_origin'', JBool (op_keep_origin op)), (lit ''from'', JStr (op_from op)),
      (lit ''to'', JStr (op_to op)), (lit ''logic'', JStr (logic_text (op_logic op))),
      (lit ''conditions'', JArr (map clone_condition (op_conditions op)))]"

text \<open>
  \<^verbatim>\<open>duplicateOperation\<close>. The id of the copy is known to the handler only when React has run the
  updater by then (\<open>eager\<close>); otherwise the selection stays as it is.
\<close>

definition duplicateOperation :: "js_env \<Rightarrow> bool \<Rightarrow> jstring \<Rightarrow> po_state \<Rightarrow> po_state" where
  "duplicateOperation env eager oid st =
     (case find_index (\<lambda>op. op_id op = oid) (st_operations st) of
        None \<Rightarrow> st
      | Some i \<Rightarrow>
          (case normalizeOperation env (clone_source (st_operations st ! i)) (st_seed st) of
             None \<Rightarrow> st
           | Some (cloned, seed') \<Rightarrow>
               st\<lparr>st_operations := insert_at (i + 1) cloned (st_operations st), st_seed := seed',
                  st_selectedOperationId := (if eager then op_id cloned else st_selectedOperationId st)\<rparr>))"

definition removeOperation :: "js_env \<Rightarrow> jstring \<Rightarrow> po_state \<Rightarrow> po_state" where
  "removeOperation env oid st =
     (let (ops, seed') = (if length (st_operations st) \<le> 1 then default_operations env (st_seed st)
            else (filter (\<lambda>op. op_id op \<noteq> oid) (st_operations st), st_seed st))
      in st\<lparr>st_operations := ops, st_seed := seed',
            st_expandedConditionMap := obj_delete oid (st_expandedConditionMap st)\<rparr>)"

section \<open>Conditions\<close>

definition expanded_of :: "jstring \<Rightarrow> po_state \<Rightarrow> jstring list" where
  "expanded_of oid st = (case map_of (st_expandedConditionMap st) oid of Some ks \<Rightarrow> ks | None \<Rightarrow> [])"

definition set_expanded :: "jstring \<Rightarrow> jstring list \<Rightarrow> po_state \<Rightarrow> po_state" where
  "set_expanded oid ks st = st\<lparr>st_expandedConditionMap := obj_set oid ks (st_expandedConditionMap st)\<rparr>"

definition addCondition :: "js_env \<Rightarrow> jstring \<Rightarrow> po_state \<Rightarrow> po_state" where
  "addCondition env oid st = (case createDefaultCondition env (st_seed st) of (created, seed') \<Rightarrow>
     set_expanded oid (expanded_of oid st @ [cond_id created])
       ((map_operation oid (\<lambda>op. op\<lparr>op_conditions := op_conditions op @ [created]\<rparr>) st)\<lparr>st_seed := seed'\<rparr>))"

definition updateCondition :: "jstring \<Rightarrow> jstring \<Rightarrow> cond_patch \<Rightarrow> po_state \<Rightarrow> po_state" where
  "updateCondition oid cid patch st =
     map_operation oid (\<lambda>op. op\<lparr>op_conditions :=
       map (\<lambda>c. if cond_id c = cid then patch_cond patch c else c) (op_conditions op)\<rparr>) st"

definition removeCondition :: "jstring \<Rightarrow> jstring \<Rightarrow> po_state \<Rightarrow> po_state" where
  "removeCondition oid cid st =
     set_expanded oid (filter (\<lambda>k. k \<noteq> cid) (expanded_of oid st))
       (map_operation oid (\<lambda>op. op\<lparr>op_conditions := filter (\<lambda>c. cond_id c \<noteq> cid) (op_conditions op)\<rparr>) st)"

definition handleConditionCollapseChange :: "jstring \<Rightarrow> jstring list \<Rightarrow> po_state \<Rightarrow> po_state" where
  "handleConditionCollapseChange oid activeKeys st = set_expanded oid (filter (\<lambda>k. k \<noteq> []) activeKeys) st"

definition expandAllSelectedConditions :: "po_state \<Rightarrow> po_state" where
  "expandAllSelectedConditions st =
     (case selectedOperation st of
        None \<Rightarrow> st
      | Some op \<Rightarrow>
          if st_selectedOperationId st = [] then st
          else set_expanded (st_selectedOperationId st) (map cond_id (op_conditions op)) st)"

definition collapseAllSelectedConditions :: "po_state \<Rightarrow> po_state" where
  "collapseAllSelectedConditions st =
     (if st_selectedOperationId st = [] then st else set_expanded (st_selectedOperationId st) [] st)"

section \<open>The JSON text and saving\<close>

definition handleJsonChange :: "jstring \<Rightarrow> po_state \<Rightarrow> po_state" where
  "handleJsonChange nextValue st =
     (let trimmed = trim nextValue in
      st\<lparr>st_jsonText := nextValue,
         st_jsonError := (if trimmed = [] then None else if \<not> verifyJSON trimmed then Some JsonFormatError else None)\<rparr>)"

definition formatJson :: "po_state \<Rightarrow> po_state" where
  "formatJson st =
     (let trimmed = trim (st_jsonText st) in
      if trimmed = [] then st
      else case json_parse trimmed of
        None \<Rightarrow> emit (ShowError BadJson) st
      | Some v \<Rightarrow> st\<lparr>st_jsonText := json_stringify2 v, st_jsonError := None\<rparr>)"

definition save_result :: "po_state \<Rightarrow> po_error + jstring" where
  "save_result st =
     (if st_editMode st = E_json then
        (let trimmed = trim (st_jsonText st) in
         if trimmed = [] then Inr []
         else case json_parse trimmed of None \<Rightarrow> Inl BadJson | Some v \<Rightarrow> Inr (json_stringify2 v))
      else buildVisualJson st)"

definition handleSave :: "po_state \<Rightarrow> po_state" where
  "handleSave st = (case save_result st of
       Inr result \<Rightarrow> emit (Saved result) st
     | Inl e \<Rightarrow> emit (ShowError e) st)"

end
