(* ===== verification/Param_Facts.thy ===== *)
theory Param_Facts
  imports Param_Editor
begin

text \<open>
  Lemmas on the pure part of the parameter override editor: modes and their texts, operand texts,
  ids, what the printed payloads contain and what is read back from them.
\<close>

section \<open>Operand texts\<close>

lemma parseLooseValue_parse: "json_parse s = Some v \<Longrightarrow> parseLooseValue s = v"
  using json_parse_blank [of s] by (auto simp: parseLooseValue_def)

lemma parseLooseValue_stringify [simp]: "wf_json v \<Longrightarrow> parseLooseValue (json_stringify v) = v"
  by (rule parseLooseValue_parse) simp

lemma parseLooseValue_Nil [simp]: "parseLooseValue [] = JStr []"
  by (simp add: parseLooseValue_def)

section \<open>Modes\<close>

lemma op_mode_of_text [simp]: "op_mode_of (JStr (op_mode_text m)) = Some m"
  by (cases m) (simp_all add: op_mode_of_def OPERATION_MODES_def)

lemma cond_mode_of_text [simp]: "cond_mode_of (JStr (cond_mode_text m)) = Some m"
  by (cases m) (simp_all add: cond_mode_of_def CONDITION_MODES_def)

lemma op_logic_of_text [simp]: "op_logic_of env (JStr (logic_text l)) = l"
  by (cases l) (simp_all add: op_logic_of_def or_else_def to_upper_def lit_def)

lemmas meta_simps = no_meta_def

lemma alias_meta:
  "meta_pathAlias (MODE_META m) \<Longrightarrow>
    meta_from (MODE_META m) \<and> meta_to (MODE_META m) \<and> \<not> meta_path (MODE_META m) \<and> \<not> meta_pathOptional (MODE_META m)"
  by (cases m) (simp_all add: meta_simps)

section \<open>Stable operand texts\<close>

text \<open>
  An operand text is stable when the value it stands for can be printed as JSON and its display
  text stands for the same value.
\<close>

definition text_stable :: "jstring \<Rightarrow> bool" where
  "text_stable t = (case parseLooseValue t of
       JStr s \<Rightarrow> parseLooseValue s = JStr s
     | v \<Rightarrow> wf_json v)"

lemma text_stable_value: "text_stable t \<Longrightarrow> wf_json (parseLooseValue t)"
  by (auto simp: text_stable_def split: jsv.splits)

lemma text_stable_loose:
  "text_stable t \<Longrightarrow> parseLooseValue (toValueText (parseLooseValue t)) = parseLooseValue t"
  by (cases "parseLooseValue t") (auto simp: text_stable_def)

section \<open>Ids\<close>

definition made :: "js_env \<Rightarrow> nat \<Rightarrow> jstring set" where
  "made env n = local_id env ` {..<n}"

lemma local_id_inject: "local_id env m = local_id env n \<longleftrightarrow> m = n"
proof
  assume eq: "local_id env m = local_id env n"
  have d: "95 \<notin> set (show_nat k)" for k
    using all_digits_show_nat [of k] by (auto simp: all_digits_def is_digit_def)
  have sp: "split_on 95 (local_id env k) = [lit ''param'', lit ''override'', show_nat (clock env k), show_nat k]" for k
  proof -
    have "local_id env k = lit ''param'' @ 95 # lit ''override'' @ 95 # show_nat (clock env k) @ 95 # show_nat k"
      by (simp add: local_id_def lit_def)
    moreover have "95 \<notin> set (lit ''param'')" "95 \<notin> set (lit ''override'')" by (simp_all add: lit_def)
    ultimately show ?thesis using d by (simp add: split_on_append split_on_no_sep)
  qed
  have "split_on 95 (local_id env m) = split_on 95 (local_id env n)" using eq by simp
  then have "show_nat m = show_nat n" unfolding sp by blast
  then show "m = n" using show_nat_inject by blast
qed simp

lemma local_id_ne [simp]: "local_id env n \<noteq> []"
  by (simp add: local_id_def)

lemma made_mono: "m \<le> n \<Longrightarrow> made env m \<subseteq> made env n"
  by (auto simp: made_def)

lemma local_id_made [simp]: "local_id env k \<in> made env n \<longleftrightarrow> k < n"
  by (auto simp: made_def local_id_inject)

lemma normalizeCondition_id:
  "normalizeCondition env v seed = Some (c, seed') \<Longrightarrow> cond_id c = local_id env seed \<and> seed' = Suc seed"
  by (auto simp: normalizeCondition_def nextLocalId_def Let_def split: if_splits)

lemma map_ids_conditions:
  "map_ids (normalizeCondition env) vs seed = Some (cs, seed') \<Longrightarrow>
    seed' = seed + length vs \<and> map cond_id cs = map (local_id env) [seed..<seed + length vs]"
proof (induction vs arbitrary: seed cs)
  case (Cons v vs)
  then obtain c s1 ds where c: "normalizeCondition env v seed = Some (c, s1)"
      "map_ids (normalizeCondition env) vs s1 = Some (ds, seed')" "cs = c # ds"
    by (auto split: option.splits)
  with Cons.IH [OF c(2)] normalizeCondition_id [OF c(1)] show ?case by (simp add: upt_conv_Cons del: upt_Suc)
qed simp

lemma normalizeOperation_ids:
  assumes "normalizeOperation env v seed = Some (op, seed')"
  shows "op_id op = local_id env seed \<and> seed < seed' \<and>
    map cond_id (op_conditions op) = map (local_id env) [Suc seed..<seed']"
  using assms
  by (auto simp: normalizeOperation_def nextLocalId_def Let_def split: if_splits option.splits
      dest!: map_ids_conditions)

section \<open>Payloads\<close>

lemma obj_get_set_if [simp]:
  "obj_get (lit k) (set_if c k' v ps) = (if c \<and> k = k' then v else obj_get (lit k) ps)"
  by (simp add: set_if_def)

lemma wf_set_if [simp]: "wf_props ps \<Longrightarrow> wf_props (set_if c k v ps)"
  by (simp add: set_if_def wf_obj_set)

lemma all_json_set_if [simp]: "all_json ps \<Longrightarrow> (c \<Longrightarrow> wf_json v) \<Longrightarrow> all_json (set_if c k v ps)"
  by (simp add: set_if_def all_json_obj_set)

text \<open>What a printed condition reads back as.\<close>

lemma wf_condition_payload:
  "buildConditionPayload c = Some v \<Longrightarrow> text_stable (cond_value_text c) \<Longrightarrow> wf_json v"
  by (auto simp: buildConditionPayload_def Let_def text_stable_value all_json_obj_of_list wf_obj_of_list
      split: if_splits)

lemma normalize_condition_payload:
  assumes "buildConditionPayload c = Some v" "text_stable (cond_value_text c)"
  shows "\<exists>c'. normalizeCondition env v seed = Some (c', Suc seed) \<and> buildConditionPayload c' = Some v"
proof -
  have tp: "trim (cond_path c) \<noteq> []" using assms(1) by (auto simp: buildConditionPayload_def Let_def split: if_splits)
  show ?thesis
    using assms(1)
    by (auto simp: buildConditionPayload_def Let_def normalizeCondition_def nextLocalId_def tp
        obj_get_of_list str_or_empty_def text_stable_loose [OF assms(2)])
qed

lemma map_filter_Cons: "List.map_filter f (x # xs) = (case f x of None \<Rightarrow> List.map_filter f xs | Some y \<Rightarrow> y # List.map_filter f xs)"
  by (simp add: List.map_filter_simps)

lemma normalize_condition_payloads:
  "\<forall>c \<in> set cs. text_stable (cond_value_text c) \<Longrightarrow>
    \<exists>ds seed'. map_ids (normalizeCondition env) (List.map_filter buildConditionPayload cs) seed = Some (ds, seed') \<and>
      List.map_filter buildConditionPayload ds = List.map_filter buildConditionPayload cs"
proof (induction cs arbitrary: seed)
  case Nil
  then show ?case by (simp add: List.map_filter_simps)
next
  case (Cons c cs)
  show ?case
  proof (cases "buildConditionPayload c")
    case None
    then show ?thesis using Cons by (simp add: map_filter_Cons)
  next
    case (Some v)
    obtain c' where c': "normalizeCondition env v seed = Some (c', Suc seed)" "buildConditionPayload c' = Some v"
      using normalize_condition_payload [OF Some, of env seed] Cons.prems by auto
    obtain ds s' where ds: "map_ids (normalizeCondition env) (List.map_filter buildConditionPayload cs) (Suc seed) = Some (ds, s')"
        "List.map_filter buildConditionPayload ds = List.map_filter buildConditionPayload cs"
      using Cons.IH [of "Suc seed"] Cons.prems by auto
    show ?thesis using c' ds Some by (simp add: map_filter_Cons)
  qed
qed

definition op_stable :: "operation \<Rightarrow> bool" where
  "op_stable op \<longleftrightarrow> text_stable (op_value_text op) \<and> (\<forall>c \<in> set (op_conditions op). text_stable (cond_value_text c))"

lemma wf_operation_payload: "op_stable op \<Longrightarrow> wf_json (operation_payload op)"
proof -
  assume st: "op_stable op"
  have cs: "\<forall>v \<in> set (List.map_filter buildConditionPayload (op_conditions op)). wf_json v"
    using st wf_condition_payload by (auto simp: op_stable_def List.map_filter_def)
  have v: "wf_json (parseLooseValue (op_value_text op))"
    using st by (simp add: op_stable_def text_stable_value)
  show ?thesis using cs v by (simp add: operation_payload_def Let_def)
qed

lemma str_or_empty_if [simp]: "str_or_empty (if c then JStr s else v) = (if c then s else str_or_empty v)"
  by (simp add: str_or_empty_def)

lemma str_or_empty_simps [simp]: "str_or_empty (JStr s) = s" "str_or_empty JUndef = []"
  by (simp_all add: str_or_empty_def)

lemma obj_replace_insert:
  "k \<noteq> k' \<Longrightarrow> obj_replace k v (obj_insert k' w ps) = obj_insert k' w (obj_replace k v ps)"
  by (induction ps) auto

lemma obj_replace_commute:
  "k \<noteq> k' \<Longrightarrow> obj_replace k v (obj_replace k' w ps) = obj_replace k' w (obj_replace k v ps)"
  by (induction ps) auto

lemma obj_replace_twice: "obj_replace k v (obj_replace k w ps) = obj_replace k v ps"
  by (induction ps) auto

lemma obj_replace_after_insert:
  "k \<notin> fst ` set ps \<Longrightarrow> obj_replace k v (obj_insert k w ps) = obj_insert k v ps"
  by (induction ps) auto

lemma keys_obj_replace_set [simp]: "fst ` set (obj_replace k v ps) = fst ` set ps"
  by (metis keys_obj_replace list.set_map)

lemma obj_set_twice [simp]: "obj_set k v (obj_set k w ps) = obj_set k v ps"
  by (auto simp: obj_set_def set_obj_insert obj_replace_twice obj_replace_after_insert)

lemma obj_set_commute:
  "k \<in> fst ` set ps \<Longrightarrow> k \<noteq> k' \<Longrightarrow> obj_set k v (obj_set k' w ps) = obj_set k' w (obj_set k v ps)"
  by (simp add: obj_set_def set_obj_insert obj_replace_commute obj_replace_insert)

lemma obj_set_again [simp]:
  "k \<noteq> k' \<Longrightarrow> obj_set k v (obj_set k' w (obj_set k u ps)) = obj_set k' w (obj_set k v ps)"
  by (subst obj_set_commute) (simp_all add: keys_obj_set)

text \<open>The fields of a printed operation.\<close>

lemma payload_fields:
  fixes op
  defines "meta \<equiv> MODE_META (op_mode op)" and "path \<equiv> trim (op_path op)"
    and "cs \<equiv> List.map_filter buildConditionPayload (op_conditions op)"
  shows "get_prop (lit ''mode'') (operation_payload op) = JStr (op_mode_text (op_mode op))"
    "get_prop (lit ''description'') (operation_payload op) =
       (if trim (op_description op) \<noteq> [] then JStr (trim (op_description op)) else JUndef)"
    "get_prop (lit ''path'') (operation_payload op) =
       (if meta_path meta \<or> meta_pathOptional meta \<and> path \<noteq> [] then JStr path else JUndef)"
    "get_prop (lit ''value'') (operation_payload op) =
       (if meta_value meta then parseLooseValue (op_value_text op) else JUndef)"
    "get_prop (lit ''keep_origin'') (operation_payload op) =
       (if meta_keepOrigin meta \<and> op_keep_origin op then JBool True else JUndef)"
    "get_prop (lit ''from'') (operation_payload op) =
       (if meta_from meta then JStr (if meta_pathAlias meta \<and> trim (op_from op) = [] then path else trim (op_from op)) else JUndef)"
    "get_prop (lit ''to'') (operation_payload op) =
       (if meta_to meta then JStr (if meta_pathAlias meta \<and> trim (op_to op) = [] then path else trim (op_to op))
        else if trim (op_to op) \<noteq> [] then JStr (trim (op_to op)) else JUndef)"
    "get_prop (lit ''conditions'') (operation_payload op) = (if cs \<noteq> [] then JArr cs else JUndef)"
    "get_prop (lit ''logic'') (operation_payload op) = (if cs \<noteq> [] then JStr (logic_text (op_logic op)) else JUndef)"
  using alias_meta [of "op_mode op"] unfolding meta_def path_def cs_def
  by (simp_all add: operation_payload_def Let_def)

lemma payload_object: "operation_payload op \<noteq> JNull \<and> operation_payload op \<noteq> JUndef"
  by (simp add: operation_payload_def Let_def)

text \<open>The operation that is read back from a payload prints the same payload.\<close>

lemma normalize_operation_payload:
  assumes "op_stable op"
  shows "\<exists>op' seed'. normalizeOperation env (operation_payload op) seed = Some (op', seed') \<and>
    operation_payload op' = operation_payload op \<and> op_mode op' = op_mode op \<and>
    (meta_path (MODE_META (op_mode op)) \<longrightarrow> op_path op' = trim (op_path op))"
proof -
  define cs where "cs = List.map_filter buildConditionPayload (op_conditions op)"
  obtain ds s' where ds: "map_ids (normalizeCondition env) cs (Suc seed) = Some (ds, s')"
      "List.map_filter buildConditionPayload ds = cs"
    using normalize_condition_payloads [of "op_conditions op" env "Suc seed"] assms
    by (auto simp: op_stable_def cs_def)
  have "(case get_prop (lit ''conditions'') (operation_payload op) of JArr vs \<Rightarrow> vs | _ \<Rightarrow> []) = cs"
    by (simp add: payload_fields cs_def)
  with ds(1) obtain op' where op': "normalizeOperation env (operation_payload op) seed = Some (op', s')"
    and g: "op_description op' = str_or_empty (get_prop (lit ''description'') (operation_payload op))"
      "op_path op' = str_or_empty (get_prop (lit ''path'') (operation_payload op))"
      "op_mode op' = (case op_mode_of (get_prop (lit ''mode'') (operation_payload op)) of Some m \<Rightarrow> m | None \<Rightarrow> M_set)"
      "op_value_text op' = toValueText (get_prop (lit ''value'') (operation_payload op))"
      "op_keep_origin op' = (get_prop (lit ''keep_origin'') (operation_payload op) = JBool True)"
      "op_from op' = str_or_empty (get_prop (lit ''from'') (operation_payload op))"
      "op_to op' = str_or_empty (get_prop (lit ''to'') (operation_payload op))"
      "op_logic op' = op_logic_of env (get_prop (lit ''logic'') (operation_payload op))"
      "op_conditions op' = ds"
    by (simp add: normalizeOperation_def payload_object nextLocalId_def Let_def)
  note f = g [unfolded payload_fields]
  have m: "op_mode op' = op_mode op" by (simp add: f)
  have v: "parseLooseValue (toValueText (parseLooseValue (op_value_text op))) = parseLooseValue (op_value_text op)"
    using text_stable_loose assms by (simp add: op_stable_def)
  have c: "List.map_filter buildConditionPayload (op_conditions op') = cs" by (simp add: g ds(2))
  have l: "cs \<noteq> [] \<Longrightarrow> op_logic op' = op_logic op" by (simp add: f cs_def)
  have "operation_payload op' = operation_payload op"
    unfolding operation_payload_def c cs_def [symmetric] m Let_def f(1,2,4,5,6,7)
    by (cases "op_mode op"; cases "cs = []") (simp_all add: meta_simps set_if_def v l)
  then show ?thesis using op' f by auto
qed

section \<open>Validation\<close>

lemma validateOperation_path:
  "validateOperation line op = None \<Longrightarrow> meta_path (MODE_META (op_mode op)) \<Longrightarrow> trim (op_path op) \<noteq> []"
  by (auto simp: validateOperation_def Let_def)

lemma validate_from_None: "validate_from i ops = None \<longleftrightarrow> (\<forall>k < length ops. validateOperation (i + k + 1) (ops ! k) = None)"
proof (induction ops arbitrary: i)
  case (Cons op ops)
  show ?case
    using Cons.IH [of "i + 1"] by (simp add: All_less_Suc2 split: option.split)
qed simp

lemma if_Some_None: "(if b then Some x else y) = None \<longleftrightarrow> \<not> b \<and> y = None"
  by simp

lemma validateOperation_line: "validateOperation l op = None \<longleftrightarrow> validateOperation l' op = None"
  unfolding validateOperation_def Let_def if_Some_None by (rule refl)

lemma validateOperations_None: "validateOperations ops = None \<longleftrightarrow> (\<forall>op \<in> set ops. validateOperation 1 op = None)"
proof -
  have "validateOperations ops = None \<longleftrightarrow> (\<forall>k < length ops. validateOperation (k + 1) (ops ! k) = None)"
    by (simp add: validateOperations_def validate_from_None)
  also have "\<dots> \<longleftrightarrow> (\<forall>k < length ops. validateOperation 1 (ops ! k) = None)"
    using validateOperation_line by blast
  finally show ?thesis by (simp add: all_set_conv_all_nth)
qed

section \<open>Reading back what was printed\<close>

lemma trim_json_object: "trim (json_ser gap ind (JObj ps)) = json_ser gap ind (JObj ps)"
  by (rule trim_keep) (simp_all add: json_wrap_def is_ws_def ws_units_def)

lemma normalize_payloads:
  assumes "\<forall>op \<in> set ops. op_stable op \<and> validateOperation 1 op = None"
  shows "\<exists>ops' seed'. map_ids (normalizeOperation env) (map operation_payload ops) seed = Some (ops', seed') \<and>
    map operation_payload ops' = map operation_payload ops \<and> (\<forall>op \<in> set ops'. \<not> isOperationBlank op)"
  using assms
proof (induction ops arbitrary: seed)
  case (Cons op ops)
  have st: "op_stable op" and va: "validateOperation 1 op = None" using Cons.prems by auto
  obtain op' s1 where o: "normalizeOperation env (operation_payload op) seed = Some (op', s1)"
      "operation_payload op' = operation_payload op" "op_mode op' = op_mode op"
      "meta_path (MODE_META (op_mode op)) \<longrightarrow> op_path op' = trim (op_path op)"
    using normalize_operation_payload [OF st, of env seed] by blast
  obtain ops' s2 where os: "map_ids (normalizeOperation env) (map operation_payload ops) s1 = Some (ops', s2)"
      "map operation_payload ops' = map operation_payload ops" "\<forall>op \<in> set ops'. \<not> isOperationBlank op"
    using Cons.IH [of s1] Cons.prems by auto
  have "\<not> isOperationBlank op'"
    using o(3,4) validateOperation_path [OF va] by (auto simp: isOperationBlank_def Let_def meta_simps)
  with o os show ?case by simp
qed simp

lemma buildOperationsJson_Inr:
  "buildOperationsJson ops True = Inr txtv \<Longrightarrow> txtv \<noteq> [] \<Longrightarrow>
    (let fs = filter (\<lambda>op. \<not> isOperationBlank op) ops in fs \<noteq> [] \<and> validateOperations fs = None \<and>
      txtv = json_stringify2 (JObj [(lit ''operations'', JArr (map operation_payload fs))]))"
  by (auto simp: buildOperationsJson_def Let_def split: option.splits if_splits)

lemma reload_operations:
  assumes "buildOperationsJson ops True = Inr txtv" "txtv \<noteq> []" "\<forall>op \<in> set ops. op_stable op"
  shows "\<exists>ops' seed'. parseInitialState env (JStr txtv) seed =
      Some (\<lparr>in_editMode = E_visual, in_visualMode = V_operations, in_legacyValue = [],
        in_operations = ops', in_jsonText = txtv, in_jsonError = None\<rparr>, seed') \<and>
    buildOperationsJson ops' False = Inr txtv"
proof -
  define fs where "fs = filter (\<lambda>op. \<not> isOperationBlank op) ops"
  let ?obj = "JObj [(lit ''operations'', JArr (map operation_payload fs))]"
  have fs: "fs \<noteq> []" "validateOperations fs = None" "txtv = json_stringify2 ?obj"
    using buildOperationsJson_Inr [OF assms(1,2)] by (simp_all add: fs_def Let_def)
  have st: "\<forall>op \<in> set fs. op_stable op \<and> validateOperation 1 op = None"
    using assms(3) fs(2) by (auto simp: validateOperations_None) (simp add: fs_def)
  obtain ops' s' where o: "map_ids (normalizeOperation env) (map operation_payload fs) seed = Some (ops', s')"
      "map operation_payload ops' = map operation_payload fs" "\<forall>op \<in> set ops'. \<not> isOperationBlank op"
    using normalize_payloads [OF st] by blast
  have wf: "wf_json ?obj" using st wf_operation_payload by auto
  have tr: "trim txtv = txtv" unfolding fs(3) json_stringify2_def by (rule trim_json_object)
  have nb: "filter (\<lambda>op. \<not> isOperationBlank op) ops' = ops'" using o(3) by (simp add: filter_id_conv)
  have "ops' \<noteq> []" using o(2) fs(1) by auto
  then have "buildOperationsJson ops' False = Inr txtv"
    by (simp add: buildOperationsJson_def Let_def nb o(2) fs(3))
  moreover have "parseInitialState env (JStr txtv) seed =
      Some (\<lparr>in_editMode = E_visual, in_visualMode = V_operations, in_legacyValue = [],
        in_operations = ops', in_jsonText = txtv, in_jsonError = None\<rparr>, s')"
    using wf o(1) fs(1) assms(2)
    by (simp add: parseInitialState_def Let_def tr case_prod_unfold) (simp add: fs(3) operations_of_items_def)
  ultimately show ?thesis by blast
qed

end
