(* ===== verification/Param_Machine.thy ===== *)
theory Param_Machine
  imports Param_Facts
begin

text \<open>
  The parameter override editor under any sequence of user actions: the events of the form, the
  step that runs the handler and then the effects of the next render, and the invariant of the
  operation list (it is never empty, ids are distinct and were handed out before) together with
  the selection, which always is an operation of the list.
\<close>

section \<open>Events\<close>

datatype po_event =
    Open bool jsv
  | SwitchToJson | SwitchToVisual
  | FillTemplate | AppendTemplate | ResetEditor
  | SelectGroup string | SelectPreset string
  | SetLegacy jstring | SetSearch jstring | Select jstring
  | OpenGuide guide_target | CloseGuide | SetGuideTarget guide_target | SetGuideKeyword jstring
  | ShowHeaderExample bool | ApplyField jstring guide_target
  | Update jstring "op_patch list" | FormatValue
  | UpdateReturnError jstring "return_error_draft \<Rightarrow> return_error_draft"
  | UpdatePrune jstring "prune_draft \<Rightarrow> prune_draft"
  | AddPruneRule jstring | UpdatePruneRule jstring jstring cond_patch | RemovePruneRule jstring jstring
  | AddOp | DragStart jstring | DragOver jsnum jsnum jsnum jstring | Drop jstring jstring | DragEnd
  | Duplicate bool jstring | RemoveOp jstring
  | AddCond jstring | UpdateCond jstring jstring cond_patch | RemoveCond jstring jstring
  | Collapse jstring "jstring list" | ExpandAll | CollapseAll
  | JsonChange jstring | FormatJson | Save

fun po_handle :: "js_env \<Rightarrow> po_event \<Rightarrow> po_state \<Rightarrow> po_state" where
  "po_handle env (Open visible v) st = effect_open env visible v st"
| "po_handle env SwitchToJson st = switchToJsonMode st"
| "po_handle env SwitchToVisual st = switchToVisualMode env st"
| "po_handle env FillTemplate st = fillTemplateFromLibrary env st"
| "po_handle env AppendTemplate st = appendTemplateFromLibrary env st"
| "po_handle env ResetEditor st = resetEditorState env st"
| "po_handle env (SelectGroup g) st = st\<lparr>st_templateGroupKey := g\<rparr>"
| "po_handle env (SelectPreset k) st = st\<lparr>st_templatePresetKey := k\<rparr>"
| "po_handle env (SetLegacy s) st = st\<lparr>st_legacyValue := s\<rparr>"
| "po_handle env (SetSearch s) st = st\<lparr>st_operationSearch := s\<rparr>"
| "po_handle env (Select oid) st = st\<lparr>st_selectedOperationId := oid\<rparr>"
| "po_handle env (OpenGuide t) st = openFieldGuide t st"
| "po_handle env CloseGuide st = st\<lparr>st_fieldGuideVisible := False\<rparr>"
| "po_handle env (SetGuideTarget t) st = st\<lparr>st_fieldGuideTarget := t\<rparr>"
| "po_handle env (SetGuideKeyword s) st = st\<lparr>st_fieldGuideKeyword := s\<rparr>"
| "po_handle env (ShowHeaderExample b) st = st\<lparr>st_headerValueExampleVisible := b\<rparr>"
| "po_handle env (ApplyField k t) st = applyBuiltinField k t st"
| "po_handle env (Update oid ps) st = updateOperation oid ps st"
| "po_handle env FormatValue st = formatSelectedOperationValueAsJson st"
| "po_handle env (UpdateReturnError oid f) st = updateReturnErrorDraft oid f st"
| "po_handle env (UpdatePrune oid f) st = updatePruneObjectsDraft env oid (\<lambda>d s. (f d, s)) st"
| "po_handle env (AddPruneRule oid) st = addPruneRule env oid st"
| "po_handle env (UpdatePruneRule oid rid p) st = updatePruneRule env oid rid p st"
| "po_handle env (RemovePruneRule oid rid) st = removePruneRule env oid rid st"
| "po_handle env AddOp st = addOperation env st"
| "po_handle env (DragStart oid) st = handleOperationDragStart oid st"
| "po_handle env (DragOver y t h oid) st = handleOperationDragOver y t h oid st"
| "po_handle env (Drop transferred oid) st = handleOperationDrop transferred oid st"
| "po_handle env DragEnd st = resetOperationDragState st"
| "po_handle env (Duplicate eager oid) st = duplicateOperation env eager oid st"
| "po_handle env (RemoveOp oid) st = removeOperation env oid st"
| "po_handle env (AddCond oid) st = addCondition env oid st"
| "po_handle env (UpdateCond oid cid p) st = updateCondition oid cid p st"
| "po_handle env (RemoveCond oid cid) st = removeCondition oid cid st"
| "po_handle env (Collapse oid ks) st = handleConditionCollapseChange oid ks st"
| "po_handle env ExpandAll st = expandAllSelectedConditions st"
| "po_handle env CollapseAll st = collapseAllSelectedConditions st"
| "po_handle env (JsonChange s) st = handleJsonChange s st"
| "po_handle env FormatJson st = formatJson st"
| "po_handle env Save st = handleSave st"

definition po_step :: "js_env \<Rightarrow> po_event \<Rightarrow> po_state \<Rightarrow> po_state" where
  "po_step env e st = effect_preset (effect_select (po_handle env e st))"

section \<open>Invariant\<close>

definition op_known :: "js_env \<Rightarrow> nat \<Rightarrow> operation \<Rightarrow> bool" where
  "op_known env n op \<longleftrightarrow> op_id op \<in> made env n \<and> distinct (map cond_id (op_conditions op)) \<and>
     set (map cond_id (op_conditions op)) \<subseteq> made env n"

definition ops_inv :: "js_env \<Rightarrow> nat \<Rightarrow> operation list \<Rightarrow> bool" where
  "ops_inv env n ops \<longleftrightarrow> ops \<noteq> [] \<and> distinct (map op_id ops) \<and> (\<forall>op \<in> set ops. op_known env n op)"

definition po_inv :: "js_env \<Rightarrow> po_state \<Rightarrow> bool" where
  "po_inv env st \<longleftrightarrow> ops_inv env (st_seed st) (st_operations st) \<and>
     st_selectedOperationId st \<in> op_id ` set (st_operations st)"

lemma op_known_mono: "op_known env m op \<Longrightarrow> m \<le> n \<Longrightarrow> op_known env n op"
  using made_mono [of m n env] by (auto simp: op_known_def)

lemma ops_inv_mono: "ops_inv env m ops \<Longrightarrow> m \<le> n \<Longrightarrow> ops_inv env n ops"
  using op_known_mono by (auto simp: ops_inv_def)

lemma normalizeOperation_known:
  assumes "normalizeOperation env v seed = Some (op, seed')"
  shows "op_known env seed' op \<and> op_id op = local_id env seed \<and> seed < seed'"
proof -
  have n: "op_id op = local_id env seed" "seed < seed'"
      "map cond_id (op_conditions op) = map (local_id env) [Suc seed..<seed']"
    using normalizeOperation_ids [OF assms] by auto
  have "inj_on (local_id env) A" for A by (simp add: inj_on_def local_id_inject)
  then show ?thesis using n by (auto simp: op_known_def distinct_map)
qed

lemma map_ids_known:
  "map_ids (normalizeOperation env) vs seed = Some (ops, seed') \<Longrightarrow>
    seed \<le> seed' \<and> distinct (map op_id ops) \<and> (\<forall>op \<in> set ops. op_known env seed' op) \<and>
    (\<forall>op \<in> set ops. op_id op \<notin> made env seed) \<and> length ops = length vs"
proof (induction vs arbitrary: seed ops)
  case (Cons v vs)
  obtain op s1 os where o: "normalizeOperation env v seed = Some (op, s1)"
      "map_ids (normalizeOperation env) vs s1 = Some (os, seed')" "ops = op # os"
    using Cons.prems by (auto split: option.splits)
  note k = normalizeOperation_known [OF o(1)] and ih = Cons.IH [OF o(2)]
  have "op_id op \<in> made env s1" using k by (simp add: op_known_def)
  then have "op_id op \<notin> op_id ` set os" using ih by auto
  moreover have "made env seed \<subseteq> made env s1" using k made_mono [of seed s1 env] by simp
  moreover have "op_known env seed' op" using k ih op_known_mono by blast
  ultimately show ?case using k ih o(3) by auto
qed simp

lemma default_operations_inv:
  "ops_inv env (snd (default_operations env seed)) (fst (default_operations env seed)) \<and>
   seed \<le> snd (default_operations env seed)"
proof -
  obtain op s1 where o: "normalizeOperation env (JObj [(lit ''mode'', JStr (lit ''set''))]) seed = Some (op, s1)"
    by (simp add: normalizeOperation_def nextLocalId_def Let_def)
  with normalizeOperation_known [OF o] show ?thesis
    by (simp add: default_operations_def createDefaultOperation_def ops_inv_def)
qed

lemma operations_of_items_inv:
  "operations_of_items env items seed = Some (ops, seed') \<Longrightarrow> ops_inv env seed' ops \<and> seed \<le> seed'"
  using default_operations_inv [of env seed] map_ids_known [of env items seed ops seed']
  by (auto simp: operations_of_items_def ops_inv_def split: if_splits)

lemma first_id_in: "ops \<noteq> [] \<Longrightarrow> first_id ops \<in> op_id ` set ops"
  by (cases ops) (auto simp: first_id_def)

section \<open>Preservation\<close>

text \<open>What a handler has to keep: the list part of the invariant.\<close>

abbreviation list_inv :: "js_env \<Rightarrow> po_state \<Rightarrow> bool" where
  "list_inv env st \<equiv> ops_inv env (st_seed st) (st_operations st)"

lemma po_step_inv: "list_inv env (po_handle env e st) \<Longrightarrow> po_inv env (po_step env e st)"
  by (auto simp: po_step_def po_inv_def effect_preset_def effect_select_def ops_inv_def list_ex_iff Let_def
      intro: rev_image_eqI)

lemma emit_fields [simp]: "st_operations (emit e st) = st_operations st" "st_seed (emit e st) = st_seed st"
  by (simp_all add: emit_def)

lemma show_operations_inv [inv_intros]: "ops_inv env (snd os) (fst os) \<Longrightarrow> list_inv env (show_operations os st)"
  by (simp add: show_operations_def)

lemma map_operation_inv:
  assumes "list_inv env st" "st_seed st \<le> n"
    and "\<And>op. op_known env (st_seed st) op \<Longrightarrow> op_known env n (f op) \<and> op_id (f op) = op_id op"
  shows "ops_inv env n (st_operations (map_operation oid f st))"
proof -
  let ?h = "\<lambda>op. if op_id op = oid then f op else op"
  have k: "\<forall>op \<in> set (st_operations st). op_known env n (?h op) \<and> op_id (?h op) = op_id op"
    using assms op_known_mono by (auto simp: ops_inv_def)
  then have "map op_id (map ?h (st_operations st)) = map op_id (st_operations st)" by simp
  with k assms(1) show ?thesis by (auto simp: map_operation_def ops_inv_def simp del: map_map)
qed

lemma map_operation_seed [simp]: "st_seed (map_operation oid f st) = st_seed st"
  by (simp add: map_operation_def)

lemma patch_op_known: "op_known env n op \<Longrightarrow> op_known env n (patch_op p op) \<and> op_id (patch_op p op) = op_id op"
  by (cases p) (simp_all add: op_known_def)

lemma patches_known: "op_known env n op \<Longrightarrow> op_known env n (fold patch_op ps op) \<and> op_id (fold patch_op ps op) = op_id op"
proof (induction ps arbitrary: op)
  case (Cons p ps)
  then show ?case using patch_op_known [of env n op p] by simp
qed simp

lemma updateOperation_inv [inv_intros]:
  "list_inv env st \<Longrightarrow> ops_inv env (st_seed st) (st_operations (updateOperation oid ps st))"
  using map_operation_inv [of env st "st_seed st" "fold patch_op ps" oid] patches_known
  by (simp add: updateOperation_def)

lemma updateOperation_seed [simp]: "st_seed (updateOperation oid ps st) = st_seed st"
  by (simp add: updateOperation_def)

lemma effect_open_inv [inv_intros]: "list_inv env st \<Longrightarrow> list_inv env (effect_open env b v st)"
proof -
  assume inv: "list_inv env st"
  have "ops_inv env seed' (in_operations ini)"
    if p: "parseInitialState env v (st_seed st) = Some (ini, seed')" for ini seed'
    using p default_operations_inv [of env "st_seed st"] operations_of_items_inv
    by (auto simp: parseInitialState_def Let_def case_prod_unfold split: if_splits option.splits jsv.splits)
  then show ?thesis using inv by (auto simp: effect_open_def split: option.split)
qed

lemma switch_inv [inv_intros]:
  "list_inv env st \<Longrightarrow> list_inv env (switchToJsonMode st)"
  "list_inv env st \<Longrightarrow> list_inv env (switchToVisualMode env st)"
proof -
  assume inv: "list_inv env st"
  show "list_inv env (switchToJsonMode st)"
    using inv by (simp add: switchToJsonMode_def Let_def split: sum.split)
  have "ops_inv env (snd os) (fst os)" if "operations_of_items env items (st_seed st) = Some os" for items os
    using operations_of_items_inv [of env items "st_seed st" "fst os" "snd os"] that by simp
  then show "list_inv env (switchToVisualMode env st)"
    using inv default_operations_inv [of env "st_seed st"]
    by (simp add: switchToVisualMode_def Let_def show_operations_def split: option.split jsv.split)
qed

lemma template_inv [inv_intros]:
  "list_inv env st \<Longrightarrow> list_inv env (fillLegacyTemplate env v st)"
  "list_inv env st \<Longrightarrow> list_inv env (appendLegacyTemplate env v st)"
  "list_inv env st \<Longrightarrow> list_inv env (fillOperationsTemplate env items st)"
  "list_inv env st \<Longrightarrow> list_inv env (clearValue env st)"
  "list_inv env st \<Longrightarrow> list_inv env (resetEditorState env st)"
proof -
  assume inv: "list_inv env st"
  have legacy: "list_inv env (fillLegacyTemplate env v st)" for v
    using default_operations_inv [of env "st_seed st"]
    by (simp add: fillLegacyTemplate_def Let_def show_operations_def)
  show "list_inv env (fillLegacyTemplate env v st)" by (rule legacy)
  show "list_inv env (appendLegacyTemplate env v st)"
    using inv legacy by (simp add: appendLegacyTemplate_def Let_def split: sum.split)
  have "ops_inv env (snd os) (fst os)" if "operations_of_items env items (st_seed st) = Some os" for os
    using operations_of_items_inv [of env items "st_seed st" "fst os" "snd os"] that by simp
  then show "list_inv env (fillOperationsTemplate env items st)"
    using inv by (simp add: fillOperationsTemplate_def show_operations_def split: option.split)
  show "list_inv env (clearValue env st)" "list_inv env (resetEditorState env st)"
    using default_operations_inv [of env "st_seed st"]
    by (simp_all add: resetEditorState_def clearValue_def show_operations_def)
qed

lemma append_fresh_inv:
  assumes "ops_inv env m ops \<or> ops = []" "m \<le> n" "news \<noteq> []" "distinct (map op_id news)"
    "\<forall>op \<in> set news. op_known env n op" "\<forall>op \<in> set news. op_id op \<notin> made env m"
  shows "ops_inv env n (ops @ news)"
proof -
  have "op_id op \<in> made env m \<and> op_known env n op" if "op_known env m op" for op
    using that op_known_mono [OF that assms(2)] by (simp add: op_known_def)
  then have "\<forall>op \<in> set ops. op_id op \<in> made env m \<and> op_known env n op"
    using assms(1) by (auto simp: ops_inv_def)
  then show ?thesis using assms by (auto simp: ops_inv_def)
qed

lemma filter_inv: "ops_inv env n ops \<Longrightarrow> ops_inv env n (filter p ops) \<or> filter p ops = []"
  by (auto simp: ops_inv_def distinct_map_filter)

lemma appendOperationsTemplate_inv:
  assumes "list_inv env st" "items \<noteq> []"
  shows "list_inv env (appendOperationsTemplate env items st)"
proof (cases "map_ids (normalizeOperation env) items (st_seed st)")
  case (Some r)
  obtain os n where r: "r = (os, n)" by (cases r)
  have k: "st_seed st \<le> n" "distinct (map op_id os)" "\<forall>op \<in> set os. op_known env n op"
      "\<forall>op \<in> set os. op_id op \<notin> made env (st_seed st)" "os \<noteq> []"
    using map_ids_known [of env items "st_seed st" os n] Some r assms(2) by auto
  define ex where "ex = (if st_visualMode st = V_operations
      then filter (\<lambda>op. \<not> isOperationBlank op) (st_operations st) else [])"
  have "ops_inv env (st_seed st) ex \<or> ex = []" using filter_inv [OF assms(1)] by (simp add: ex_def)
  from append_fresh_inv [OF this k(1,5,2,3,4)] show ?thesis
    by (simp add: appendOperationsTemplate_def Some r Let_def ex_def [symmetric] show_operations_def)
qed (simp add: appendOperationsTemplate_def assms)

lemma preset_items: "map_of TEMPLATE_PRESET_CONFIG k = Some (g, Preset_operations items) \<Longrightarrow> items \<noteq> []"
  by (auto simp: TEMPLATE_PRESET_CONFIG_def OPERATION_TEMPLATE_def HEADER_PASSTHROUGH_TEMPLATE_def
      GEMINI_IMAGE_4K_TEMPLATE_def buildPassHeadersTemplate_def AWS_BEDROCK_ANTHROPIC_COMPAT_TEMPLATE_def
      split: if_splits)

lemma library_inv [inv_intros]:
  "list_inv env st \<Longrightarrow> list_inv env (fillTemplateFromLibrary env st)"
  "list_inv env st \<Longrightarrow> list_inv env (appendTemplateFromLibrary env st)"
proof -
  assume inv: "list_inv env st"
  have ne: "getSelectedTemplatePreset st = Preset_operations items \<Longrightarrow> items \<noteq> []" for items
    using preset_items by (auto simp: getSelectedTemplatePreset_def OPERATION_TEMPLATE_def split: option.splits)
  show "list_inv env (fillTemplateFromLibrary env st)"
    using inv by (simp add: fillTemplateFromLibrary_def template_inv split: preset_payload.split)
  show "list_inv env (appendTemplateFromLibrary env st)"
    using inv ne by (simp add: appendTemplateFromLibrary_def template_inv appendOperationsTemplate_inv split: preset_payload.split)
qed

lemma normalize_clone: "\<exists>op n. normalizeOperation env (clone_source src) seed = Some (op, n)"
proof -
  have "\<exists>ds n. map_ids (normalizeCondition env) (map clone_condition cs) s = Some (ds, n)" for cs s
  proof (induction cs arbitrary: s)
    case (Cons c cs)
    obtain d where "normalizeCondition env (clone_condition c) s = Some (d, Suc s)"
      by (simp add: clone_condition_def normalizeCondition_def Let_def nextLocalId_def)
    then show ?case using Cons.IH [of "Suc s"] by auto
  qed simp
  then obtain ds n where "map_ids (normalizeCondition env) (map clone_condition (op_conditions src)) (Suc seed) = Some (ds, n)"
    by blast
  then show ?thesis by (simp add: normalizeOperation_def clone_source_def nextLocalId_def Let_def)
qed

lemma set_reorder:
  "mset (reorderOperations ops a b p) = mset ops"
proof -
  have "mset (insert_at j (ops ! i) (remove_at i ops)) = mset ops"
    if "find_index (\<lambda>o'. op_id o' = a) ops = Some i" for i j
    using find_index_Some [OF that] by (simp add: mset_insert_at mset_remove_at)
  then show ?thesis by (simp add: reorderOperations_def Let_def split: option.split)
qed

lemma ops_inv_mset: "mset xs = mset ys \<Longrightarrow> ops_inv env n xs \<longleftrightarrow> ops_inv env n ys"
proof -
  assume m: "mset xs = mset ys"
  then have "mset (map op_id xs) = mset (map op_id ys)" by simp
  then have "distinct (map op_id xs) = distinct (map op_id ys)" by (rule mset_eq_imp_distinct_iff)
  moreover have "set xs = set ys" using m by (rule mset_eq_setD)
  moreover have "xs = [] \<longleftrightarrow> ys = []" using m by auto
  ultimately show ?thesis by (simp add: ops_inv_def)
qed

lemma updatePruneObjectsDraft_inv:
  assumes "list_inv env st" "\<And>d s. s \<le> snd (f d s)"
  shows "list_inv env (updatePruneObjectsDraft env oid f st)"
proof -
  have "seed \<le> snd (parsePruneObjectsDraft env t seed)" for t seed
    using map_ids_conditions
    by (fastforce simp: parsePruneObjectsDraft_def Let_def split: option.split jsv.split)
  note le = this
  show ?thesis
  proof (cases "find_operation oid st")
    case (Some op)
    let ?r = "parsePruneObjectsDraft env (op_value_text op) (st_seed st)"
    have "st_seed st \<le> snd (f (fst ?r) (snd ?r))"
      using le [of "st_seed st" "op_value_text op"] assms(2) [of "snd ?r" "fst ?r"] by linarith
    from ops_inv_mono [OF updateOperation_inv [OF assms(1)] this] Some show ?thesis
      by (simp add: updatePruneObjectsDraft_def case_prod_unfold)
  qed (simp add: updatePruneObjectsDraft_def assms(1))
qed

lemma createDefaultCondition_id: "cond_id (fst (createDefaultCondition env seed)) = local_id env seed \<and>
    snd (createDefaultCondition env seed) = Suc seed"
  by (simp add: createDefaultCondition_def normalizeCondition_def nextLocalId_def Let_def)

lemma draft_inv [inv_intros]:
  assumes "list_inv env st"
  shows "list_inv env (updateReturnErrorDraft oid g st)"
    "list_inv env (updatePruneObjectsDraft env oid (\<lambda>d s. (h d, s)) st)"
    "list_inv env (addPruneRule env oid st)" "list_inv env (updatePruneRule env oid rid p st)"
    "list_inv env (removePruneRule env oid rid st)"
  using assms createDefaultCondition_id [of env]
  unfolding addPruneRule_def updatePruneRule_def removePruneRule_def
  by (auto intro!: updatePruneObjectsDraft_inv simp: case_prod_unfold)
    (auto simp: updateReturnErrorDraft_def updateOperation_inv split: option.split)

lemma addOperation_inv [inv_intros]: "list_inv env st \<Longrightarrow> list_inv env (addOperation env st)"
proof -
  assume inv: "list_inv env st"
  obtain op n where o: "normalizeOperation env (JObj [(lit ''mode'', JStr (lit ''set''))]) (st_seed st) = Some (op, n)"
    by (simp add: normalizeOperation_def nextLocalId_def Let_def)
  from normalizeOperation_known [OF o] inv show ?thesis
    by (simp add: addOperation_def createDefaultOperation_def o append_fresh_inv [of env "st_seed st"])
qed

lemma moveOperation_inv [inv_intros]: "list_inv env st \<Longrightarrow> list_inv env (moveOperation a b p st)"
  using ops_inv_mset [OF set_reorder] by (simp add: moveOperation_def)

lemma insert_at_mset: "mset (insert_at i x xs) = mset (xs @ [x])"
  by (simp add: mset_insert_at)

lemma duplicateOperation_inv [inv_intros]: "list_inv env st \<Longrightarrow> list_inv env (duplicateOperation env b oid st)"
proof (cases "find_index (\<lambda>op. op_id op = oid) (st_operations st)")
  case (Some i)
  assume inv: "list_inv env st"
  obtain op n where o: "normalizeOperation env (clone_source (st_operations st ! i)) (st_seed st) = Some (op, n)"
    using normalize_clone by blast
  have "ops_inv env n (st_operations st @ [op])"
    using normalizeOperation_known [OF o] inv by (intro append_fresh_inv [of env "st_seed st"]) auto
  then have "ops_inv env n (insert_at (i + 1) op (st_operations st))"
    using ops_inv_mset [OF insert_at_mset] by blast
  then show ?thesis by (simp add: duplicateOperation_def Some o)
next
  case None
  then show "list_inv env st \<Longrightarrow> ?thesis" unfolding duplicateOperation_def None by simp
qed

lemma removeOperation_inv [inv_intros]: "list_inv env st \<Longrightarrow> list_inv env (removeOperation env oid st)"
proof -
  assume inv: "list_inv env st"
  show ?thesis
  proof (cases "length (st_operations st) \<le> 1")
    case True
    then show ?thesis using default_operations_inv [of env "st_seed st"]
      by (simp add: removeOperation_def case_prod_unfold Let_def)
  next
    case False
    let ?f = "filter (\<lambda>op. op_id op \<noteq> oid) (st_operations st)"
    have "?f \<noteq> []"
    proof
      assume "?f = []"
      then have all: "\<forall>op \<in> set (st_operations st). op_id op = oid" by (simp add: filter_empty_conv)
      obtain x y zs where "st_operations st = x # y # zs"
        using False by (cases "st_operations st" rule: remdups_adj.cases) auto
      with all inv show False by (simp add: ops_inv_def)
    qed
    with False filter_inv [OF inv] show ?thesis by (auto simp: removeOperation_def)
  qed
qed

lemma set_expanded_fields [simp]:
  "st_operations (set_expanded oid ks st) = st_operations st" "st_seed (set_expanded oid ks st) = st_seed st"
  by (simp_all add: set_expanded_def)

lemma patch_cond_id [simp]: "cond_id (patch_cond p c) = cond_id c"
  by (cases p) simp_all

lemma condition_inv [inv_intros]:
  assumes "list_inv env st"
  shows "list_inv env (addCondition env oid st)" "list_inv env (updateCondition oid cid p st)"
    "list_inv env (removeCondition oid cid st)"
proof -
  let ?c = "fst (createDefaultCondition env (st_seed st))"
  have "op_known env (Suc (st_seed st)) (op\<lparr>op_conditions := op_conditions op @ [?c]\<rparr>)"
    if "op_known env (st_seed st) op" for op
  proof -
    have "local_id env (st_seed st) \<notin> set (map cond_id (op_conditions op))"
      using that local_id_made [of env "st_seed st" "st_seed st"] unfolding op_known_def by blast
    then show ?thesis
      using that op_known_mono [OF that, of "Suc (st_seed st)"] createDefaultCondition_id [of env "st_seed st"]
      by (simp add: op_known_def)
  qed
  with map_operation_inv [OF assms, of "Suc (st_seed st)"] show "list_inv env (addCondition env oid st)"
    using createDefaultCondition_id [of env "st_seed st"]
    by (simp add: addCondition_def case_prod_unfold)
  have "map cond_id (map (\<lambda>c. if cond_id c = cid then patch_cond p c else c) cs) = map cond_id cs" for cs by simp
  then have "op_known env n (op\<lparr>op_conditions := map (\<lambda>c. if cond_id c = cid then patch_cond p c else c) (op_conditions op)\<rparr>)"
    if "op_known env n op" for n op
    using that by (simp add: op_known_def del: map_map)
  with map_operation_inv [OF assms order_refl] show "list_inv env (updateCondition oid cid p st)"
    by (simp add: updateCondition_def)
  have "op_known env n (op\<lparr>op_conditions := filter (\<lambda>c. cond_id c \<noteq> cid) (op_conditions op)\<rparr>)"
    if "op_known env n op" for n op
    using that by (auto simp: op_known_def distinct_map_filter)
  with map_operation_inv [OF assms order_refl] show "list_inv env (removeCondition oid cid st)"
    by (simp add: removeCondition_def)
qed

lemma other_inv [inv_intros]:
  assumes "list_inv env st"
  shows "list_inv env (applyBuiltinField k t st)" "list_inv env (formatSelectedOperationValueAsJson st)"
    "list_inv env (openFieldGuide t st)" "list_inv env (handleOperationDragStart oid st)"
    "list_inv env (handleOperationDragOver y a h oid st)" "list_inv env (handleOperationDrop tr oid st)"
    "list_inv env (resetOperationDragState st)" "list_inv env (handleConditionCollapseChange oid ks st)"
    "list_inv env (expandAllSelectedConditions st)" "list_inv env (collapseAllSelectedConditions st)"
    "list_inv env (handleJsonChange s st)" "list_inv env (formatJson st)" "list_inv env (handleSave st)"
  using assms updateOperation_inv [OF assms] moveOperation_inv [OF assms]
  by (simp_all add: applyBuiltinField_def formatSelectedOperationValueAsJson_def openFieldGuide_def
      handleOperationDragStart_def handleOperationDragOver_def handleOperationDrop_def
      resetOperationDragState_def handleConditionCollapseChange_def expandAllSelectedConditions_def
      collapseAllSelectedConditions_def handleJsonChange_def formatJson_def handleSave_def Let_def
      split: option.split sum.split)

lemma po_handle_inv: "list_inv env st \<Longrightarrow> list_inv env (po_handle env e st)"
  by (cases e) (simp_all add: inv_intros)

interpretation param_editor: state_machine "po_step env" "po_inv env" for env
  by unfold_locales (rule po_step_inv, rule po_handle_inv, simp add: po_inv_def)

end
