(* ===== verification/Param_Properties.thy ===== *)
theory Param_Properties
  imports Param_Machine
begin

text \<open>
  The properties of the parameter override editor: saving and loading, the invariant of the form
  under any sequence of actions, reordering, validation, the structured drafts, and two places
  where the editor does not do what its controls promise.
\<close>

section \<open>Saving and loading\<close>







text \<open>
  Opening a saved text whose operation list holds a null entry throws a TypeError in the
  effect that loads it, which unmounts the editor.
\<close>

lemma null_operation_crashes:
  "st_crashed (effect_open env True (JStr (lit ''{\"operations\":[null]}'')) st)"
proof -
  let ?v = "JObj [(lit ''operations'', JArr [JNull])]"
  have t: "lit ''{\"operations\":[null]}'' = json_stringify ?v"
    by (simp add: json_stringify_def json_wrap_def json_quote_def quote_unit_def lit_def
        is_high_surrogate_def is_low_surrogate_def)
  have tr: "trim (json_stringify ?v) = json_stringify ?v"
    unfolding json_stringify_def by (rule trim_json_object)
  have "json_parse (json_stringify ?v) = Some ?v" by simp
  moreover have "json_stringify ?v \<noteq> []" by (simp add: json_stringify_def json_wrap_def)
  ultimately have "parseInitialState env (JStr (json_stringify ?v)) (st_seed st) = None"
    by (simp add: parseInitialState_def Let_def tr operations_of_items_def normalizeOperation_def case_prod_unfold)
  then show ?thesis unfolding t by (simp add: effect_open_def)
qed

section \<open>The form under any sequence of actions\<close>

text \<open>The first render: the initial values of the \<^verbatim>\<open>useState\<close> calls.\<close>

definition po_initial :: "js_env \<Rightarrow> nat \<Rightarrow> po_state" where
  "po_initial env seed = (case default_operations env seed of (ops, seed') \<Rightarrow>
     \<lparr>st_editMode = E_visual, st_visualMode = V_operations, st_legacyValue = [], st_operations = ops,
      st_jsonText = [], st_jsonError = None, st_operationSearch = [], st_selectedOperationId = [],
      st_expandedConditionMap = [], st_draggedOperationId = [], st_dragOverOperationId = [],
      st_dragOverPosition = P_before, st_templateGroupKey = ''basic'',
      st_templatePresetKey = ''operations_default'', st_headerValueExampleVisible = False,
      st_fieldGuideVisible = False, st_fieldGuideTarget = T_path, st_fieldGuideKeyword = [],
      st_seed = seed', st_crashed = False, st_out = []\<rparr>)"

text \<open>
  C2: After the first render and any sequence of user actions, the operation list is not empty,
  its ids are pairwise distinct, so are the condition ids of each operation, every id was handed
  out by the id counter, and the selected operation is one of the list.
\<close>

theorem param_editor_invariant:
  "po_inv env (fold (po_step env) es (effect_select (po_initial env seed)))"
proof (rule param_editor.run_inv)
  have "list_inv env (po_initial env seed)"
    using default_operations_inv [of env seed] by (simp add: po_initial_def case_prod_unfold)
  then show "po_inv env (effect_select (po_initial env seed))"
    by (auto simp: po_inv_def effect_select_def ops_inv_def list_ex_iff intro: rev_image_eqI)
qed

section \<open>Reordering\<close>

lemma reorder_split:
  assumes "distinct (map op_id ops)" "m \<in> set ops" "t \<in> set ops" "op_id m \<noteq> op_id t"
    and ne: "op_id m \<noteq> []" "op_id t \<noteq> []"
  shows "\<exists>as bs. filter (\<lambda>op. op_id op \<noteq> op_id m) ops = as @ t # bs \<and>
    reorderOperations ops (op_id m) (op_id t) P_before = as @ m # t # bs \<and>
    reorderOperations ops (op_id m) (op_id t) P_after = as @ t # m # bs"
proof -
  obtain us vs where ops: "ops = us @ m # vs" using assms(2) by (meson split_list)
  have "op_id m \<notin> op_id ` set us" "op_id m \<notin> op_id ` set vs"
    using assms(1) by (auto simp: ops)
  then have um: "\<forall>z \<in> set us. op_id z \<noteq> op_id m" "\<forall>z \<in> set vs. op_id z \<noteq> op_id m"
    by (metis image_eqI)+
  have f: "filter (\<lambda>op. op_id op \<noteq> op_id m) ops = us @ vs"
    using um by (simp add: ops filter_id_conv)
  have i: "find_index (\<lambda>o'. op_id o' = op_id m) ops = Some (length us)"
    unfolding ops using um(1) by (rule find_index_append_hit) simp
  have rm: "remove_at (length us) ops = us @ vs" by (simp add: ops remove_at_def)
  have "t \<in> set (us @ vs)" using assms(3,4) by (auto simp: ops)
  then obtain as bs where ab: "us @ vs = as @ t # bs" by (meson split_list)
  have "distinct (map op_id (us @ vs))" using assms(1) by (simp add: ops)
  then have "op_id t \<notin> op_id ` set as" unfolding ab by auto
  then have "\<forall>z \<in> set as. op_id z \<noteq> op_id t" by (metis image_eqI)
  then have j: "find_index (\<lambda>o'. op_id o' = op_id t) (us @ vs) = Some (length as)"
    unfolding ab by (rule find_index_append_hit) simp
  have "ops ! length us = m" by (simp add: ops)
  then have "reorderOperations ops (op_id m) (op_id t) p =
      insert_at (if p = P_after then length as + 1 else length as) m (us @ vs)" for p
    using assms(4) ne by (simp add: reorderOperations_def Let_def i rm j del: find_index.simps)
  then show ?thesis using f ab by (auto simp: insert_at_def)
qed

text \<open>
  Dropping an operation on another one permutes the list, keeps the order of all the others
  and puts the dragged operation directly before, or directly after, the target.
\<close>

lemma reorder_places:
  assumes "distinct (map op_id ops)" "m \<in> set ops" "t \<in> set ops" "op_id m \<noteq> op_id t"
    and "op_id m \<noteq> []" "op_id t \<noteq> []"
  shows "mset (reorderOperations ops (op_id m) (op_id t) p) = mset ops \<and>
    (\<exists>as bs. filter (\<lambda>op. op_id op \<noteq> op_id m) ops = as @ t # bs \<and>
      reorderOperations ops (op_id m) (op_id t) p = (case p of P_before \<Rightarrow> as @ m # t # bs | P_after \<Rightarrow> as @ t # m # bs))"
  using reorder_split [OF assms] set_reorder by (cases p) auto

section \<open>Validation\<close>

text \<open>What an operation must have to be saved, by the fields of its mode.\<close>

definition op_complete :: "operation \<Rightarrow> bool" where
  "op_complete op \<longleftrightarrow>
     (let meta = MODE_META (op_mode op); raw = trim (op_value_text op) in
      (meta_path meta \<longrightarrow> trim (op_path op) \<noteq> []) \<and> (meta_from meta \<longrightarrow> trim (op_from op) \<noteq> []) \<and>
      (meta_to meta \<longrightarrow> trim (op_to op) \<noteq> []) \<and> (op_mode op \<in> VALUE_REQUIRED_MODES \<longrightarrow> raw \<noteq> []) \<and>
      (op_mode op = M_return_error \<longrightarrow> \<not> return_error_invalid raw) \<and>
      (op_mode op = M_prune_objects \<longrightarrow> \<not> prune_without_condition raw) \<and>
      (op_mode op = M_pass_headers \<longrightarrow> parsePassHeaderNames (parseLooseValue raw) \<noteq> []))"

lemma required_meta:
  "m \<in> FROM_REQUIRED_MODES \<longleftrightarrow> meta_from (MODE_META m)" "m \<in> TO_REQUIRED_MODES \<longleftrightarrow> meta_to (MODE_META m)"
  by (cases m; simp add: FROM_REQUIRED_MODES_def TO_REQUIRED_MODES_def meta_simps)+

lemma value_required: "m = M_return_error \<or> m = M_prune_objects \<or> m = M_pass_headers \<Longrightarrow> m \<in> VALUE_REQUIRED_MODES"
  by (auto simp: VALUE_REQUIRED_MODES_def)

lemma validateOperation_complete: "validateOperation line op = None \<longleftrightarrow> op_complete op"
  using value_required [of "op_mode op"]
  unfolding validateOperation_def Let_def if_Some_None op_complete_def required_meta by blast

text \<open>
  C3: A list of operations is refused exactly when one of its non-blank operations is incomplete.
  Completeness asks a header copy or move for both its source and its target, so the path that the
  code accepts in their place never makes an operation valid.
\<close>

theorem param_validation:
  "(\<exists>txtv. buildOperationsJson ops True = Inr txtv) \<longleftrightarrow>
     list_all (\<lambda>op. isOperationBlank op \<or> op_complete op) ops"
proof -
  have "(\<exists>txtv. buildOperationsJson ops True = Inr txtv) \<longleftrightarrow>
      validateOperations (filter (\<lambda>op. \<not> isOperationBlank op) ops) = None"
    by (auto simp: buildOperationsJson_def Let_def validateOperations_def split: option.split)
  also have "\<dots> \<longleftrightarrow> list_all (\<lambda>op. isOperationBlank op \<or> op_complete op) ops"
    by (auto simp: validateOperations_None validateOperation_complete list_all_iff)
  finally show ?thesis .
qed

section \<open>Structured drafts\<close>

definition red_normal :: "return_error_draft \<Rightarrow> bool" where
  "red_normal d \<longleftrightarrow> trim (red_message d) = red_message d \<and> trim (red_code d) = red_code d \<and>
     trim (red_type d) = red_type d \<and> status_or_400 (red_statusCode d) = red_statusCode d \<and>
     is_double (red_statusCode d) \<and> \<not> red_simpleMode d"

text \<open>
  The structured form of a custom error is kept by its text: a draft with trimmed fields and a
  valid status is read back unchanged from the JSON it is written to.
\<close>

lemma return_error_draft_roundtrip:
  assumes "red_normal d"
  shows "parseReturnErrorDraft (buildReturnErrorValueText d) = d"
proof -
  have n: "trim (red_message d) = red_message d" "trim (red_code d) = red_code d" "trim (red_type d) = red_type d"
      "status_or_400 (red_statusCode d) = red_statusCode d" "\<not> red_simpleMode d"
    using assms by (auto simp: red_normal_def)
  have fin: "is_finite (red_statusCode d)" and wf: "is_double (red_statusCode d)"
    using n(4) assms by (cases "red_statusCode d"; auto simp: status_or_400_def red_normal_def)+
  define ps where "ps = set_if (\<not> red_skipRetry d) ''skip_retry'' (JBool False)
    (set_if (red_type d \<noteq> []) ''type'' (JStr (red_type d))
    (set_if (red_code d \<noteq> []) ''code'' (JStr (red_code d))
    (obj_of_list [(lit ''message'', JStr (red_message d)), (lit ''status_code'', JNum (red_statusCode d))])))"
  have b: "buildReturnErrorValueText d = json_stringify (JObj ps)"
    by (simp add: buildReturnErrorValueText_def Let_def n ps_def)
  have "wf_json (JObj ps)" using fin wf by (simp add: ps_def wf_obj_of_list all_json_obj_of_list)
  then have p: "json_parse (json_stringify (JObj ps)) = Some (JObj ps)" by simp
  have t: "trim (json_stringify (JObj ps)) = json_stringify (JObj ps)" "json_stringify (JObj ps) \<noteq> []"
    unfolding json_stringify_def by (rule trim_json_object) (simp add: json_wrap_def)
  have g: "obj_get (lit ''message'') ps = JStr (red_message d)" "obj_get (lit ''status_code'') ps = JNum (red_statusCode d)"
      "obj_get (lit ''code'') ps = (if red_code d \<noteq> [] then JStr (red_code d) else JUndef)"
      "obj_get (lit ''type'') ps = (if red_type d \<noteq> [] then JStr (red_type d) else JUndef)"
      "obj_get (lit ''skip_retry'') ps = (if red_skipRetry d then JUndef else JBool False)"
      "obj_get (lit ''msg'') ps = JUndef"
    by (simp_all add: ps_def obj_get_of_list)
  show ?thesis
    by (simp add: b parseReturnErrorDraft_def Let_def t p g n or_else_def)
qed



section \<open>Synchronisation targets\<close>

lemma index_of_unit: "c \<notin> set p \<Longrightarrow> index_of (p @ c # s) [c] = Some (length p)"
  by (induction p) (auto simp: starts_with_def)

text \<open>
  A synchronisation target that the form builds from a type and a key is read back as that type
  and the trimmed key; a blank key gives the empty text.
\<close>

lemma sync_target_roundtrip:
  "buildSyncTargetSpec typ key = (if trim key = [] then [] else buildSyncTargetSpec typ (trim key)) \<and>
   parseSyncTargetSpec env (buildSyncTargetSpec typ key) = (if trim key = [] then S_json else typ, trim key)"
proof (cases "trim key = []")
  case True
  then show ?thesis by (simp add: buildSyncTargetSpec_def parseSyncTargetSpec_def)
next
  case False
  define ty where "ty = (if typ = S_header then lit ''header'' else lit ''json'')"
  have b: "buildSyncTargetSpec typ key = ty @ 58 # trim key" using False by (simp add: buildSyncTargetSpec_def ty_def)
  have "\<not> is_ws (hd ty)" "ty \<noteq> []" "58 \<notin> set ty" by (auto simp: ty_def lit_def is_ws_def ws_units_def)
  then have t: "trim (ty @ 58 # trim key) = ty @ 58 # trim key"
    using trim_ends [OF False] False by (intro trim_keep) auto
  have lo: "to_lower (lower_map env) (trim ty) = ty"
    by (simp add: ty_def trim_no_ws lit_def is_ws_def ws_units_def to_lower_def)
  have "parseSyncTargetSpec env (ty @ 58 # trim key) =
      (if ty = lit ''header'' then S_header else S_json, trim key)"
    by (simp add: parseSyncTargetSpec_def Let_def t index_of_unit [OF \<open>58 \<notin> set ty\<close>] lo
      slice_def slice_from_def)
  also have "(if ty = lit ''header'' then S_header else S_json) = typ"
    by (cases "typ") (simp_all add: ty_def)
  finally have "parseSyncTargetSpec env (ty @ 58 # trim key) = (typ, trim key)" .
  moreover have "buildSyncTargetSpec typ (trim key) = ty @ 58 # trim key"
    using False by (simp add: buildSyncTargetSpec_def ty_def)
  ultimately show ?thesis unfolding b by (simp only: False if_False simp_thms)
qed

end
