(* ===== verification/Pricing_Model.thy ===== *)
theory Pricing_Model
  imports Json_Facts
begin

text \<open>
  The model of one price entry of \<^verbatim>\<open>pages/Setting/Ratio/hooks/useModelPricingEditorState.js\<close>: the
  texts of its prices, how they are computed from the stored ratios (\<open>buildModelState\<close>), the
  warnings, summary and preview shown for it, and the ratios it is saved as (\<open>serializeModel\<close>).
  Every price and ratio of the state is a text; numbers are binary64 values, so each product and
  quotient is rounded as the browser rounds it. Translated texts are the values of \<open>price_text\<close>,
  printed by the parameter \<open>t\<close>.
\<close>

section \<open>Numbers and texts\<close>

datatype price_text = T_per_call | T_call | T_input | T_extra | T_unset | T_empty | T_backend_fixed

text \<open>\<^verbatim>\<open>NUMERIC_INPUT_REGEX = /^(\d+(\.\d*)?|\.\d*)?$/\<close>.\<close>

definition numeric_input :: "jstring \<Rightarrow> bool" where
  "numeric_input s = (case dropWhile is_digit s of
       [] \<Rightarrow> True
     | c # r \<Rightarrow> c = 46 \<and> list_all is_digit r)"

definition hasValue :: "jsv \<Rightarrow> bool" where
  "hasValue v \<longleftrightarrow> v \<noteq> JStr [] \<and> v \<noteq> JNull \<and> v \<noteq> JUndef \<and> v \<noteq> JBool False"

definition toNumericString :: "jsv \<Rightarrow> jstring" where
  "toNumericString v =
     (if \<not> hasValue v \<and> v \<noteq> JNum (Fin 0) then []
      else let num = js_number v in if is_finite num then num_to_string num else [])"

definition toNumberOrNull :: "jsv \<Rightarrow> jsnum option" where
  "toNumberOrNull v =
     (if \<not> hasValue v \<and> v \<noteq> JNum (Fin 0) then None
      else let num = js_number v in if is_finite num then Some num else None)"

definition formatNumber :: "jsv \<Rightarrow> jstring" where
  "formatNumber v = (case toNumberOrNull v of
       None \<Rightarrow> []
     | Some num \<Rightarrow> num_to_string (parse_float (to_fixed 12 num)))"

definition toNormalizedNumber :: "jsv \<Rightarrow> jsnum option" where
  "toNormalizedNumber v =
     (let formatted = formatNumber v in if formatted = [] then None else Some (number_of_string formatted))"

text \<open>The stored option is absent or a text; a text that is no JSON object or array counts as empty.\<close>

definition parseOptionJSON :: "jstring option \<Rightarrow> jsv" where
  "parseOptionJSON rawValue = (case rawValue of
       None \<Rightarrow> JObj []
     | Some s \<Rightarrow>
         if s = [] \<or> trim s = [] then JObj []
         else case json_parse s of
           Some v \<Rightarrow> if truthy v \<and> type_of v = lit ''object'' then v else JObj []
         | None \<Rightarrow> JObj [])"

definition ratioToBasePrice :: "jstring \<Rightarrow> jstring" where
  "ratioToBasePrice ratio = (case toNumberOrNull (JStr ratio) of
       None \<Rightarrow> []
     | Some num \<Rightarrow> formatNumber (JNum (num_mul num (Fin 2))))"

definition normalizeCompletionRatioMeta :: "jsv \<Rightarrow> bool \<times> jstring" where
  "normalizeCompletionRatioMeta rawMeta =
     (if \<not> truthy rawMeta \<or> type_of rawMeta \<noteq> lit ''object'' \<or> is_array rawMeta then (False, [])
      else (truthy (get_prop (lit ''locked'') rawMeta), toNumericString (get_prop (lit ''ratio'') rawMeta)))"

section \<open>Entries\<close>

datatype billing_mode = Per_token | Per_request

record raw_ratios =
  rr_modelRatio :: jstring
  rr_completionRatio :: jstring
  rr_cacheRatio :: jstring
  rr_createCacheRatio :: jstring
  rr_imageRatio :: jstring
  rr_audioRatio :: jstring
  rr_audioCompletionRatio :: jstring

record price_model =
  pm_name :: jstring
  pm_billingMode :: billing_mode
  pm_fixedPrice :: jstring
  pm_inputPrice :: jstring
  pm_completionPrice :: jstring
  pm_lockedCompletionRatio :: jstring
  pm_completionRatioLocked :: bool
  pm_cachePrice :: jstring
  pm_createCachePrice :: jstring
  pm_imagePrice :: jstring
  pm_audioInputPrice :: jstring
  pm_audioOutputPrice :: jstring
  pm_rawRatios :: raw_ratios
  pm_hasConflict :: bool

definition EMPTY_MODEL :: price_model where
  "EMPTY_MODEL = \<lparr>pm_name = [], pm_billingMode = Per_token, pm_fixedPrice = [], pm_inputPrice = [],
     pm_completionPrice = [], pm_lockedCompletionRatio = [], pm_completionRatioLocked = False,
     pm_cachePrice = [], pm_createCachePrice = [], pm_imagePrice = [], pm_audioInputPrice = [],
     pm_audioOutputPrice = [],
     pm_rawRatios = \<lparr>rr_modelRatio = [], rr_completionRatio = [], rr_cacheRatio = [],
       rr_createCacheRatio = [], rr_imageRatio = [], rr_audioRatio = [], rr_audioCompletionRatio = []\<rparr>,
     pm_hasConflict = False\<rparr>"

text \<open>The options that hold the stored prices and ratios; a \<open>source_maps\<close> gives each its parsed value.\<close>

datatype price_key = ModelPrice | ModelRatio | CompletionRatio | CompletionRatioMeta | CacheRatio
  | CreateCacheRatio | ImageRatio | AudioRatio | AudioCompletionRatio

type_synonym source_maps = "price_key \<Rightarrow> jsv"

abbreviation has_text :: "jstring \<Rightarrow> bool" where
  "has_text s \<equiv> hasValue (JStr s)"

text \<open>The price of a ratio: \<open>base\<close> is the input price the ratio multiplies, if there is one.\<close>

definition price_of_ratio :: "jsnum option \<Rightarrow> jstring \<Rightarrow> jstring" where
  "price_of_ratio base ratio = (case base of
       Some p \<Rightarrow> if has_text ratio then formatNumber (JNum (num_mul p (js_number (JStr ratio)))) else []
     | None \<Rightarrow> [])"

definition buildModelState :: "jstring \<Rightarrow> source_maps \<Rightarrow> price_model" where
  "buildModelState name maps =
     (let modelRatio = toNumericString (get_prop name (maps ModelRatio));
          completionRatio = toNumericString (get_prop name (maps CompletionRatio));
          meta = normalizeCompletionRatioMeta (get_prop name (maps CompletionRatioMeta));
          cacheRatio = toNumericString (get_prop name (maps CacheRatio));
          createCacheRatio = toNumericString (get_prop name (maps CreateCacheRatio));
          imageRatio = toNumericString (get_prop name (maps ImageRatio));
          audioRatio = toNumericString (get_prop name (maps AudioRatio));
          audioCompletionRatio = toNumericString (get_prop name (maps AudioCompletionRatio));
          fixedPrice = toNumericString (get_prop name (maps ModelPrice));
          inputPrice = ratioToBasePrice modelRatio;
          inputPriceNumber = toNumberOrNull (JStr inputPrice);
          audioInputPrice = price_of_ratio inputPriceNumber audioRatio
      in EMPTY_MODEL\<lparr>pm_name := name,
           pm_billingMode := (if has_text fixedPrice then Per_request else Per_token),
           pm_fixedPrice := fixedPrice, pm_inputPrice := inputPrice,
           pm_completionRatioLocked := fst meta, pm_lockedCompletionRatio := snd meta,
           pm_completionPrice := price_of_ratio inputPriceNumber (if fst meta then snd meta else completionRatio),
           pm_cachePrice := price_of_ratio inputPriceNumber cacheRatio,
           pm_createCachePrice := price_of_ratio inputPriceNumber createCacheRatio,
           pm_imagePrice := price_of_ratio inputPriceNumber imageRatio,
           pm_audioInputPrice := audioInputPrice,
           pm_audioOutputPrice := price_of_ratio (toNumberOrNull (JStr audioInputPrice)) audioCompletionRatio,
           pm_rawRatios := \<lparr>rr_modelRatio = modelRatio, rr_completionRatio = completionRatio,
             rr_cacheRatio = cacheRatio, rr_createCacheRatio = createCacheRatio, rr_imageRatio = imageRatio,
             rr_audioRatio = audioRatio, rr_audioCompletionRatio = audioCompletionRatio\<rparr>,
           pm_hasConflict := has_text fixedPrice \<and>
             list_ex has_text [modelRatio, completionRatio, cacheRatio, createCacheRatio, imageRatio,
               audioRatio, audioCompletionRatio]\<rparr>)"

definition isBasePricingUnset :: "price_model \<Rightarrow> bool" where
  "isBasePricingUnset m \<longleftrightarrow> \<not> has_text (pm_fixedPrice m) \<and> \<not> has_text (pm_inputPrice m)"

section \<open>What is shown for an entry\<close>

datatype price_warning = W_conflict | W_ratio_without_input | W_input_first | W_audio_input_first

definition getModelWarnings :: "price_model option \<Rightarrow> price_warning list" where
  "getModelWarnings mo = (case mo of None \<Rightarrow> [] | Some m \<Rightarrow>
     (let rr = pm_rawRatios m;
          hasDerivedPricing = list_ex has_text
            [pm_inputPrice m, pm_completionPrice m, pm_cachePrice m, pm_createCachePrice m,
             pm_imagePrice m, pm_audioInputPrice m, pm_audioOutputPrice m]
      in (if pm_hasConflict m then [W_conflict] else []) @
         (if \<not> has_text (pm_inputPrice m) \<and> list_ex has_text
             [rr_completionRatio rr, rr_cacheRatio rr, rr_createCacheRatio rr, rr_imageRatio rr,
              rr_audioRatio rr, rr_audioCompletionRatio rr]
          then [W_ratio_without_input] else []) @
         (if pm_billingMode m = Per_token \<and> hasDerivedPricing \<and> \<not> has_text (pm_inputPrice m)
          then [W_input_first] else []) @
         (if pm_billingMode m = Per_token \<and> has_text (pm_audioOutputPrice m) \<and> \<not> has_text (pm_audioInputPrice m)
          then [W_audio_input_first] else [])))"

definition buildSummaryText :: "(price_text \<Rightarrow> jstring) \<Rightarrow> price_model \<Rightarrow> jstring" where
  "buildSummaryText t m =
     (if pm_billingMode m = Per_request \<and> has_text (pm_fixedPrice m)
      then t T_per_call @ lit '' $'' @ pm_fixedPrice m @ lit '' / '' @ t T_call
      else if has_text (pm_inputPrice m) then
        (let extraCount = length (filter has_text
               [pm_completionPrice m, pm_cachePrice m, pm_createCachePrice m, pm_imagePrice m,
                pm_audioInputPrice m, pm_audioOutputPrice m]);
             extraLabel = (if 0 < extraCount then [65292] @ t T_extra @ lit '' '' @ show_nat extraCount else [])
         in t T_input @ lit '' $'' @ pm_inputPrice m @ extraLabel)
      else t T_unset)"

datatype price_field = F_fixedPrice | F_inputPrice | F_completionPrice | F_cachePrice | F_createCachePrice
  | F_imagePrice | F_audioInputPrice | F_audioOutputPrice

text \<open>An object of switches; a field it does not have is \<^verbatim>\<open>undefined\<close>.\<close>

type_synonym toggles = "price_field \<Rightarrow> bool option"

fun buildOptionalFieldToggles :: "price_model \<Rightarrow> toggles" where
  "buildOptionalFieldToggles m F_completionPrice = Some (pm_completionRatioLocked m \<or> has_text (pm_completionPrice m))"
| "buildOptionalFieldToggles m F_cachePrice = Some (has_text (pm_cachePrice m))"
| "buildOptionalFieldToggles m F_createCachePrice = Some (has_text (pm_createCachePrice m))"
| "buildOptionalFieldToggles m F_imagePrice = Some (has_text (pm_imagePrice m))"
| "buildOptionalFieldToggles m F_audioInputPrice = Some (has_text (pm_audioInputPrice m))"
| "buildOptionalFieldToggles m F_audioOutputPrice = Some (has_text (pm_audioOutputPrice m))"
| "buildOptionalFieldToggles m _ = None"

section \<open>Saving an entry\<close>

datatype price_error = No_input_price jstring | No_audio_input_price jstring

text \<open>The eight ratios of an entry; \<open>None\<close> is \<^verbatim>\<open>null\<close>.\<close>

type_synonym serialized = "price_key \<Rightarrow> jsnum option"

abbreviation normalized_text :: "jstring \<Rightarrow> jsnum option" where
  "normalized_text s \<equiv> (if has_text s then toNormalizedNumber (JStr s) else None)"

text \<open>\<^verbatim>\<open>toNormalizedNumber(price / base)\<close> where there is a price.\<close>

definition quotient_ratio :: "jsnum option \<Rightarrow> jsnum \<Rightarrow> jsnum option" where
  "quotient_ratio price base = (case price of None \<Rightarrow> None | Some p \<Rightarrow> toNormalizedNumber (JNum (num_div p base)))"

definition raw_serialized :: "raw_ratios \<Rightarrow> serialized" where
  "raw_serialized rr = (\<lambda>_. None)(ModelRatio := normalized_text (rr_modelRatio rr),
     CompletionRatio := normalized_text (rr_completionRatio rr), CacheRatio := normalized_text (rr_cacheRatio rr),
     CreateCacheRatio := normalized_text (rr_createCacheRatio rr), ImageRatio := normalized_text (rr_imageRatio rr),
     AudioRatio := normalized_text (rr_audioRatio rr),
     AudioCompletionRatio := normalized_text (rr_audioCompletionRatio rr))"

definition serializeModel :: "price_model \<Rightarrow> price_error + serialized" where
  "serializeModel m =
     (if pm_billingMode m = Per_request then Inr ((\<lambda>_. None)(ModelPrice := normalized_text (pm_fixedPrice m)))
      else
        (let completionPrice = toNumberOrNull (JStr (pm_completionPrice m));
             cachePrice = toNumberOrNull (JStr (pm_cachePrice m));
             createCachePrice = toNumberOrNull (JStr (pm_createCachePrice m));
             imagePrice = toNumberOrNull (JStr (pm_imagePrice m));
             audioInputPrice = toNumberOrNull (JStr (pm_audioInputPrice m));
             audioOutputPrice = toNumberOrNull (JStr (pm_audioOutputPrice m));
             hasDependentPrice = list_ex (\<lambda>p. p \<noteq> None)
               [completionPrice, cachePrice, createCachePrice, imagePrice, audioInputPrice, audioOutputPrice]
         in case toNumberOrNull (JStr (pm_inputPrice m)) of
              None \<Rightarrow>
                if hasDependentPrice then Inl (No_input_price (pm_name m))
                else Inr (raw_serialized (pm_rawRatios m))
            | Some inputPrice \<Rightarrow>
                (let result = (\<lambda>_. None)(ModelRatio := toNormalizedNumber (JNum (num_div inputPrice (Fin 2))),
                       CompletionRatio :=
                         (if pm_completionRatioLocked m then normalized_text (rr_completionRatio (pm_rawRatios m))
                          else quotient_ratio completionPrice inputPrice),
                       CacheRatio := quotient_ratio cachePrice inputPrice,
                       CreateCacheRatio := quotient_ratio createCachePrice inputPrice,
                       ImageRatio := quotient_ratio imagePrice inputPrice,
                       AudioRatio := quotient_ratio audioInputPrice inputPrice)
                 in case audioOutputPrice of
                      None \<Rightarrow> Inr result
                    | Some out \<Rightarrow>
                        (case audioInputPrice of
                           None \<Rightarrow> Inl (No_audio_input_price (pm_name m))
                         | Some inp \<Rightarrow>
                             if inp = Fin 0 then Inl (No_audio_input_price (pm_name m))
                             else Inr (result(AudioCompletionRatio := toNormalizedNumber (JNum (num_div out inp))))))))"

section \<open>Preview\<close>

definition text_or_empty :: "(price_text \<Rightarrow> jstring) \<Rightarrow> jstring \<Rightarrow> jstring" where
  "text_or_empty t s = (if has_text s then s else t T_empty)"

definition quotient_text :: "(price_text \<Rightarrow> jstring) \<Rightarrow> jsnum option \<Rightarrow> jsnum \<Rightarrow> jstring" where
  "quotient_text t price base = (case price of None \<Rightarrow> t T_empty | Some p \<Rightarrow> formatNumber (JNum (num_div p base)))"

definition buildPreviewRows :: "(price_text \<Rightarrow> jstring) \<Rightarrow> price_model option \<Rightarrow> (price_key \<times> jstring) list" where
  "buildPreviewRows t mo = (case mo of None \<Rightarrow> [] | Some m \<Rightarrow>
     if pm_billingMode m = Per_request then [(ModelPrice, text_or_empty t (pm_fixedPrice m))]
     else case toNumberOrNull (JStr (pm_inputPrice m)) of
       None \<Rightarrow>
         (let rr = pm_rawRatios m in
          [(ModelRatio, text_or_empty t (rr_modelRatio rr)),
           (CompletionRatio, text_or_empty t (rr_completionRatio rr)),
           (CacheRatio, text_or_empty t (rr_cacheRatio rr)),
           (CreateCacheRatio, text_or_empty t (rr_createCacheRatio rr)),
           (ImageRatio, text_or_empty t (rr_imageRatio rr)),
           (AudioRatio, text_or_empty t (rr_audioRatio rr)),
           (AudioCompletionRatio, text_or_empty t (rr_audioCompletionRatio rr))])
     | Some inputPrice \<Rightarrow>
         (let audioInputPrice = toNumberOrNull (JStr (pm_audioInputPrice m)) in
          [(ModelRatio, formatNumber (JNum (num_div inputPrice (Fin 2)))),
           (CompletionRatio,
             if pm_completionRatioLocked m
             then (if pm_lockedCompletionRatio m \<noteq> [] then pm_lockedCompletionRatio m else t T_empty) @
               lit '' ('' @ t T_backend_fixed @ lit '')''
             else quotient_text t (toNumberOrNull (JStr (pm_completionPrice m))) inputPrice),
           (CacheRatio, quotient_text t (toNumberOrNull (JStr (pm_cachePrice m))) inputPrice),
           (CreateCacheRatio, quotient_text t (toNumberOrNull (JStr (pm_createCachePrice m))) inputPrice),
           (ImageRatio, quotient_text t (toNumberOrNull (JStr (pm_imagePrice m))) inputPrice),
           (AudioRatio, quotient_text t audioInputPrice inputPrice),
           (AudioCompletionRatio,
             case audioInputPrice of
               None \<Rightarrow> t T_empty
             | Some inp \<Rightarrow>
                 if inp = Fin 0 then t T_empty
                 else quotient_text t (toNumberOrNull (JStr (pm_audioOutputPrice m))) inp)]))"

end
