(* ===== verification/Pricing_Editor.thy ===== *)
theory Pricing_Editor
  imports Pricing_Model
begin

text \<open>
  The state of the price editor (\<^verbatim>\<open>useModelPricingEditorState\<close>), its effects, derived values and
  handlers. \<open>price_env\<close> holds what the hook reads from outside: the case table of the engine, the
  collation of \<^verbatim>\<open>localeCompare\<close>, the properties \<^verbatim>\<open>filterMode\<close> and \<^verbatim>\<open>candidateModelNames\<close>.
  Requests and messages are listed in \<open>ps_out\<close>. Saving is three steps, since other events may
  come between them: the requests are sent, they are answered, the refresh ends.
\<close>

section \<open>State\<close>

datatype filter_mode = Filter_all | Filter_unset

record price_env =
  pe_lower :: unicode_map
  pe_collate :: "jstring \<Rightarrow> jstring \<Rightarrow> bool"
  pe_filterMode :: filter_mode
  pe_candidates :: "jstring list"

datatype price_message = Msg_name_missing | Msg_name_exists | Msg_no_template | Msg_none_checked
  | Msg_price_error price_error | Msg_text jstring | Msg_save_failed

datatype price_effect = Price_error price_message | Applied jstring nat | Saved
  | Put_option price_key jstring | Refresh

record price_state =
  ps_models :: "price_model list"
  ps_initialVisibleModelNames :: "jstring list"
  ps_selectedModelName :: jstring
  ps_selectedModelNames :: "jstring list"
  ps_searchText :: jstring
  ps_currentPage :: nat
  ps_loading :: bool
  ps_conflictOnly :: bool
  ps_optionalFieldToggles :: "jstring \<Rightarrow> toggles option"
  ps_out :: "price_effect list"

definition PAGE_SIZE :: nat where
  "PAGE_SIZE = 10"

definition price_initial :: price_state where
  "price_initial = \<lparr>ps_models = [], ps_initialVisibleModelNames = [], ps_selectedModelName = [],
     ps_selectedModelNames = [], ps_searchText = [], ps_currentPage = 1, ps_loading = False,
     ps_conflictOnly = False, ps_optionalFieldToggles = (\<lambda>_. None), ps_out = []\<rparr>"

definition price_emit :: "price_effect \<Rightarrow> price_state \<Rightarrow> price_state" where
  "price_emit e st = st\<lparr>ps_out := ps_out st @ [e]\<rparr>"

section \<open>Loading the options\<close>

definition source_keys :: "price_key list" where
  "source_keys = [ModelPrice, ModelRatio, CompletionRatio, CompletionRatioMeta, CacheRatio,
     CreateCacheRatio, ImageRatio, AudioRatio, AudioCompletionRatio]"

definition model_names :: "jstring list \<Rightarrow> source_maps \<Rightarrow> jstring list" where
  "model_names candidates maps =
     dedup (candidates @ concat (map (\<lambda>k. map fst (entries_of (maps k))) source_keys))"

definition next_models :: "price_env \<Rightarrow> (price_key \<Rightarrow> jstring option) \<Rightarrow> price_model list" where
  "next_models env options =
     (let maps = (\<lambda>k. parseOptionJSON (options k))
      in stable_sort (\<lambda>a b. pe_collate env (pm_name a) (pm_name b))
           (map (\<lambda>name. buildModelState name maps) (model_names (pe_candidates env) maps)))"

definition effect_options :: "price_env \<Rightarrow> (price_key \<Rightarrow> jstring option) \<Rightarrow> price_state \<Rightarrow> price_state" where
  "effect_options env options st =
     (let nextModels = next_models env options;
          nextVisible = (if pe_filterMode env = Filter_unset then filter isBasePricingUnset nextModels else nextModels);
          previous = ps_selectedModelName st
      in st\<lparr>ps_models := nextModels,
            ps_initialVisibleModelNames := map pm_name nextVisible,
            ps_optionalFieldToggles :=
              foldl (\<lambda>acc m. acc(pm_name m \<mapsto> buildOptionalFieldToggles m)) (\<lambda>_. None) nextModels,
            ps_selectedModelName :=
              (if previous \<noteq> [] \<and> previous \<in> pm_name ` set nextModels then previous
               else case nextVisible of m # _ \<Rightarrow> pm_name m | [] \<Rightarrow> [])\<rparr>)"

section \<open>Derived values\<close>

definition visibleModels :: "price_env \<Rightarrow> price_state \<Rightarrow> price_model list" where
  "visibleModels env st =
     (if pe_filterMode env = Filter_unset
      then filter (\<lambda>m. pm_name m \<in> set (ps_initialVisibleModelNames st)) (ps_models st)
      else ps_models st)"

definition filteredModels :: "price_env \<Rightarrow> price_state \<Rightarrow> price_model list" where
  "filteredModels env st = filter (\<lambda>m.
     (let keyword = to_lower (pe_lower env) (trim (ps_searchText st));
          keywordMatch = (if keyword \<noteq> [] then includes_str (to_lower (pe_lower env) (pm_name m)) keyword else True);
          conflictMatch = (if ps_conflictOnly st then pm_hasConflict m else True)
      in keywordMatch \<and> conflictMatch)) (visibleModels env st)"

definition pagedData :: "price_env \<Rightarrow> price_state \<Rightarrow> price_model list" where
  "pagedData env st =
     (let start = (ps_currentPage st - 1) * PAGE_SIZE in slice start (start + PAGE_SIZE) (filteredModels env st))"

definition selectedModel :: "price_env \<Rightarrow> price_state \<Rightarrow> price_model option" where
  "selectedModel env st = List.find (\<lambda>m. pm_name m = ps_selectedModelName st) (visibleModels env st)"

definition selectedWarnings :: "price_env \<Rightarrow> price_state \<Rightarrow> price_warning list" where
  "selectedWarnings env st = getModelWarnings (selectedModel env st)"

definition previewRows :: "price_env \<Rightarrow> (price_text \<Rightarrow> jstring) \<Rightarrow> price_state \<Rightarrow> (price_key \<times> jstring) list" where
  "previewRows env t st = buildPreviewRows t (selectedModel env st)"

definition effect_page :: "price_state \<Rightarrow> price_state" where
  "effect_page st = st\<lparr>ps_currentPage := 1\<rparr>"

definition effect_checked :: "price_env \<Rightarrow> price_state \<Rightarrow> price_state" where
  "effect_checked env st = st\<lparr>ps_selectedModelNames :=
     filter (\<lambda>n. n \<in> pm_name ` set (visibleModels env st)) (ps_selectedModelNames st)\<rparr>"

definition effect_selected :: "price_env \<Rightarrow> price_state \<Rightarrow> price_state" where
  "effect_selected env st = (case visibleModels env st of
       [] \<Rightarrow> st\<lparr>ps_selectedModelName := []\<rparr>
     | m # _ \<Rightarrow>
         if ps_selectedModelName st \<in> pm_name ` set (visibleModels env st) then st
         else st\<lparr>ps_selectedModelName := pm_name m\<rparr>)"

section \<open>Editing\<close>

definition upsertModel :: "jstring \<Rightarrow> (price_model \<Rightarrow> price_model) \<Rightarrow> price_state \<Rightarrow> price_state" where
  "upsertModel name updater st =
     st\<lparr>ps_models := map (\<lambda>m. if pm_name m \<noteq> name then m else updater m) (ps_models st)\<rparr>"

definition isOptionalFieldEnabled :: "price_state \<Rightarrow> price_model option \<Rightarrow> price_field \<Rightarrow> bool option" where
  "isOptionalFieldEnabled st mo field = (case mo of
       None \<Rightarrow> Some False
     | Some m \<Rightarrow>
         (case ps_optionalFieldToggles st (pm_name m) of
            Some tg \<Rightarrow>
              (case tg field of Some b \<Rightarrow> Some b | None \<Rightarrow> buildOptionalFieldToggles m field)
          | None \<Rightarrow> buildOptionalFieldToggles m field))"

definition toggles_of :: "jstring \<Rightarrow> price_state \<Rightarrow> toggles" where
  "toggles_of name st = (case ps_optionalFieldToggles st name of Some tg \<Rightarrow> tg | None \<Rightarrow> (\<lambda>_. None))"

definition updateOptionalFieldToggle :: "jstring \<Rightarrow> price_field \<Rightarrow> bool \<Rightarrow> price_state \<Rightarrow> price_state" where
  "updateOptionalFieldToggle modelName field checked st =
     st\<lparr>ps_optionalFieldToggles :=
       (ps_optionalFieldToggles st)(modelName \<mapsto> (toggles_of modelName st)(field \<mapsto> checked))\<rparr>"

fun set_field :: "price_field \<Rightarrow> jstring \<Rightarrow> price_model \<Rightarrow> price_model" where
  "set_field F_fixedPrice s m = m\<lparr>pm_fixedPrice := s\<rparr>"
| "set_field F_inputPrice s m = m\<lparr>pm_inputPrice := s\<rparr>"
| "set_field F_completionPrice s m = m\<lparr>pm_completionPrice := s\<rparr>"
| "set_field F_cachePrice s m = m\<lparr>pm_cachePrice := s\<rparr>"
| "set_field F_createCachePrice s m = m\<lparr>pm_createCachePrice := s\<rparr>"
| "set_field F_imagePrice s m = m\<lparr>pm_imagePrice := s\<rparr>"
| "set_field F_audioInputPrice s m = m\<lparr>pm_audioInputPrice := s\<rparr>"
| "set_field F_audioOutputPrice s m = m\<lparr>pm_audioOutputPrice := s\<rparr>"

text \<open>The selected model is among the models, so the updater that resets the audio switches runs.\<close>

definition handleOptionalFieldToggle :: "price_env \<Rightarrow> price_field \<Rightarrow> bool \<Rightarrow> price_state \<Rightarrow> price_state" where
  "handleOptionalFieldToggle env field checked st = (case selectedModel env st of
       None \<Rightarrow> st
     | Some sel \<Rightarrow>
         (let st1 = updateOptionalFieldToggle (pm_name sel) field checked st
          in if checked then st1
             else
               (let st2 = upsertModel (pm_name sel) (\<lambda>m.
                      (let nextModel = set_field field [] m
                       in if field = F_audioInputPrice then set_field F_audioOutputPrice [] nextModel
                          else nextModel)) st1
                in if field = F_audioInputPrice
                   then updateOptionalFieldToggle (pm_name sel) F_audioOutputPrice False
                          (updateOptionalFieldToggle (pm_name sel) F_audioInputPrice False st2)
                   else st2)))"

definition derived_price :: "jsnum \<Rightarrow> jstring \<Rightarrow> jstring \<Rightarrow> jstring" where
  "derived_price base current ratio =
     (if \<not> has_text current \<and> has_text ratio
      then formatNumber (JNum (num_mul base (js_number (JStr ratio)))) else current)"

definition fillDerivedPricesFromBase :: "price_model \<Rightarrow> jstring \<Rightarrow> price_model" where
  "fillDerivedPricesFromBase m nextInputPrice = (case toNumberOrNull (JStr nextInputPrice) of
       None \<Rightarrow> m
     | Some base \<Rightarrow>
         (let rr = pm_rawRatios m in
          m\<lparr>pm_completionPrice :=
              (if pm_completionRatioLocked m \<and> has_text (pm_lockedCompletionRatio m)
               then formatNumber (JNum (num_mul base (js_number (JStr (pm_lockedCompletionRatio m)))))
               else derived_price base (pm_completionPrice m) (rr_completionRatio rr)),
            pm_cachePrice := derived_price base (pm_cachePrice m) (rr_cacheRatio rr),
            pm_createCachePrice := derived_price base (pm_createCachePrice m) (rr_createCacheRatio rr),
            pm_imagePrice := derived_price base (pm_imagePrice m) (rr_imageRatio rr),
            pm_audioInputPrice := derived_price base (pm_audioInputPrice m) (rr_audioRatio rr),
            pm_audioOutputPrice :=
              (if \<not> has_text (pm_audioOutputPrice m) \<and> has_text (rr_audioRatio rr) \<and>
                  has_text (rr_audioCompletionRatio rr)
               then formatNumber (JNum (num_mul (num_mul base (js_number (JStr (rr_audioRatio rr))))
                      (js_number (JStr (rr_audioCompletionRatio rr)))))
               else pm_audioOutputPrice m)\<rparr>))"

definition handleNumericFieldChange :: "price_env \<Rightarrow> price_field \<Rightarrow> jstring \<Rightarrow> price_state \<Rightarrow> price_state" where
  "handleNumericFieldChange env field s st = (case selectedModel env st of
       None \<Rightarrow> st
     | Some sel \<Rightarrow>
         if \<not> numeric_input s then st
         else upsertModel (pm_name sel) (\<lambda>m.
           (let updatedModel = set_field field s m
            in if field = F_inputPrice then fillDerivedPricesFromBase updatedModel s else updatedModel)) st)"

definition handleBillingModeChange :: "price_env \<Rightarrow> billing_mode \<Rightarrow> price_state \<Rightarrow> price_state" where
  "handleBillingModeChange env mode st = (case selectedModel env st of
       None \<Rightarrow> st
     | Some sel \<Rightarrow> upsertModel (pm_name sel) (\<lambda>m. m\<lparr>pm_billingMode := mode\<rparr>) st)"

definition addModel :: "jstring \<Rightarrow> price_state \<Rightarrow> bool \<times> price_state" where
  "addModel modelName st =
     (let trimmedName = trim modelName; nextModel = EMPTY_MODEL\<lparr>pm_name := trimmedName\<rparr> in
      if trimmedName = [] then (False, price_emit (Price_error Msg_name_missing) st)
      else if trimmedName \<in> pm_name ` set (ps_models st) then (False, price_emit (Price_error Msg_name_exists) st)
      else (True, st\<lparr>ps_models := nextModel # ps_models st,
              ps_optionalFieldToggles := (ps_optionalFieldToggles st)(trimmedName \<mapsto> buildOptionalFieldToggles nextModel),
              ps_selectedModelName := trimmedName, ps_currentPage := 1\<rparr>))"

definition deleteModel :: "jstring \<Rightarrow> price_state \<Rightarrow> price_state" where
  "deleteModel name st =
     (let nextModels = filter (\<lambda>m. pm_name m \<noteq> name) (ps_models st)
      in st\<lparr>ps_models := nextModels,
            ps_optionalFieldToggles := (ps_optionalFieldToggles st)(name := None),
            ps_selectedModelNames := filter (\<lambda>n. n \<noteq> name) (ps_selectedModelNames st),
            ps_selectedModelName :=
              (if ps_selectedModelName st = name then (case nextModels of m # _ \<Rightarrow> pm_name m | [] \<Rightarrow> [])
               else ps_selectedModelName st)\<rparr>)"

definition copy_prices :: "price_model \<Rightarrow> price_model \<Rightarrow> price_model" where
  "copy_prices sel m =
     (let nextModel = m\<lparr>pm_billingMode := pm_billingMode sel, pm_fixedPrice := pm_fixedPrice sel,
            pm_inputPrice := pm_inputPrice sel, pm_completionPrice := pm_completionPrice sel,
            pm_cachePrice := pm_cachePrice sel, pm_createCachePrice := pm_createCachePrice sel,
            pm_imagePrice := pm_imagePrice sel, pm_audioInputPrice := pm_audioInputPrice sel,
            pm_audioOutputPrice := pm_audioOutputPrice sel\<rparr>
      in if pm_billingMode nextModel = Per_token \<and> pm_completionRatioLocked nextModel \<and>
            has_text (pm_inputPrice nextModel) \<and> has_text (pm_lockedCompletionRatio nextModel)
         then nextModel\<lparr>pm_completionPrice := formatNumber (JNum
                (num_mul (js_number (JStr (pm_inputPrice nextModel)))
                  (js_number (JStr (pm_lockedCompletionRatio nextModel)))))\<rparr>
         else nextModel)"

definition copy_toggles :: "toggles \<Rightarrow> price_model option \<Rightarrow> toggles" where
  "copy_toggles src target =
     (let on = (\<lambda>f. src f = Some True)
      in (\<lambda>_. None)(F_completionPrice \<mapsto>
             (if (case target of Some m \<Rightarrow> pm_completionRatioLocked m | None \<Rightarrow> False) then True
              else on F_completionPrice),
           F_cachePrice \<mapsto> on F_cachePrice, F_createCachePrice \<mapsto> on F_createCachePrice,
           F_imagePrice \<mapsto> on F_imagePrice, F_audioInputPrice \<mapsto> on F_audioInputPrice,
           F_audioOutputPrice \<mapsto> (on F_audioInputPrice \<and> on F_audioOutputPrice)))"

definition applySelectedModelPricing :: "price_env \<Rightarrow> price_state \<Rightarrow> bool \<times> price_state" where
  "applySelectedModelPricing env st = (case selectedModel env st of
       None \<Rightarrow> (False, price_emit (Price_error Msg_no_template) st)
     | Some sel \<Rightarrow>
         if ps_selectedModelNames st = [] then (False, price_emit (Price_error Msg_none_checked) st)
         else
           (let sourceToggles = toggles_of (pm_name sel) st
            in (True, price_emit (Applied (pm_name sel) (length (ps_selectedModelNames st)))
                 (st\<lparr>ps_models := map (\<lambda>m. if pm_name m \<notin> set (ps_selectedModelNames st) then m
                        else copy_prices sel m) (ps_models st),
                     ps_optionalFieldToggles := foldl (\<lambda>acc n.
                        acc(n \<mapsto> copy_toggles sourceToggles (List.find (\<lambda>m. pm_name m = n) (ps_models st))))
                        (ps_optionalFieldToggles st) (ps_selectedModelNames st)\<rparr>))))"

section \<open>Saving\<close>

definition output_keys :: "price_key list" where
  "output_keys = [ModelPrice, ModelRatio, CompletionRatio, CacheRatio, CreateCacheRatio, ImageRatio,
     AudioRatio, AudioCompletionRatio]"

type_synonym price_output = "price_key \<Rightarrow> props"

definition add_serialized :: "jstring \<Rightarrow> serialized \<Rightarrow> price_output \<Rightarrow> price_output" where
  "add_serialized name ser out = (\<lambda>k. case ser k of Some x \<Rightarrow> obj_set name (JNum x) (out k) | None \<Rightarrow> out k)"

fun collect_output :: "price_model list \<Rightarrow> price_output \<Rightarrow> price_error + price_output" where
  "collect_output [] out = Inr out"
| "collect_output (m # ms) out = (case serializeModel m of
       Inl e \<Rightarrow> Inl e
     | Inr ser \<Rightarrow> collect_output ms (add_serialized (pm_name m) ser out))"

text \<open>\<^verbatim>\<open>handleSubmit\<close> up to the \<^verbatim>\<open>await\<close> of the requests.\<close>

definition handleSubmit_send :: "price_state \<Rightarrow> price_state" where
  "handleSubmit_send st = (case collect_output (ps_models st) (\<lambda>_. []) of
       Inl e \<Rightarrow> (price_emit (Price_error (Msg_price_error e)) st)\<lparr>ps_loading := False\<rparr>
     | Inr out \<Rightarrow>
         (foldl (\<lambda>s k. price_emit (Put_option k (json_stringify2 (JObj (out k)))) s) st output_keys)\<lparr>ps_loading := True\<rparr>)"

definition save_message :: "jstring \<Rightarrow> price_message" where
  "save_message s = (if s \<noteq> [] then Msg_text s else Msg_save_failed)"

text \<open>
  The answers of the requests: \<open>Inl\<close> the message of the rejection that \<^verbatim>\<open>Promise.all\<close> passes on,
  or the data of each response, \<^verbatim>\<open>{ success, message }\<close>, in the order of the requests.
\<close>

definition handleSubmit_answer :: "jstring + jsv list \<Rightarrow> price_state \<Rightarrow> price_state" where
  "handleSubmit_answer answers st = (case answers of
       Inl msg \<Rightarrow> (price_emit (Price_error (save_message msg)) st)\<lparr>ps_loading := False\<rparr>
     | Inr rs \<Rightarrow>
         (case List.find (\<lambda>d. \<not> truthy (get_prop (lit ''success'') d)) rs of
            Some d \<Rightarrow>
              (let m = get_prop (lit ''message'') d
               in (price_emit (Price_error (if truthy m then save_message (js_string m) else Msg_save_failed)) st)\<lparr>ps_loading := False\<rparr>)
          | None \<Rightarrow> price_emit Refresh (price_emit Saved st)))"

definition handleSubmit_end :: "jstring option \<Rightarrow> price_state \<Rightarrow> price_state" where
  "handleSubmit_end failed st =
     (case failed of Some msg \<Rightarrow> price_emit (Price_error (save_message msg)) st | None \<Rightarrow> st)\<lparr>ps_loading := False\<rparr>"

end
