(* ===== verification/Js_Fixed.thy ===== *)
theory Js_Fixed
  imports Js_Number_Facts
begin

text \<open>
  \<^verbatim>\<open>parseFloat(x.toFixed(12))\<close>, the rounding the price editors apply to every number: its result is
  a finite number, rounding twice is rounding once, and the result stays fixed when it is doubled.
\<close>

section \<open>Reading a fixed-point text\<close>

lemma pad_zeros_digits: "digits_val (pad_zeros w s) = digits_val s"
  by (simp add: pad_zeros_def digits_val_append)

lemma scan_fixed_magnitude:
  assumes "0 < f"
  shows "scan_decimal (fixed_magnitude f x) = Some (of_nat (nat \<lfloor>x * 10 ^ f + 1 / 2\<rfloor>) / 10 ^ f, [])"
proof -
  define m where "m = pad_zeros (f + 1) (show_nat (nat \<lfloor>x * 10 ^ f + 1 / 2\<rfloor>))"
  have dg: "\<forall>c \<in> set m. is_digit c" by (auto simp: m_def pad_zeros_def is_digit_def dest: show_nat_digits)
  have len: "f < length m" by (simp add: m_def pad_zeros_def)
  define k where "k = length m - f"
  have k: "0 < k" "length m = k + f" using len by (auto simp: k_def)
  have "all_digits (take k m)" "\<forall>c \<in> set (drop k m). is_digit c"
    using dg k by (auto simp: all_digits_def dest: in_set_takeD in_set_dropD)
  from scan_decimal_point [OF this scan_exponent_none, of "[]"]
  have "scan_decimal (take k m @ 46 # drop k m) = Some (of_nat (digits_val m) * 10 powi (- int f), [])"
    using k by simp
  moreover have "fixed_magnitude f x = take k m @ 46 # drop k m"
    using assms by (simp add: fixed_magnitude_def Let_def m_def k_def)
  ultimately show ?thesis
    by (simp add: m_def pad_zeros_digits power_int_minus inverse_eq_divide)
qed

lemma hd_fixed_magnitude: "0 < f \<Longrightarrow> is_digit (hd (fixed_magnitude f x)) \<and> fixed_magnitude f x \<noteq> []"
proof -
  assume "0 < f"
  define m where "m = pad_zeros (f + 1) (show_nat (nat \<lfloor>x * 10 ^ f + 1 / 2\<rfloor>))"
  have dg: "\<forall>c \<in> set m. is_digit c" by (auto simp: m_def pad_zeros_def is_digit_def dest: show_nat_digits)
  have len: "f < length m" by (simp add: m_def pad_zeros_def)
  have "fixed_magnitude f x = take (length m - f) m @ [46] @ drop (length m - f) m"
    using \<open>0 < f\<close> by (simp add: fixed_magnitude_def Let_def m_def)
  moreover have "hd (take (length m - f) m @ [46] @ drop (length m - f) m) = hd m" "m \<noteq> []"
    using len by (cases m; auto simp: take_Cons')+
  ultimately show ?thesis using dg by simp
qed

lemma parse_float_scan:
  assumes "scan_decimal s = Some (v, r)" "is_digit (hd s)" "s \<noteq> []"
  shows "parse_float s = double v" "parse_float (45 # s) = num_neg (double v)"
proof -
  have "trim_start s = s" "trim_start (45 # s) = 45 # s"
    using assms(2,3) is_ws_not_digit by (auto intro!: trim_start_keep simp: is_ws_def ws_units_def)
  moreover have "split_sign s = (False, s)" "split_sign (45 # s) = (True, s)" "\<not> starts_with s (lit ''Infinity'')"
    using assms(2,3) by (cases s; auto simp: split_sign_def is_digit_def starts_with_def lit_def)+
  ultimately show "parse_float s = double v" "parse_float (45 # s) = num_neg (double v)"
    using assms(1) by (simp_all add: parse_float_def signed_def)
qed

lemma parse_float_positive: "double x = Fin x \<Longrightarrow> 0 < x \<Longrightarrow> parse_float (positive_to_string x) = Fin x"
  using scan_positive [of x "[]"] positive_to_string_units(1,2) [of x] parse_float_scan(1) by fastforce

text \<open>The number of units of \<open>10 ^ - 12\<close> nearest to \<open>x\<close>, and the rounded number.\<close>

definition units12 :: "rat \<Rightarrow> nat" where
  "units12 x = nat \<lfloor>x * 10 ^ 12 + 1 / 2\<rfloor>"

definition fixed12 :: "jsnum \<Rightarrow> jsnum" where
  "fixed12 x = parse_float (to_fixed 12 x)"

lemma fixed12_small: "0 \<le> x \<Longrightarrow> x < 10 ^ 21 \<Longrightarrow> fixed12 (Fin x) = double (of_nat (units12 x) / 10 ^ 12)"
  using parse_float_scan(1) [OF scan_fixed_magnitude [of 12 x]] hd_fixed_magnitude [of 12 x]
  by (simp add: fixed12_def units12_def)

lemma fixed12_big: "double x = Fin x \<Longrightarrow> 10 ^ 21 \<le> x \<Longrightarrow> fixed12 (Fin x) = Fin x"
  using parse_float_positive [of x] by (simp add: fixed12_def num_to_string.simps(4))

lemma fixed12_neg: "double x = Fin x \<Longrightarrow> 0 < x \<Longrightarrow> fixed12 (Fin (- x)) = num_neg (fixed12 (Fin x))"
proof (cases "10 ^ 21 \<le> x")
  case True
  assume x: "double x = Fin x" "0 < x"
  obtain v where v: "scan_decimal (positive_to_string x) = Some (v, [])" "double v = Fin x"
    using scan_positive [OF x, of "[]"] by auto
  show ?thesis
    using True x v positive_to_string_units(1,2) [OF x] parse_float_scan [OF v(1)]
    by (simp add: fixed12_def num_to_string.simps(4))
next
  case False
  assume "0 < x"
  with False show ?thesis
    using parse_float_scan [OF scan_fixed_magnitude [of 12 x]] hd_fixed_magnitude [of 12 x]
    by (simp add: fixed12_def)
qed

section \<open>Bounds on the rounding error\<close>

lemma round_even_error: "\<bar>of_int (round_even r) - r\<bar> \<le> 1 / 2"
proof -
  have "of_int \<lfloor>r\<rfloor> \<le> r" "r < of_int \<lfloor>r\<rfloor> + 1" by linarith+
  then show ?thesis
    by (auto simp: round_even_def Let_def abs_if) (use of_int_floor_le [of r] in linarith)
qed

lemma double_error:
  assumes r: "0 < r" "r < 8192"
  shows "\<exists>q. double r = Fin q \<and> \<bar>q - r\<bar> * 2 ^ 41 \<le> 1 \<and> 0 \<le> q"
proof -
  define e where "e = max (flog 2 r) (- 1022)"
  define u where "u = (2::rat) powi (e - 52)"
  have "flog 2 r \<le> 12" using r by (intro flog_le) simp_all
  then have "u \<le> 2 powi (- 40)" unfolding u_def e_def by (intro power_int_increasing) auto
  then have u: "u \<le> 1 / 2 ^ 40" "0 < u" by (simp_all add: u_def power_int_minus inverse_eq_divide)
  have rm: "round_mag r = of_int (round_even (r / u)) * u" by (simp add: round_mag_def Let_def u_def e_def)
  have "\<bar>of_int (round_even (r / u)) - r / u\<bar> * u \<le> 1 / 2 * u"
    using round_even_error u(2) by (intro mult_right_mono) auto
  moreover have "\<bar>of_int (round_even (r / u)) - r / u\<bar> * u = \<bar>round_mag r - r\<bar>"
    using u(2) by (simp add: rm abs_mult_pos left_diff_distrib)
  ultimately have err: "\<bar>round_mag r - r\<bar> \<le> u / 2" by simp
  have nn: "0 \<le> round_mag r"
    unfolding rm using u(2) r round_even_ge [of 0 "r / u"] by simp
  have "u \<le> 1" using u(1) by simp
  then have "round_mag r \<le> 8193" using err r by (simp add: abs_if split: if_splits)
  also have "(8193 :: rat) < 2 ^ 1024"
  proof -
    have "(8193 :: rat) < 2 ^ 14" by simp
    also have "(2 :: rat) ^ 14 \<le> 2 ^ 1024" by (rule power_increasing) simp_all
    finally show ?thesis .
  qed
  finally have "double r = Fin (round_mag r)" using r(1) by (simp only: double_def Let_def) auto
  then show ?thesis using err u(1) nn by (intro exI [of _ "round_mag r"]) (simp add: field_simps)
qed

lemma round_half_below:
  assumes nf: "normal_form x k e" and z: "0 < z" "z < x" "x - 2 powi (e - 52) / 2 < z" and k: "2 ^ 52 < k"
  shows "round_mag z = x"
proof -
  define u where "u = (2::rat) powi (e - 52)"
  have u: "0 < u" by (simp add: u_def)
  have x: "x = of_int k * u" and kp: "0 < k" "k < 2 ^ 53" "- 1022 \<le> e"
    using nf by (simp_all add: normal_form_def u_def)
  have "x < 2 ^ 53 * u" unfolding x using of_int_bits(1) [OF kp(2)] u by (intro mult_strict_right_mono) simp_all
  have zu: "x - u / 2 < z" using z by (simp add: u_def)
  have "z < 2 powi (e + 1)" using \<open>x < 2 ^ 53 * u\<close> z two_53 [of e] by (simp add: u_def)
  moreover have "2 powi e \<le> z"
  proof -
    have "(2 ^ 52 + 1) * u \<le> x" unfolding x using u k by (intro mult_right_mono of_int_bits) simp_all
    then have "2 ^ 52 * u \<le> z" using zu u by (simp add: algebra_simps)
    then show ?thesis using two_52 [of e] by (simp add: u_def)
  qed
  ultimately have e: "max (flog 2 z) (- 1022) = e" using nf z by (intro normal_form_exponent) simp_all
  have "of_int k - 1 / 2 < z / u" using zu u by (simp add: x less_divide_eq algebra_simps)
  moreover have "z / u < of_int k + 1 / 2" using z u by (simp add: x divide_less_eq algebra_simps)
  ultimately show ?thesis using round_mag_at [OF e] by (simp add: x u_def)
qed

section \<open>Rounding twice is rounding once\<close>

lemma units12_bounds:
  assumes "0 \<le> x"
  shows "of_nat (units12 x) \<le> x * 10 ^ 12 + 1 / 2" "x * 10 ^ 12 - 1 / 2 < of_nat (units12 x)"
proof -
  have "0 \<le> \<lfloor>x * 10 ^ 12 + 1 / 2\<rfloor>" using assms by (simp add: zero_le_floor)
  then have "(of_nat (units12 x) :: rat) = of_int \<lfloor>x * 10 ^ 12 + 1 / 2\<rfloor>" by (simp add: units12_def)
  moreover have "of_int \<lfloor>x * 10 ^ 12 + 1 / 2\<rfloor> \<le> x * 10 ^ 12 + 1 / 2"
    "x * 10 ^ 12 + 1 / 2 < of_int \<lfloor>x * 10 ^ 12 + 1 / 2\<rfloor> + 1"
    by linarith+
  ultimately show "of_nat (units12 x) \<le> x * 10 ^ 12 + 1 / 2" "x * 10 ^ 12 - 1 / 2 < of_nat (units12 x)"
    by linarith+
qed

lemma units12_eq: "\<bar>x * 10 ^ 12 - of_nat k\<bar> < 1 / 2 \<Longrightarrow> units12 x = k"
proof -
  assume a: "\<bar>x * 10 ^ 12 - of_nat k\<bar> < 1 / 2"
  then have "of_int (int k) \<le> x * 10 ^ 12 + 1 / 2" "x * 10 ^ 12 + 1 / 2 < of_int (int k) + 1"
    unfolding of_int_of_nat_eq by linarith+
  then have "\<lfloor>x * 10 ^ 12 + 1 / 2\<rfloor> = int k" by (rule floor_unique)
  then show ?thesis by (simp add: units12_def)
qed

lemma double_units12_small:
  assumes "0 < K" "double (of_nat K / 10 ^ 12) = Fin q" "q < 8192"
  shows "units12 q = K"
proof -
  define v where "v = (of_nat K :: rat) / 10 ^ 12"
  have v: "0 < v" using assms(1) by (simp add: v_def)
  have "v < 8192"
  proof (rule ccontr)
    assume "\<not> v < 8192"
    then have "round_mag 8192 \<le> round_mag v" by (intro round_mag_mono) simp_all
    moreover have "round_mag 8192 = 8192" by (rule round_mag_exact [of "2 ^ 13" 52]) simp_all
    moreover have "q = round_mag v" using assms(2) v unfolding v_def [symmetric] double_def Let_def
      by (simp split: if_splits)
    ultimately show False using assms(3) by simp
  qed
  from double_error [OF v this] assms(2) have "\<bar>q - v\<bar> * 2 ^ 41 \<le> 1" by (simp add: v_def)
  then have "\<bar>q * 10 ^ 12 - of_nat K\<bar> < 1 / 2" unfolding v_def by (simp add: abs_if field_simps split: if_splits)
  then show ?thesis by (rule units12_eq)
qed

lemma double_units12_large:
  assumes q: "double q = Fin q" "8192 \<le> q"
  shows "double (of_nat (units12 q) / 10 ^ 12) = Fin q"
proof -
  define z where "z = (of_nat (units12 q) :: rat) / 10 ^ 12"
  have zq: "\<bar>z - q\<bar> * (2 * 10 ^ 12) \<le> 1"
    using units12_bounds [of q] q(2) unfolding z_def by (simp add: abs_if field_simps split: if_splits)
  have zp: "0 < z" using zq q(2) by (simp add: abs_if split: if_splits)
  obtain k e where nf: "normal_form q k e" and big: "q < 2 ^ 1024"
    using double_pos_form [OF q(1)] q(2) by fastforce
  define u where "u = (2::rat) powi (e - 52)"
  have x: "q = of_int k * u" and kp: "0 < k" "k < 2 ^ 53" "2 ^ 52 \<le> k \<or> e = - 1022" and up: "0 < u"
    using nf by (simp_all add: normal_form_def u_def)
  have "q < 2 ^ 53 * u" unfolding x using of_int_bits(1) [OF kp(2)] up by (intro mult_strict_right_mono) simp_all
  then have "(2::rat) powi 13 < 2 powi (e + 1)" using q(2) two_53 [of e] by (simp add: u_def)
  then have e: "13 \<le> e" using powi_less_imp_less [of "2::rat" 13 "e + 1"] by simp
  then have "(2::rat) powi (- 39) \<le> u" unfolding u_def by (intro power_int_increasing) auto
  then have u: "1 \<le> u * 2 ^ 39" by (simp add: power_int_minus inverse_eq_divide)
  have near: "\<bar>z - q\<bar> < u / 2" using zq u by (simp add: abs_if split: if_splits)
  have "round_mag z = q"
  proof (cases "q \<le> z")
    case True
    with near nf show ?thesis by (intro round_near_above) (auto simp: u_def)
  next
    case False
    have "k \<noteq> 2 ^ 52"
    proof
      assume "k = 2 ^ 52"
      then have "q = 2 powi e" using two_52 [of e] by (simp add: x u_def)
      then have "q = of_nat (2 ^ nat e)" using e by (simp add: power_int_def)
      then have "q * 10 ^ 12 = of_nat (2 ^ nat e * 10 ^ 12)" by simp
      then have "units12 q = 2 ^ nat e * 10 ^ 12" by (intro units12_eq) simp
      with \<open>q = of_nat (2 ^ nat e)\<close> have "z = q" by (simp add: z_def)
      with False show False by simp
    qed
    then have "2 ^ 52 < k" using kp(3) e by auto
    with False near nf zp show ?thesis by (intro round_half_below) (auto simp: u_def)
  qed
  then show ?thesis using zp big q(2) unfolding z_def [symmetric] double_def Let_def by (simp del: power_numeral)
qed

lemma fixed12_units:
  assumes "double (of_nat K / 10 ^ 12) = Fin q"
  shows "fixed12 (Fin q) = Fin q"
proof -
  have d: "double q = Fin q" using assms by (rule double_idem)
  have q: "0 \<le> q"
    using assms round_even_ge [of 0] by (auto simp: double_def Let_def round_mag_def split: if_splits)
  consider "10 ^ 21 \<le> q" | "q < 10 ^ 21" "8192 \<le> q" | "q < 8192" "0 < K" | "K = 0" by fastforce
  then show ?thesis
  proof cases
    case 3
    then have "fixed12 (Fin q) = double (of_nat (units12 q) / 10 ^ 12)" using q by (intro fixed12_small) auto
    with double_units12_small [OF 3(2) assms 3(1)] assms show ?thesis by simp
  next
    case 4
    then have "q = 0" using assms by (simp add: double_def)
    then show ?thesis by (simp add: fixed12_small units12_def double_def)
  next
    case 2
    show ?thesis using fixed12_small [OF q 2(1)] double_units12_large [OF d 2(2)] by simp
  qed (use d in \<open>simp add: fixed12_big\<close>)
qed

section \<open>Halves and doubles\<close>

lemma double_finite:
  assumes "0 \<le> r" "r \<le> 2 ^ 1023"
  shows "\<exists>q. double r = Fin q \<and> 0 \<le> q"
proof (cases "r = 0")
  case True
  then show ?thesis by (simp add: double_def)
next
  case False
  have "round_mag r \<le> round_mag (2 ^ 1023)" using False assms by (intro round_mag_mono) simp_all
  also have "round_mag ((2::rat) ^ 1023) = 2 ^ 1023"
  proof (rule round_mag_exact [of "2 ^ 52" 1023])
    show "(2::rat) ^ 1023 = of_int (2 ^ 52) * 2 powi (1023 - 52)"
      by (simp add: power_add [symmetric] del: power_numeral)
  qed simp_all
  also have "(2::rat) ^ 1023 < 2 ^ 1024" by (rule power_strict_increasing) simp_all
  finally have "round_mag r < 2 ^ 1024" .
  moreover have "0 \<le> round_mag r"
    using assms(1) round_even_ge [of 0] by (simp add: round_mag_def Let_def)
  ultimately show ?thesis using assms(1) False by (simp add: double_def Let_def del: power_numeral)
qed

lemma round_mag_scale:
  assumes "2 powi (- 1022) \<le> r"
  shows "round_mag (2 * r) = 2 * round_mag r"
proof -
  have "(0::rat) < 2 powi (- 1022)" by (rule zero_less_power_int) simp
  then have r: "0 < r" using assms by (rule less_le_trans)
  note b = flog_bounds [of 2 r, simplified, OF r]
  have "flog 2 (2 * r) = flog 2 r + 1"
    using b by (intro flog_unique) (simp_all add: power_int_add)
  moreover have "- 1022 \<le> flog 2 r"
  proof (rule ccontr)
    assume "\<not> - 1022 \<le> flog 2 r"
    then have "(2::rat) powi (flog 2 r + 1) \<le> 2 powi (- 1022)" by (intro power_int_increasing) auto
    with b(2) assms show False by linarith
  qed
  moreover have "(2::rat) powi (flog 2 r + 1 - 52) = 2 * 2 powi (flog 2 r - 52)"
    by (simp add: power_int_add power_int_diff)
  ultimately show ?thesis by (simp add: round_mag_def Let_def max_def)
qed

lemma double_scale:
  assumes "double r = Fin q" "2 powi (- 1022) \<le> r" "2 * q < 2 ^ 1024"
  shows "double (2 * r) = Fin (2 * q)"
proof -
  have "(0::rat) < 2 powi (- 1022)" by (rule zero_less_power_int) simp
  then have r: "0 < r" using assms(2) by (rule less_le_trans)
  then have "q = round_mag r" using assms(1) by (simp add: double_def Let_def del: power_numeral split: if_splits)
  with round_mag_scale [OF assms(2)] r assms(3) show ?thesis
    by (simp add: double_def Let_def del: power_numeral)
qed

lemma tiny: "(2::rat) powi (- 1022) \<le> 1 / 10 ^ 12"
proof -
  have "(2::rat) powi (- 1022) \<le> 2 powi (- 40)" by (rule power_int_increasing) simp_all
  also have "\<dots> \<le> 1 / 10 ^ 12" by (simp add: power_int_minus inverse_eq_divide)
  finally show ?thesis .
qed

lemma big_power: "(10::rat) ^ 22 < 2 ^ 1023"
proof -
  have "(10::rat) ^ 22 < 2 ^ 80" by simp
  also have "\<dots> \<le> 2 ^ 1023" by (rule power_increasing) simp_all
  finally show ?thesis .
qed

lemma units12_le: "0 \<le> x \<Longrightarrow> x < 10 ^ 21 \<Longrightarrow> (of_nat (units12 x) :: rat) / 10 ^ 12 \<le> 10 ^ 22"
  using units12_bounds(1) [of x] by (simp add: divide_le_eq)

lemma fixed12_nonneg:
  assumes "double x = Fin x" "0 \<le> x"
  shows "\<exists>q. fixed12 (Fin x) = Fin q \<and> double q = Fin q \<and> 0 \<le> q \<and> fixed12 (Fin q) = Fin q"
proof (cases "x < 10 ^ 21")
  case True
  have "(of_nat (units12 x) :: rat) / 10 ^ 12 \<le> 2 ^ 1023"
    using units12_le [OF assms(2) True] less_imp_le [OF big_power] by (rule order_trans)
  then obtain q where q: "double (of_nat (units12 x) / 10 ^ 12) = Fin q" "0 \<le> q"
    using double_finite [of "of_nat (units12 x) / 10 ^ 12"] by auto
  then show ?thesis using fixed12_small [OF assms(2) True] fixed12_units double_idem by auto
next
  case False
  then show ?thesis using assms fixed12_big by auto
qed

lemma fixed12_half:
  assumes p: "double p = Fin p" "0 \<le> p" and x: "double (p / 2) = Fin x" and q: "fixed12 (Fin x) = Fin q"
  shows "double (2 * q) = Fin (2 * q) \<and> fixed12 (Fin (2 * q)) = Fin (2 * q)"
proof -
  have dx: "double x = Fin x" using x by (rule double_idem)
  have x0: "0 \<le> x"
    using x p(2) round_even_ge [of 0] by (auto simp: double_def Let_def round_mag_def split: if_splits)
  show ?thesis
  proof (cases "x < 10 ^ 21")
    case True
    let ?k = "units12 x"
    have dq: "double (of_nat ?k / 10 ^ 12) = Fin q" using fixed12_small [OF x0 True] q by simp
    show ?thesis
    proof (cases "?k = 0")
      case True
      then have "q = 0" using dq by (simp add: double_def)
      then show ?thesis by (simp add: fixed12_small units12_def double_def)
    next
      case False
      have "(1::rat) / 10 ^ 12 \<le> of_nat ?k / 10 ^ 12" using False by (simp add: divide_right_mono)
      then have lo: "2 powi (- 1022) \<le> (of_nat ?k :: rat) / 10 ^ 12" using tiny by linarith
      have "(of_nat ?k :: rat) / 10 ^ 12 \<le> 10 ^ 22"
        by (rule units12_le [OF x0 \<open>x < 10 ^ 21\<close>])
      then have "round_mag (of_nat ?k / 10 ^ 12) \<le> round_mag (10 ^ 22)" using False by (intro round_mag_mono) simp_all
      moreover have "round_mag ((10::rat) ^ 22) = 10 ^ 22"
        by (rule round_mag_exact [of "5 ^ 22" 74]) simp_all
      moreover have "q = round_mag (of_nat ?k / 10 ^ 12)"
        using dq False by (simp add: double_def Let_def del: power_numeral split: if_splits)
      ultimately have "2 * q < 2 ^ 1024" using big_power power_Suc [of "2::rat" 1023] by (simp del: power_numeral)
      from double_scale [OF dq lo this] have "double (of_nat (2 * ?k) / 10 ^ 12) = Fin (2 * q)" by simp
      then show ?thesis using fixed12_units double_idem by blast
    qed
  next
    case False
    then have qx: "q = x" using fixed12_big [OF dx] q by simp
    have pp: "0 < p" using False x p(2) by (cases "p = 0") (auto simp: double_def)
    have lo: "2 powi (- 1022) \<le> p / 2"
    proof (rule ccontr)
      assume "\<not> 2 powi (- 1022) \<le> p / 2"
      then have "p / 2 \<le> 1" using tiny by simp
      then have "round_mag (p / 2) \<le> round_mag 1" using pp by (intro round_mag_mono) simp_all
      moreover have "round_mag 1 = 1" by (rule round_mag_exact [of "2 ^ 52" 0]) (simp_all add: power_int_minus)
      moreover have "x = round_mag (p / 2)" using x pp by (simp add: double_def Let_def del: power_numeral split: if_splits)
      ultimately show False using False by simp
    qed
    have "round_mag (2 * (p / 2)) = 2 * round_mag (p / 2)" by (rule round_mag_scale [OF lo])
    moreover have "x = round_mag (p / 2)" "p = round_mag p"
      using x p(1) pp by (simp_all add: double_def Let_def del: power_numeral split: if_splits)
    ultimately have "2 * q = p" using qx by simp
    then show ?thesis using p(1) fixed12_big False qx x0 by simp
  qed
qed

end
