(* ===== verification/Pricing_Facts.thy ===== *)
theory Pricing_Facts
  imports Pricing_Editor Js_Fixed
begin

text \<open>
  Numbers of the price editor: what is read from a text is a binary64 value, what is printed is
  read back, and \<open>toNormalizedNumber\<close> is rounding to twelve places. Then when an entry can be
  saved and what the collected output holds.
\<close>

section \<open>Numbers\<close>

lemma num_to_string_ne: "is_double x \<Longrightarrow> num_to_string x \<noteq> []"
proof (cases x)
  case (Fin r)
  assume "is_double x"
  then have "double r = Fin r" by (simp add: Fin is_double_def)
  then show ?thesis using positive_to_string_units(1) [of r] by (simp add: Fin num_to_string.simps(4))
qed simp_all

lemma fixed12_total:
  assumes "double x = Fin x"
  shows "\<exists>q. fixed12 (Fin x) = Fin q \<and> double q = Fin q \<and> fixed12 (Fin q) = Fin q"
proof (cases "0 \<le> x")
  case True
  then show ?thesis using fixed12_nonneg [OF assms] by blast
next
  case False
  have m: "double (- x) = Fin (- x)" using double_neg [OF assms] .
  obtain q where q: "fixed12 (Fin (- x)) = Fin q" "double q = Fin q" "0 \<le> q" "fixed12 (Fin q) = Fin q"
    using fixed12_nonneg [OF m] False by auto
  have "fixed12 (Fin x) = Fin (- q)" using fixed12_neg [OF m] False q(1) by simp
  moreover have "fixed12 (Fin (- q)) = Fin (- q)" using fixed12_neg [OF q(2)] q(3,4) by (cases "q = 0") auto
  ultimately show ?thesis using double_neg [OF q(2)] by blast
qed

lemma toNumberOrNull_text: "toNumberOrNull (JStr s) =
    (if s \<noteq> [] \<and> is_finite (number_of_string s) then Some (number_of_string s) else None)"
  by (simp add: toNumberOrNull_def hasValue_def Let_def)

lemma toNumberOrNull_num: "toNumberOrNull (JNum x) = (if is_finite x then Some x else None)"
  by (simp add: toNumberOrNull_def hasValue_def Let_def)

lemma toNumberOrNull_double:
  assumes "toNumberOrNull (JStr s) = Some x"
  shows "\<exists>r. x = Fin r \<and> double r = Fin r"
proof -
  have "is_finite x" "is_double x"
    using assms is_double_number_of_string by (auto simp: toNumberOrNull_text split: if_splits)
  then show ?thesis by (cases x) (auto simp: is_double_def)
qed

lemma toNumberOrNull_print: "double r = Fin r \<Longrightarrow> toNumberOrNull (JStr (num_to_string (Fin r))) = Some (Fin r)"
  by (simp add: toNumberOrNull_text num_to_string_ne is_double_def)

lemma normalized_number:
  assumes "toNumberOrNull v = Some (Fin r)" "double r = Fin r"
  shows "\<exists>q. fixed12 (Fin r) = Fin q \<and> toNormalizedNumber v = Some (Fin q) \<and>
    formatNumber v = num_to_string (Fin q) \<and> double q = Fin q \<and> fixed12 (Fin q) = Fin q"
proof -
  obtain q where q: "fixed12 (Fin r) = Fin q" "double q = Fin q" "fixed12 (Fin q) = Fin q"
    using fixed12_total [OF assms(2)] by blast
  have f: "formatNumber v = num_to_string (Fin q)" using assms(1) q(1) by (simp add: formatNumber_def fixed12_def)
  moreover have "toNormalizedNumber v = Some (Fin q)"
    using q(2) num_to_string_ne by (simp add: toNormalizedNumber_def f Let_def is_double_def)
  ultimately show ?thesis using q by blast
qed

lemma normalized_none: "toNumberOrNull v = None \<Longrightarrow> toNormalizedNumber v = None \<and> formatNumber v = []"
  by (simp add: toNormalizedNumber_def formatNumber_def)

text \<open>A quotient of two numbers: the saved ratio and its text are both empty or agree.\<close>

lemma quotient_cases:
  fixes x y
  defines "v \<equiv> JNum (num_div (Fin x) (Fin y))"
  shows "(toNormalizedNumber v = None \<and> formatNumber v = []) \<or>
    (\<exists>q. toNormalizedNumber v = Some (Fin q) \<and> formatNumber v = num_to_string (Fin q) \<and> double q = Fin q)"
proof (cases "num_div (Fin x) (Fin y)")
  case (Fin r)
  have "y \<noteq> 0" using Fin by (auto simp: inf_of_sign_def split: if_splits)
  then have "double r = Fin r" using Fin double_idem by simp
  then show ?thesis using normalized_number [of v r] Fin by (auto simp: v_def toNumberOrNull_num)
qed (use normalized_none [of v] in \<open>simp_all add: v_def toNumberOrNull_num\<close>)

definition saved_number :: "jsnum option \<Rightarrow> bool" where
  "saved_number o' \<longleftrightarrow> (case o' of None \<Rightarrow> True | Some x \<Rightarrow> \<exists>q. x = Fin q \<and> double q = Fin q)"

lemma saved_number_simps [simp]: "saved_number None" "saved_number (Some (Fin q)) \<longleftrightarrow> double q = Fin q"
  by (simp_all add: saved_number_def)

lemma saved_normalized: "saved_number (toNormalizedNumber (JStr s))"
proof (cases "toNumberOrNull (JStr s)")
  case (Some x)
  then obtain r where "x = Fin r" "double r = Fin r" using toNumberOrNull_double by blast
  with Some normalized_number [of "JStr s" r] show ?thesis by auto
qed (simp add: normalized_none)

lemma saved_quotient:
  "saved_number (toNormalizedNumber (JNum (num_div (Fin x) (Fin y))))"
  using quotient_cases [of x y] by auto

lemma saved_quotient_ratio:
  assumes "price = toNumberOrNull (JStr s)" "double y = Fin y"
  shows "saved_number (quotient_ratio price (Fin y))"
  using assms toNumberOrNull_double [of s] saved_quotient by (cases price) (fastforce simp: quotient_ratio_def)+

section \<open>Saving an entry\<close>

lemma serializeModel_saved:
  assumes "serializeModel m = Inr ser"
  shows "saved_number (ser k)"
proof -
  have raw: "saved_number (raw_serialized rr k)" for rr
    by (cases k) (simp_all add: raw_serialized_def saved_normalized)
  show ?thesis
  proof (cases "pm_billingMode m = Per_request")
    case True
    then show ?thesis using assms saved_normalized by (auto simp: serializeModel_def)
  next
    case False
    show ?thesis
    proof (cases "toNumberOrNull (JStr (pm_inputPrice m))")
      case None
      then show ?thesis using False assms raw by (simp add: serializeModel_def Let_def split: if_splits) blast
    next
      case (Some x)
      obtain p where p: "x = Fin p" "double p = Fin p" using toNumberOrNull_double [OF Some] by blast
      have half: "saved_number (toNormalizedNumber (JNum (num_div (Fin p) (Fin 2))))" by (rule saved_quotient)
      have aud: "saved_number (toNormalizedNumber (JNum (num_div a b)))"
        if "toNumberOrNull (JStr (pm_audioOutputPrice m)) = Some a" "toNumberOrNull (JStr (pm_audioInputPrice m)) = Some b" for a b
        using toNumberOrNull_double [OF that(1)] toNumberOrNull_double [OF that(2)] saved_quotient by fastforce
      have ar: "saved_number (quotient_ratio (Some b) (Fin p))" if "toNumberOrNull (JStr (pm_audioInputPrice m)) = Some b" for b
        using saved_quotient_ratio [of "Some b" "pm_audioInputPrice m" p] that p(2) by simp
      show ?thesis
        using assms False Some p half aud ar saved_quotient_ratio [OF refl p(2)] saved_normalized
        by (cases k) (auto simp: serializeModel_def Let_def split: option.splits if_splits)
    qed
  qed
qed

text \<open>Which entries cannot be saved.\<close>

definition price_incomplete :: "price_model \<Rightarrow> bool" where
  "price_incomplete m \<longleftrightarrow> pm_billingMode m = Per_token \<and>
     (let num = (\<lambda>s. toNumberOrNull (JStr s)) in
      if num (pm_inputPrice m) = None
      then list_ex (\<lambda>s. num s \<noteq> None) [pm_completionPrice m, pm_cachePrice m, pm_createCachePrice m,
             pm_imagePrice m, pm_audioInputPrice m, pm_audioOutputPrice m]
      else num (pm_audioOutputPrice m) \<noteq> None \<and> (num (pm_audioInputPrice m) = None \<or> num (pm_audioInputPrice m) = Some (Fin 0)))"

lemma serializeModel_error: "(\<exists>e. serializeModel m = Inl e) \<longleftrightarrow> price_incomplete m"
proof (cases "pm_billingMode m")
  case Per_token
  then show ?thesis
    by (cases "toNumberOrNull (JStr (pm_inputPrice m))"; cases "toNumberOrNull (JStr (pm_audioOutputPrice m))";
        cases "toNumberOrNull (JStr (pm_audioInputPrice m))")
      (simp_all add: serializeModel_def price_incomplete_def Let_def)
qed (simp add: serializeModel_def price_incomplete_def)

lemma serializeModel_total: "\<not> price_incomplete m \<Longrightarrow> \<exists>ser. serializeModel m = Inr ser"
  using serializeModel_error [of m] by (cases "serializeModel m") auto

section \<open>The collected output\<close>

definition saved_value :: "price_model \<Rightarrow> price_key \<Rightarrow> jsv" where
  "saved_value m k = (case serializeModel m of
       Inr ser \<Rightarrow> (case ser k of Some x \<Rightarrow> JNum x | None \<Rightarrow> JUndef)
     | Inl _ \<Rightarrow> JUndef)"

lemma collect_output_error: "(\<exists>e. collect_output ms out = Inl e) \<longleftrightarrow> list_ex price_incomplete ms"
proof (induction ms arbitrary: out)
  case (Cons m ms)
  then show ?case using serializeModel_error [of m] by (cases "serializeModel m") auto
qed simp

lemma collect_output_other:
  "collect_output ms out = Inr out' \<Longrightarrow> n \<notin> pm_name ` set ms \<Longrightarrow> obj_get n (out' k) = obj_get n (out k)"
proof (induction ms arbitrary: out)
  case (Cons m ms)
  then show ?case
    by (auto simp: add_serialized_def split: sum.splits option.splits)
qed simp

lemma collect_output_get:
  assumes "collect_output ms out = Inr out'" "distinct (map pm_name ms)" "m \<in> set ms"
    and "\<forall>m \<in> set ms. obj_get (pm_name m) (out k) = JUndef"
  shows "obj_get (pm_name m) (out' k) = saved_value m k"
  using assms
proof (induction ms arbitrary: out)
  case (Cons m' ms)
  obtain ser where ser: "serializeModel m' = Inr ser" and
    rest: "collect_output ms (add_serialized (pm_name m') ser out) = Inr out'"
    using Cons.prems(1) by (auto split: sum.splits)
  show ?case
  proof (cases "m \<in> set ms")
    case True
    then have "\<forall>m \<in> set ms. obj_get (pm_name m) (add_serialized (pm_name m') ser out k) = JUndef"
      using Cons.prems by (auto simp: add_serialized_def image_iff split: option.split)
    with Cons True rest show ?thesis by auto
  next
    case False
    then have m: "m = m'" using Cons.prems(3) by simp
    then have "obj_get (pm_name m) (out' k) = obj_get (pm_name m) (add_serialized (pm_name m') ser out k)"
      using collect_output_other [OF rest] Cons.prems(2) by auto
    then show ?thesis using m ser Cons.prems(4) by (simp add: add_serialized_def saved_value_def split: option.split)
  qed
qed simp

lemma collect_output_wf:
  assumes "collect_output ms out = Inr out'" "wf_json (JObj (out k))"
  shows "wf_json (JObj (out' k))"
  using assms
proof (induction ms arbitrary: out)
  case (Cons m ms)
  obtain ser where ser: "serializeModel m = Inr ser" and
    rest: "collect_output ms (add_serialized (pm_name m) ser out) = Inr out'"
    using Cons.prems(1) by (auto split: sum.splits)
  have "wf_json (JObj (add_serialized (pm_name m) ser out k))"
    using serializeModel_saved [OF ser, of k] Cons.prems(2)
    by (auto simp: add_serialized_def saved_number_def wf_json_JObj wf_obj_set all_json_obj_set is_double_def
        split: option.splits)
  with Cons.IH rest show ?case by blast
qed simp

end
