(* ===== verification/Pricing_Machine.thy ===== *)
theory Pricing_Machine
  imports Pricing_Facts
begin

text \<open>
  The price editor as a machine: the events of the page and of the network, each followed by the
  effects that React runs when what they depend on has changed, and the invariant of the runs.
\<close>

datatype price_event =
    Options_changed "price_key \<Rightarrow> jstring option"
  | Toggle price_field bool
  | Numeric price_field jstring
  | Billing billing_mode
  | Add_model jstring
  | Delete_model jstring
  | Apply_prices
  | Submit
  | Answered "jstring + jsv list"
  | Submit_end "jstring option"
  | Select_model jstring
  | Check_models "jstring list"
  | Search jstring
  | Go_to_page nat
  | Conflicts_only bool

fun price_handle :: "price_env \<Rightarrow> price_event \<Rightarrow> price_state \<Rightarrow> price_state" where
  "price_handle env (Options_changed opts) st = effect_options env opts st"
| "price_handle env (Toggle f b) st = handleOptionalFieldToggle env f b st"
| "price_handle env (Numeric f s) st = handleNumericFieldChange env f s st"
| "price_handle env (Billing m) st = handleBillingModeChange env m st"
| "price_handle env (Add_model n) st = snd (addModel n st)"
| "price_handle env (Delete_model n) st = deleteModel n st"
| "price_handle env Apply_prices st = snd (applySelectedModelPricing env st)"
| "price_handle env Submit st = handleSubmit_send st"
| "price_handle env (Answered a) st = handleSubmit_answer a st"
| "price_handle env (Submit_end f) st = handleSubmit_end f st"
| "price_handle env (Select_model n) st = st\<lparr>ps_selectedModelName := n\<rparr>"
| "price_handle env (Check_models ns) st = st\<lparr>ps_selectedModelNames := ns\<rparr>"
| "price_handle env (Search s) st = st\<lparr>ps_searchText := s\<rparr>"
| "price_handle env (Go_to_page n) st = st\<lparr>ps_currentPage := Suc n\<rparr>"
| "price_handle env (Conflicts_only b) st = st\<lparr>ps_conflictOnly := b\<rparr>"

definition price_settle :: "price_env \<Rightarrow> price_state \<Rightarrow> price_state \<Rightarrow> price_state" where
  "price_settle env before st = effect_selected env (effect_checked env
     (if ps_searchText st \<noteq> ps_searchText before \<or> ps_conflictOnly st \<noteq> ps_conflictOnly before
      then effect_page st else st))"

definition price_step :: "price_env \<Rightarrow> price_event \<Rightarrow> price_state \<Rightarrow> price_state" where
  "price_step env e st = price_settle env st (price_handle env e st)"

definition price_inv :: "price_env \<Rightarrow> price_state \<Rightarrow> bool" where
  "price_inv env st \<longleftrightarrow> distinct (map pm_name (ps_models st)) \<and>
     (let visible = pm_name ` set (visibleModels env st) in
      (if visible = {} then ps_selectedModelName st = [] else ps_selectedModelName st \<in> visible) \<and>
      set (ps_selectedModelNames st) \<subseteq> visible) \<and> 1 \<le> ps_currentPage st"

section \<open>Names are kept apart\<close>

lemma pm_name_set_field [simp]: "pm_name (set_field f s m) = pm_name m"
  by (cases f) simp_all

lemma pm_name_fill [simp]: "pm_name (fillDerivedPricesFromBase m s) = pm_name m"
  by (simp add: fillDerivedPricesFromBase_def Let_def split: option.split)

lemma pm_name_copy [simp]: "pm_name (copy_prices sel m) = pm_name m"
  by (simp add: copy_prices_def Let_def)

lemma pm_name_build [simp]: "pm_name (buildModelState n maps) = n"
  by (simp add: buildModelState_def Let_def)

lemma models_emit [simp]: "ps_models (price_emit e st) = ps_models st" "ps_currentPage (price_emit e st) = ps_currentPage st"
  by (simp_all add: price_emit_def)

lemma models_toggle [simp]: "ps_models (updateOptionalFieldToggle n f b st) = ps_models st"
  "ps_currentPage (updateOptionalFieldToggle n f b st) = ps_currentPage st"
  by (simp_all add: updateOptionalFieldToggle_def)

lemma models_emits [simp]: "ps_models (foldl (\<lambda>s k. price_emit (g k) s) st ks) = ps_models st"
  "ps_currentPage (foldl (\<lambda>s k. price_emit (g k) s) st ks) = ps_currentPage st"
  by (induction ks arbitrary: st) simp_all

lemma upsertModel_names:
  "(\<And>m. pm_name (f m) = pm_name m) \<Longrightarrow> map pm_name (ps_models (upsertModel n f st)) = map pm_name (ps_models st)"
  by (simp add: upsertModel_def comp_def)

lemma upsertModel_page [simp]: "ps_currentPage (upsertModel n f st) = ps_currentPage st"
  by (simp add: upsertModel_def)

lemma next_models_distinct: "distinct (map pm_name (next_models env opts))"
proof -
  have "mset (map pm_name (next_models env opts)) =
      mset (model_names (pe_candidates env) (\<lambda>k. parseOptionJSON (opts k)))"
    by (simp add: next_models_def Let_def image_mset.compositionality comp_def)
  moreover have "distinct (model_names (pe_candidates env) (\<lambda>k. parseOptionJSON (opts k)))"
    by (simp add: model_names_def)
  ultimately show ?thesis using mset_eq_imp_distinct_iff by blast
qed

lemma handle_distinct:
  assumes "distinct (map pm_name (ps_models st))"
  shows "distinct (map pm_name (ps_models (price_handle env e st)))"
proof (cases e)
  case (Options_changed opts)
  then show ?thesis using next_models_distinct by (simp add: effect_options_def Let_def)
next
  case (Toggle f b)
  then show ?thesis
    using assms by (simp add: handleOptionalFieldToggle_def Let_def upsertModel_names split: option.split)
next
  case (Numeric f s)
  then show ?thesis
    using assms by (simp add: handleNumericFieldChange_def Let_def upsertModel_names split: option.split)
next
  case (Billing b)
  then show ?thesis using assms
    by (simp add: handleBillingModeChange_def upsertModel_names split: option.split)
next
  case (Add_model n)
  then show ?thesis using assms by (auto simp: addModel_def Let_def EMPTY_MODEL_def)
next
  case (Delete_model n)
  then show ?thesis using assms by (auto simp: deleteModel_def Let_def distinct_map inj_on_def)
next
  case Apply_prices
  have "map pm_name (map (\<lambda>m. if c m then m else copy_prices sel m) ms) = map pm_name ms" for c sel ms
    by simp
  then show ?thesis using assms Apply_prices
    by (simp add: applySelectedModelPricing_def Let_def split: option.split del: map_map)
next
  case (Answered a)
  then show ?thesis using assms by (simp add: handleSubmit_answer_def Let_def split: sum.split option.split)
next
  case (Submit_end f)
  then show ?thesis using assms by (simp add: handleSubmit_end_def split: option.split)
qed (use assms in \<open>simp_all add: handleSubmit_send_def split: sum.split\<close>)

lemma handle_page:
  assumes "1 \<le> ps_currentPage st"
  shows "1 \<le> ps_currentPage (price_handle env e st)"
  using assms
  by (cases e) (simp_all add: effect_options_def handleOptionalFieldToggle_def handleNumericFieldChange_def
      handleBillingModeChange_def addModel_def deleteModel_def applySelectedModelPricing_def handleSubmit_send_def
      handleSubmit_answer_def handleSubmit_end_def Let_def split: option.split sum.split)

section \<open>The effects restore the selection\<close>

lemma visible_updates [simp]:
  "visibleModels env (st\<lparr>ps_selectedModelNames := ns\<rparr>) = visibleModels env st"
  "visibleModels env (st\<lparr>ps_selectedModelName := n\<rparr>) = visibleModels env st"
  "visibleModels env (st\<lparr>ps_currentPage := p\<rparr>) = visibleModels env st"
  by (simp_all add: visibleModels_def)

lemma settle_fields [simp]:
  "ps_models (price_settle env b st) = ps_models st"
  "visibleModels env (price_settle env b st) = visibleModels env st"
  "ps_currentPage (price_settle env b st) = 1 \<or> ps_currentPage (price_settle env b st) = ps_currentPage st"
  by (auto simp: price_settle_def effect_selected_def effect_checked_def effect_page_def
      split: list.split)

lemma settle_selection:
  "(if pm_name ` set (visibleModels env st) = {} then ps_selectedModelName (price_settle env b st) = []
    else ps_selectedModelName (price_settle env b st) \<in> pm_name ` set (visibleModels env st)) \<and>
   set (ps_selectedModelNames (price_settle env b st)) \<subseteq> pm_name ` set (visibleModels env st)"
  by (cases "visibleModels env st") (auto simp: price_settle_def effect_selected_def effect_checked_def effect_page_def)

interpretation price_editor: state_machine "price_step env" "price_inv env" for env
proof
  fix s e
  assume "price_inv env s"
  then have a: "distinct (map pm_name (ps_models s))" "1 \<le> ps_currentPage s" by (simp_all add: price_inv_def)
  show "price_inv env (price_step env e s)"
    using handle_distinct [OF a(1), of env e] handle_page [OF a(2), of env e]
      settle_selection [of env "price_handle env e s" s] settle_fields(3) [of env s "price_handle env e s"]
    unfolding price_inv_def price_step_def settle_fields(1,2) Let_def by auto
qed

end
