(* ===== verification/Workspace_Data.thy ===== *)
theory Workspace_Data
  imports Json_Facts
begin

text \<open>
  The data of the creation workspace (\<^verbatim>\<open>pages/MujianWorkspace\<close>): attachments and reference images
  with their limits (\<^verbatim>\<open>attachments.js\<close>, \<^verbatim>\<open>imageGenerations.js\<close>, \<^verbatim>\<open>imageContent.js\<close>), answers of
  the session requests (\<^verbatim>\<open>sessions.js\<close>), the rules that tie an answer to its project and session
  (\<^verbatim>\<open>sessionScope.js\<close>) and the helpers of \<^verbatim>\<open>index.jsx\<close>. A workspace is the JSON value the server
  sends. File contents, object URLs, random ids and the URL parser of the browser are parameters.
\<close>

section \<open>Attachments\<close>

record ws_file =
  f_name :: jstring
  f_size :: nat
  f_type :: jstring

record attachment =
  at_id :: jstring
  at_name :: jstring
  at_data :: jstring
  at_size :: nat
  at_preview_url :: jstring

datatype file_error = Bad_extension | Empty_file jstring | File_too_large jstring | Text_too_large jstring
  | Unreadable jstring | Bad_data jstring | Bad_reference_type jstring

definition maxAgentAttachments :: nat where
  "maxAgentAttachments = 4"

definition maxAgentAttachmentBytes :: nat where
  "maxAgentAttachmentBytes = 10 * 1024 * 1024"

definition maxAgentAttachmentTotalBytes :: nat where
  "maxAgentAttachmentTotalBytes = 20 * 1024 * 1024"

definition imageMIMEByExtension :: "jstring \<Rightarrow> jstring option" where
  "imageMIMEByExtension ext = map_of
     [(lit ''png'', lit ''image/png''), (lit ''jpg'', lit ''image/jpeg''), (lit ''jpeg'', lit ''image/jpeg''),
      (lit ''gif'', lit ''image/gif''), (lit ''webp'', lit ''image/webp'')] ext"

definition allowedExtensions :: "jstring list" where
  "allowedExtensions = map lit [''png'', ''jpg'', ''jpeg'', ''gif'', ''webp'', ''pdf'', ''txt'', ''md'', ''docx'']"

definition textExtensions :: "jstring list" where
  "textExtensions = map lit [''txt'', ''md'']"

definition extensionOf :: "unicode_map \<Rightarrow> jstring \<Rightarrow> jstring" where
  "extensionOf lower name = last (split_on 46 (to_lower lower name))"

text \<open>\<open>dataURL\<close> is the text the file reader returns, or \<open>None\<close> when it fails.\<close>

definition readAgentAttachment :: "unicode_map \<Rightarrow> jstring \<Rightarrow> jstring option \<Rightarrow> ws_file \<Rightarrow> file_error + attachment" where
  "readAgentAttachment lower uuid dataURL file =
     (let extension = extensionOf lower (f_name file) in
      if extension \<notin> set allowedExtensions then Inl Bad_extension
      else if f_size file = 0 then Inl (Empty_file (f_name file))
      else if f_size file > maxAgentAttachmentBytes then Inl (File_too_large (f_name file))
      else if extension \<in> set textExtensions \<and> f_size file > 1024 * 1024 then Inl (Text_too_large (f_name file))
      else case dataURL of
        None \<Rightarrow> Inl (Unreadable (f_name file))
      | Some url \<Rightarrow>
          (case index_of url [44] of
             None \<Rightarrow> Inl (Bad_data (f_name file))
           | Some separator \<Rightarrow>
               (let data = slice_from (separator + 1) url;
                    mimeType = (if f_type file \<noteq> [] then f_type file
                      else case imageMIMEByExtension extension of Some m \<Rightarrow> m | None \<Rightarrow> [])
                in Inr \<lparr>at_id = uuid, at_name = f_name file, at_data = data, at_size = f_size file,
                     at_preview_url = (if imageMIMEByExtension extension \<noteq> None
                       then lit ''data:'' @ mimeType @ lit '';base64,'' @ data else [])\<rparr>)))"

definition agentAttachmentPayload :: "attachment list \<Rightarrow> jsv" where
  "agentAttachmentPayload as = JArr (map (\<lambda>a. JObj [(lit ''name'', JStr (at_name a)), (lit ''data'', JStr (at_data a))]) as)"

text \<open>The default text is the request to analyse the attachments, in Chinese.\<close>

definition analyse_text :: jstring where
  "analyse_text = [35831, 20998, 26512, 38468, 20214, 20869, 23481, 12290]"

definition agentAttachmentDisplayContent :: "jstring \<Rightarrow> attachment list \<Rightarrow> jstring" where
  "agentAttachmentDisplayContent content as =
     join [10] ((if trim content \<noteq> [] then trim content else analyse_text) #
       map (\<lambda>a. [55357, 56526, 32] @ at_name a) as)"

definition formatAttachmentSize :: "nat \<Rightarrow> jstring" where
  "formatAttachmentSize bytes =
     (if bytes < 1024 * 1024
      then (let n = math_round (num_div (num_of_nat bytes) (Fin 1024))
            in num_to_string (if num_less n (Fin 1) then Fin 1 else n)) @ lit ''KB''
      else to_fixed 1 (num_div (num_of_nat bytes) (Fin 1048576)) @ lit ''MB'')"

section \<open>Images\<close>

record image_reference =
  ref_id :: jstring
  ref_file :: ws_file
  ref_name :: jstring
  ref_size :: nat
  ref_previewUrl :: jstring

definition maxImageReferences :: nat where
  "maxImageReferences = 3"

definition maxImageReferenceBytes :: nat where
  "maxImageReferenceBytes = 10 * 1024 * 1024"

definition maxImageReferenceTotalBytes :: nat where
  "maxImageReferenceTotalBytes = 14 * 1024 * 1024"

definition supportedImageTypes :: "jstring list" where
  "supportedImageTypes = map lit [''image/png'', ''image/jpeg'', ''image/webp'']"

definition supportedImageExtensions :: "jstring list" where
  "supportedImageExtensions = map lit [''png'', ''jpg'', ''jpeg'', ''webp'']"

datatype image_engine = Nano | Gpt

definition engineForImageModel :: "unicode_map \<Rightarrow> jstring \<Rightarrow> image_engine option" where
  "engineForImageModel lower modelId =
     (let normalized = to_lower lower modelId in
      if starts_with normalized (lit ''gpt-image'') then Some Gpt
      else if includes_str normalized (lit ''nano-banana'') then Some Nano else None)"

definition imageModelsByEngine :: "unicode_map \<Rightarrow> jstring list \<Rightarrow> image_engine \<Rightarrow> jstring list" where
  "imageModelsByEngine lower models engine = filter (\<lambda>m. engineForImageModel lower m = Some engine) models"

definition createImageReference :: "unicode_map \<Rightarrow> jstring \<Rightarrow> jstring \<Rightarrow> ws_file \<Rightarrow> file_error + image_reference" where
  "createImageReference lower uuid objectUrl file =
     (if f_type file \<notin> set supportedImageTypes \<and>
         extensionOf lower (f_name file) \<notin> set supportedImageExtensions
      then Inl (Bad_reference_type (f_name file))
      else if f_size file = 0 then Inl (Empty_file (f_name file))
      else if f_size file > maxImageReferenceBytes then Inl (File_too_large (f_name file))
      else Inr \<lparr>ref_id = uuid, ref_file = file, ref_name = f_name file, ref_size = f_size file,
        ref_previewUrl = objectUrl\<rparr>)"

definition imageExtensionByMimeType :: "jstring \<Rightarrow> jstring option" where
  "imageExtensionByMimeType ty = map_of
     [(lit ''image/jpeg'', lit ''jpg''), (lit ''image/png'', lit ''png''), (lit ''image/webp'', lit ''webp'')] ty"

definition isExternalImageContentUrl :: "jstring \<Rightarrow> bool" where
  "isExternalImageContentUrl url \<longleftrightarrow>
     (let s = to_lower (\<lambda>c. [c]) url in starts_with s (lit ''http://'') \<or> starts_with s (lit ''https://''))"

text \<open>\<open>pathname url\<close> is the path of \<^verbatim>\<open>new URL(url, base)\<close>, \<open>None\<close> where the constructor throws.\<close>

definition imageContentExtension :: "unicode_map \<Rightarrow> (jstring \<Rightarrow> jstring option) \<Rightarrow> jstring \<Rightarrow> jstring \<Rightarrow> jstring" where
  "imageContentExtension lower pathname contentUrl mimeType = (case imageExtensionByMimeType mimeType of
       Some ext \<Rightarrow> ext
     | None \<Rightarrow>
         (case pathname contentUrl of
            None \<Rightarrow> []
          | Some p \<Rightarrow>
              (let extension = extensionOf lower p in
               if extension \<notin> set supportedImageExtensions then []
               else if extension = lit ''jpeg'' then lit ''jpg'' else extension)))"

text \<open>A download of an external image: \<open>Inl (Inl status)\<close> for an error status, \<open>Inl (Inr ())\<close> for a wrong type.\<close>

definition getExternalImageContentBlob :: "unicode_map \<Rightarrow> bool \<Rightarrow> nat \<Rightarrow> jstring \<Rightarrow> (nat + unit) + jstring" where
  "getExternalImageContentBlob lower ok status blobType =
     (if \<not> ok then Inl (Inl status)
      else if to_lower lower blobType \<notin> set supportedImageTypes then Inl (Inr ()) else Inr blobType)"

definition saveImageBlob_name :: "unicode_map \<Rightarrow> (jstring \<Rightarrow> jstring option) \<Rightarrow> jstring \<Rightarrow> jstring \<Rightarrow> jstring \<Rightarrow> jstring" where
  "saveImageBlob_name lower pathname blobType generationId preferredExtension =
     (let fromType = imageContentExtension lower pathname [] blobType;
          extension = (if fromType \<noteq> [] then fromType
            else if preferredExtension \<noteq> [] then preferredExtension else lit ''png'')
      in lit ''mujian-image-'' @ generationId @ lit ''.'' @ extension)"

section \<open>Answers of the server\<close>

text \<open>\<^verbatim>\<open>workspaceData\<close> and \<^verbatim>\<open>responseData\<close>: the payload of a successful answer, or the message of a failed one.\<close>

definition workspaceData :: "jsv \<Rightarrow> jsv + jsv" where
  "workspaceData d =
     (if \<not> truthy (get_prop (lit ''success'') d) then Inl (get_prop (lit ''message'') d)
      else Inr (get_prop (lit ''data'') d))"

text \<open>The parts of a rejected request that the handlers look at.\<close>

record req_error =
  re_code :: jstring
  re_name :: jstring
  re_status :: "nat option"
  re_data_message :: jsv
  re_message :: jstring

text \<open>\<^verbatim>\<open>requestError(error, fallback)\<close>; \<open>None\<close> is the fallback.\<close>

definition requestError :: "req_error \<Rightarrow> jstring option" where
  "requestError e =
     (if truthy (re_data_message e) then Some (js_string (re_data_message e))
      else if re_message e \<noteq> [] then Some (re_message e) else None)"

definition parseEnabledSkills :: "jsv \<Rightarrow> jsv" where
  "parseEnabledSkills v =
     (if is_array v then v
      else case json_parse (js_string (or_else v (JStr (lit ''[]'')))) of Some r \<Rightarrow> r | None \<Rightarrow> JArr [])"

section \<open>Project and session of an answer\<close>

abbreviation project_id_of :: "jsv \<Rightarrow> jsv" where
  "project_id_of ws \<equiv> get_prop (lit ''id'') (get_prop (lit ''project'') ws)"

abbreviation active_session_of :: "jsv \<Rightarrow> jsv" where
  "active_session_of ws \<equiv> get_prop (lit ''active_session_id'') ws"

abbreviation sessions_of :: "jsv \<Rightarrow> jsv" where
  "sessions_of ws \<equiv> get_prop (lit ''agent_sessions'') ws"

definition generationMatchesScope :: "jsv \<Rightarrow> jstring \<Rightarrow> jstring \<Rightarrow> bool" where
  "generationMatchesScope g pid sid \<longleftrightarrow> truthy g \<and> pid \<noteq> [] \<and> sid \<noteq> [] \<and>
     get_prop (lit ''project_id'') g = JStr pid \<and> get_prop (lit ''session_id'') g = JStr sid"

definition hasWorkspaceDraft :: "jstring \<Rightarrow> attachment list \<Rightarrow> jstring \<Rightarrow> image_reference list \<Rightarrow> bool" where
  "hasWorkspaceDraft message as prompt refs \<longleftrightarrow> trim message \<noteq> [] \<or> as \<noteq> [] \<or> trim prompt \<noteq> [] \<or> refs \<noteq> []"

definition assertWorkspaceScope :: "jsv \<Rightarrow> jstring \<Rightarrow> jsv \<Rightarrow> bool" where
  "assertWorkspaceScope ws pid sid \<longleftrightarrow> truthy sid \<and> project_id_of ws = JStr pid \<and> active_session_of ws = sid"

definition spread :: "jsv \<Rightarrow> props \<Rightarrow> jsv" where
  "spread v ps = JObj (obj_assign (entries_of v) ps)"

definition mergeAgentSessionWorkspace :: "jsv \<Rightarrow> jsv \<Rightarrow> jsv" where
  "mergeAgentSessionWorkspace current nxt =
     (if project_id_of current \<noteq> project_id_of nxt then current
      else spread current
        [(lit ''agent_sessions'', sessions_of nxt), (lit ''active_session_id'', active_session_of nxt),
         (lit ''messages'', get_prop (lit ''messages'') nxt),
         (lit ''image_generations'', get_prop (lit ''image_generations'') nxt)])"

definition sessionUpdatedAt :: "jsv \<Rightarrow> jsnum" where
  "sessionUpdatedAt s = (let n = js_number (get_prop (lit ''updated_at'') s) in if n = NaN then Fin 0 else n)"

abbreviation session_id :: "jsv \<Rightarrow> jsv" where
  "session_id s \<equiv> get_prop (lit ''id'') s"

text \<open>A map built from the list of sessions: of two with one id the later one.\<close>

definition session_by_id :: "jsv list \<Rightarrow> jsv \<Rightarrow> jsv option" where
  "session_by_id sessions k = map_of (rev (map (\<lambda>s. (session_id s, s)) sessions)) k"

text \<open>\<^verbatim>\<open>sessions.some(p)\<close> where \<open>p\<close> reads a property of the session: \<open>None\<close> when it meets a \<^verbatim>\<open>null\<close>.\<close>

fun some_session :: "(jsv \<Rightarrow> bool) \<Rightarrow> jsv list \<Rightarrow> bool option" where
  "some_session p [] = Some False"
| "some_session p (s # ss) = (if s = JNull then None else if p s then Some True else some_session p ss)"

definition newer_session :: "jsv list \<Rightarrow> jsv \<Rightarrow> bool" where
  "newer_session auth s = (case session_by_id auth (session_id s) of
       None \<Rightarrow> True
     | Some nxt \<Rightarrow> \<not> truthy nxt \<or> num_less (sessionUpdatedAt nxt) (sessionUpdatedAt s))"

text \<open>\<open>None\<close> when it throws.\<close>

definition mergeAuthoritativeSessionMetadata :: "jsv \<Rightarrow> jsv \<Rightarrow> jstring \<Rightarrow> jstring \<Rightarrow> jsv option" where
  "mergeAuthoritativeSessionMetadata current authoritative pid sid =
     (if pid = [] \<or> sid = [] \<or> project_id_of current \<noteq> JStr pid \<or> active_session_of current \<noteq> JStr sid \<or>
         project_id_of authoritative \<noteq> JStr pid \<or> active_session_of authoritative \<noteq> JStr sid
      then Some current
      else case (sessions_of current, sessions_of authoritative) of
        (JArr cur, JArr auth) \<Rightarrow>
          if JNull \<in> set auth then None
          else (case some_session (\<lambda>s. session_id s = JStr sid) cur of
            None \<Rightarrow> None
          | Some found \<Rightarrow>
              if \<not> found \<or> session_by_id auth (JStr sid) = None then Some current
              else (case some_session (newer_session auth) cur of
                None \<Rightarrow> None
              | Some wouldOverwriteNewerMetadata \<Rightarrow>
                  if wouldOverwriteNewerMetadata then Some current
                  else Some (spread current
                    [(lit ''agent_sessions'', JArr auth), (lit ''active_session_id'', active_session_of authoritative)])))
      | _ \<Rightarrow> Some current)"

end
