(* ===== verification/Agent_Stream.thy ===== *)
theory Agent_Stream
  imports Json_Facts
begin

text \<open>
  The client of the agent's event stream (\<^verbatim>\<open>pages/MujianWorkspace/agentStream.js\<close>): reading a block
  of the stream, the loop that cuts the buffer into blocks, the end of the stream and the release of
  the reader. The network is a parameter: the texts its reads decode to, then the text of the last
  read or a rejection. So is the callback: \<open>onEvent ev\<close> is the error it throws on the event, if any;
  the calls it receives are listed as effects.
\<close>

section \<open>Events\<close>

record agent_event =
  ev_type :: jstring
  ev_data :: jsv

datatype stream_error = Agent_error jstring | Agent_failed | Bad_json | Null_data | Unexpected_end
  | Read_error jstring | Callback_error jstring | Http_message jstring | Http_status nat | No_body

text \<open>The fields of a block: the last \<^verbatim>\<open>event:\<close> line and the \<^verbatim>\<open>data:\<close> lines.\<close>

definition event_line :: "jstring \<times> jstring list \<Rightarrow> jstring \<Rightarrow> jstring \<times> jstring list" where
  "event_line acc line =
     (if starts_with line (lit ''event:'') then trim (slice_from 6 line) else fst acc,
      if starts_with line (lit ''data:'') then snd acc @ [trim_start (slice_from 5 line)] else snd acc)"

definition parseEventBlock :: "jstring \<Rightarrow> stream_error + agent_event option" where
  "parseEventBlock block = (case foldl event_line (lit ''message'', []) (split_on 10 block) of
       (ty, dataLines) \<Rightarrow>
         if dataLines = [] then Inr None
         else case json_parse (join [10] dataLines) of
           None \<Rightarrow> Inl Bad_json
         | Some v \<Rightarrow> Inr (Some \<lparr>ev_type = ty, ev_data = v\<rparr>))"

text \<open>\<^verbatim>\<open>new Error(event.data.message || ...)\<close>; reading a property of \<^verbatim>\<open>null\<close> throws.\<close>

definition event_error :: "jsv \<Rightarrow> stream_error" where
  "event_error d =
     (if d = JNull then Null_data
      else let m = get_prop (lit ''message'') d in if truthy m then Agent_error (js_string m) else Agent_failed)"

datatype stream_effect = On_event agent_event | Cancel | Release

type_synonym callback = "agent_event \<Rightarrow> stream_error option"

text \<open>What is done with one block; \<open>Inr True\<close> when it completes the stream.\<close>

definition deliver :: "callback \<Rightarrow> jstring \<Rightarrow> stream_effect list \<times> (stream_error + bool)" where
  "deliver onEvent block = (case parseEventBlock block of
       Inl e \<Rightarrow> ([], Inl e)
     | Inr None \<Rightarrow> ([], Inr False)
     | Inr (Some ev) \<Rightarrow>
         if ev_type ev = lit ''error'' then ([], Inl (event_error (ev_data ev)))
         else ([On_event ev],
           case onEvent ev of Some e \<Rightarrow> Inl e | None \<Rightarrow> Inr (ev_type ev = lit ''completed'')))"

section \<open>The loop\<close>

text \<open>The inner loop: \<open>Inr None\<close> is completion, \<open>Inr (Some rest)\<close> the buffer without a boundary.\<close>

function drain :: "callback \<Rightarrow> jstring \<Rightarrow> stream_effect list \<times> (stream_error + jstring option)" where
  "drain onEvent buffer = (case index_of buffer [10, 10] of
       None \<Rightarrow> ([], Inr (Some buffer))
     | Some boundary \<Rightarrow>
         (case deliver onEvent (slice 0 boundary buffer) of
            (es, Inl e) \<Rightarrow> (es, Inl e)
          | (es, Inr completed) \<Rightarrow>
              if completed then (es, Inr None)
              else case drain onEvent (slice_from (boundary + 2) buffer) of (es', r) \<Rightarrow> (es @ es', r)))"
  by pat_completeness auto

termination
  by (relation "measure (\<lambda>(_, s). length s)") (auto simp: slice_from_def dest: index_of_Some)

declare drain.simps [simp del]

definition crlf :: "jstring \<Rightarrow> jstring" where
  "crlf s = replace_pair 13 10 [10] s"

text \<open>After the last read: what is left of the buffer is one more block.\<close>

definition finish :: "callback \<Rightarrow> jstring \<Rightarrow> stream_effect list \<times> (stream_error + unit)" where
  "finish onEvent buffer =
     (if trim buffer \<noteq> [] then
        (case deliver onEvent (trim buffer) of
           (es, Inl e) \<Rightarrow> (es, Inl e)
         | (es, Inr completed) \<Rightarrow> (es, if completed then Inr () else Inl Unexpected_end))
      else ([], Inl Unexpected_end))"

datatype stream_tail = Done_text jstring | Read_failed jstring

fun read_loop :: "callback \<Rightarrow> jstring list \<Rightarrow> stream_tail \<Rightarrow> jstring \<Rightarrow> stream_effect list \<times> (stream_error + unit)" where
  "read_loop onEvent [] (Read_failed msg) buffer = ([], Inl (Read_error msg))"
| "read_loop onEvent [] (Done_text t) buffer = (case drain onEvent (crlf (buffer @ t)) of
       (es, Inl e) \<Rightarrow> (es, Inl e)
     | (es, Inr None) \<Rightarrow> (es, Inr ())
     | (es, Inr (Some rest)) \<Rightarrow> (case finish onEvent rest of (es', r) \<Rightarrow> (es @ es', r)))"
| "read_loop onEvent (c # cs) tail buffer = (case drain onEvent (crlf (buffer @ c)) of
       (es, Inl e) \<Rightarrow> (es, Inl e)
     | (es, Inr None) \<Rightarrow> (es, Inr ())
     | (es, Inr (Some rest)) \<Rightarrow> (case read_loop onEvent cs tail rest of (es', r) \<Rightarrow> (es @ es', r)))"

text \<open>Completion cancels the reader, so does a failure; in both cases it is released in the end.\<close>

definition read_stream :: "callback \<Rightarrow> jstring list \<Rightarrow> stream_tail \<Rightarrow> stream_effect list \<times> (stream_error + unit)" where
  "read_stream onEvent chunks tail = (case read_loop onEvent chunks tail [] of (es, r) \<Rightarrow> (es @ [Cancel, Release], r))"

section \<open>The request\<close>

record agent_response =
  ar_ok :: bool
  ar_status :: nat
  ar_json :: "jsv option"
  ar_body :: "(jstring list \<times> stream_tail) option"

definition responseError :: "agent_response \<Rightarrow> stream_error" where
  "responseError r = (case ar_json r of
       None \<Rightarrow> Http_status (ar_status r)
     | Some body \<Rightarrow>
         if body = JNull then Http_status (ar_status r)
         else let m = get_prop (lit ''message'') body
              in if truthy m then Http_message (js_string m) else Http_status (ar_status r))"

definition agent_url :: "jstring \<Rightarrow> jstring" where
  "agent_url projectId = lit ''/api/mujian/projects/'' @ projectId @ lit ''/agent/messages/stream''"

definition streamAgentMessage :: "callback \<Rightarrow> agent_response \<Rightarrow> stream_effect list \<times> (stream_error + unit)" where
  "streamAgentMessage onEvent response =
     (if \<not> ar_ok response then ([], Inl (responseError response))
      else case ar_body response of
        None \<Rightarrow> ([], Inl No_body)
      | Some (chunks, tail) \<Rightarrow> read_stream onEvent chunks tail)"

section \<open>Line ends\<close>

fun pair_free :: "nat \<Rightarrow> nat \<Rightarrow> jstring \<Rightarrow> bool" where
  "pair_free a b (x # y # s) = (\<not> (x = a \<and> y = b) \<and> pair_free a b (y # s))"
| "pair_free a b s = True"

lemma pair_free_iff: "pair_free a b s \<longleftrightarrow> \<not> includes_str s [a, b]"
proof (induction a b s rule: pair_free.induct)
  case (1 a b x y s)
  then show ?case by (auto simp: includes_str_def starts_with_def)
qed (simp_all add: includes_str_def starts_with_def)

lemma pair_free_append: "pair_free a b (s @ t) \<Longrightarrow> pair_free a b s \<and> pair_free a b t"
proof (induction s)
  case (Cons x s)
  then show ?case by (cases s; cases t) auto
qed simp

lemma crlf_Nil [simp]: "crlf [] = []"
  by (simp add: crlf_def)

lemma crlf_Cons: "x \<noteq> 13 \<Longrightarrow> crlf (x # s) = x # crlf s"
  by (cases s) (simp_all add: crlf_def)

lemma crlf_pair: "crlf (13 # 10 # s) = 10 # crlf s" "y \<noteq> 10 \<Longrightarrow> crlf (13 # y # s) = 13 # crlf (y # s)" "crlf [x] = [x]"
  by (simp_all add: crlf_def)

lemma crlf_cases [case_names nil one pair other]:
  assumes "s = [] \<Longrightarrow> P" "\<And>x. s = [x] \<Longrightarrow> P" "\<And>r. s = 13 # 10 # r \<Longrightarrow> P"
    and "\<And>x y r. s = x # y # r \<Longrightarrow> \<not> (x = 13 \<and> y = 10) \<Longrightarrow> P"
  shows P
  using assms by (metis list.exhaust)

lemma crlf_other: "\<not> (x = 13 \<and> y = 10) \<Longrightarrow> crlf (x # y # s) = x # crlf (y # s)"
  by (auto simp: crlf_def)

lemma crlf_twice: "pair_free 13 13 (s @ r) \<Longrightarrow> crlf (crlf s @ r) = crlf (s @ r)"
proof (induction "length s" arbitrary: s rule: less_induct)
  case less
  show ?case
  proof (cases s rule: crlf_cases)
    case (pair s')
    have "crlf (crlf s' @ r) = crlf (s' @ r)"
      using less pair_free_append [of 13 13 "[13, 10]" "s' @ r"] by (simp add: pair)
    then show ?thesis by (simp add: pair crlf_pair crlf_Cons)
  next
    case (other x y s')
    have ih: "crlf (crlf (y # s') @ r) = crlf ((y # s') @ r)"
      using less pair_free_append [of 13 13 "[x]" "y # s' @ r"] by (simp add: other)
    show ?thesis
    proof (cases "x = 13")
      case False
      then show ?thesis using ih by (simp add: other crlf_other crlf_Cons)
    next
      case True
      then have "y \<noteq> 10" "y \<noteq> 13" using other less.prems by auto
      then show ?thesis using True ih by (simp add: other(1) crlf_Cons crlf_pair(2))
    qed
  qed (simp_all add: crlf_pair)
qed

lemma crlf_keeps: "pair_free 13 13 (s @ r) \<Longrightarrow> pair_free 13 13 (crlf s @ r) \<and> pair_free 13 10 (crlf s)"
proof (induction "length s" arbitrary: s rule: less_induct)
  case less
  show ?case
  proof (cases s rule: crlf_cases)
    case (pair s')
    have "pair_free 13 13 (crlf s' @ r) \<and> pair_free 13 10 (crlf s')"
      using less pair_free_append [of 13 13 "[13, 10]" "s' @ r"] by (simp add: pair)
    then show ?thesis
      by (cases "crlf s' @ r"; cases "crlf s'") (auto simp: pair crlf_pair)
  next
    case (other x y s')
    have ih: "pair_free 13 13 (crlf (y # s') @ r) \<and> pair_free 13 10 (crlf (y # s'))"
      using less pair_free_append [of 13 13 "[x]" "y # s' @ r"] by (simp add: other)
    show ?thesis
    proof (cases "x = 13")
      case False
      then show ?thesis
        using ih by (cases "crlf (y # s') @ r"; cases "crlf (y # s')") (auto simp: other crlf_other)
    next
      case True
      then have "y \<noteq> 10" "y \<noteq> 13" using other less.prems by auto
      then show ?thesis using True ih by (simp add: other(1) crlf_Cons crlf_pair(2))
    qed
  qed (use less.prems in \<open>simp_all add: crlf_pair\<close>)
qed

lemma crlf_prefix: "pair_free 13 10 p \<Longrightarrow> p = [] \<or> last p \<noteq> 13 \<Longrightarrow> crlf (p @ s) = p @ crlf s"
proof (induction p)
  case (Cons x p)
  show ?case
  proof (cases p)
    case Nil
    then show ?thesis using Cons.prems by (simp add: crlf_Cons)
  next
    case (Cons y q)
    then have "crlf (p @ s) = p @ crlf s" "\<not> (x = 13 \<and> y = 10)" using Cons.IH Cons.prems by auto
    then show ?thesis by (simp add: Cons crlf_other)
  qed
qed simp

section \<open>Draining a buffer\<close>

lemma index_of_append: "index_of s p = Some i \<Longrightarrow> index_of (s @ t) p = Some i"
proof (induction s arbitrary: i)
  case (Cons c s)
  show ?case
  proof (cases "starts_with (c # s) p")
    case True
    then have "starts_with (c # s @ t) p" by (metis append_Cons append_assoc starts_with_iff)
    then show ?thesis using Cons.prems True by simp
  next
    case False
    then obtain j where j: "index_of s p = Some j" "i = Suc j" using Cons.prems by auto
    have "\<not> starts_with (c # s @ t) p"
    proof
      assume "starts_with (c # s @ t) p"
      moreover have "length p \<le> length s" using index_of_Some [OF j(1)] by simp
      moreover have "take (length p) ((c # s) @ t) = take (length p) (c # s)"
        using calculation(2) by (simp only: take_append) simp
      ultimately have "starts_with (c # s) p" by (simp add: starts_with_def)
      with False show False by simp
    qed
    then show ?thesis using Cons.IH [OF j(1)] j(2) by simp
  qed
qed (cases t; auto split: if_splits)

lemma index_of_take: "index_of s p = Some i \<Longrightarrow> index_of (take (i + length p) s) p = Some i"
proof (induction s arbitrary: i)
  case (Cons c s)
  show ?case
  proof (cases "starts_with (c # s) p")
    case True
    then have "i = 0" "take (length p) (c # s) = p" using Cons.prems by (simp_all add: starts_with_def)
    then show ?thesis by (cases p) (simp_all add: starts_with_def)
  next
    case False
    then obtain j where j: "index_of s p = Some j" "i = Suc j" using Cons.prems by auto
    have "take (length p) (take (i + length p) (c # s)) = take (length p) (c # s)"
      by (simp only: take_take) (simp add: min_def)
    then have "\<not> starts_with (take (i + length p) (c # s)) p"
      using False by (simp only: starts_with_def not_False_eq_True)
    then show ?thesis using Cons.IH [OF j(1)] j(2) by simp
  qed
qed (auto split: if_splits)

definition then_drain :: "callback \<Rightarrow> stream_effect list \<Rightarrow> jstring \<Rightarrow> stream_effect list \<times> (stream_error + jstring option)" where
  "then_drain cb es s = (es @ fst (drain cb s), snd (drain cb s))"

lemma drain_boundary:
  assumes "index_of b [10, 10] = Some i"
  shows "drain cb (take (i + 2) b @ x) = (case deliver cb (take i b) of
      (es, Inl e) \<Rightarrow> (es, Inl e)
    | (es, Inr completed) \<Rightarrow> if completed then (es, Inr None) else then_drain cb es x)"
proof -
  have len: "i + 2 \<le> length b" using index_of_Some [OF assms] by simp
  have "index_of (take (i + 2) b @ x) [10, 10] = Some i"
    using index_of_append [OF index_of_take [OF assms]] by simp
  moreover have "slice 0 i (take (i + 2) b @ x) = take i b" "slice_from (i + 2) (take (i + 2) b @ x) = x"
    using len by (simp_all add: slice_def slice_from_def)
  ultimately show ?thesis
    by (subst drain.simps) (simp add: then_drain_def case_prod_unfold split: sum.split)
qed

text \<open>
  What a buffer yields depends on the blocks it is cut into only: some prefix \<open>p\<close> that ends in a
  line end decides it, whatever follows.
\<close>

lemma drain_split:
  "\<exists>p rest. b = p @ rest \<and> (p = [] \<or> last p = 10) \<and>
     (case snd (drain cb b) of
        Inr (Some r) \<Rightarrow> r = rest \<and> (\<forall>x. drain cb (p @ x) = then_drain cb (fst (drain cb b)) x)
      | _ \<Rightarrow> (\<forall>x. drain cb (p @ x) = drain cb b))"
proof (induction cb b rule: drain.induct)
  case (1 cb b)
  show ?case
  proof (cases "index_of b [10, 10]")
    case None
    then have "drain cb b = ([], Inr (Some b))" by (simp add: drain.simps [of cb b])
    then show ?thesis by (intro exI [of _ "[]"] exI [of _ b]) (simp add: then_drain_def)
  next
    case (Some i)
    have b: "b = take (i + 2) b @ drop (i + 2) b" by simp
    have len: "i + 2 \<le> length b" "b = take i b @ [10, 10] @ drop (i + 2) b"
      using index_of_Some [OF Some] by simp_all
    have "take (i + 2) b = take i b @ [10, 10]"
      by (subst len(2)) (use len(1) in simp)
    then have la: "last (take (i + 2) b) = 10" by simp
    have sl: "slice 0 i b = take i b" "slice_from (i + 2) b = drop (i + 2) b"
      by (simp_all add: slice_def slice_from_def)
    note db = drain_boundary [OF Some, of cb]
    have d0: "drain cb b = (case deliver cb (take i b) of (es, Inl e) \<Rightarrow> (es, Inl e)
        | (es, Inr completed) \<Rightarrow> if completed then (es, Inr None) else then_drain cb es (drop (i + 2) b))"
      using db [of "drop (i + 2) b"] by simp
    obtain es r where del: "deliver cb (take i b) = (es, r)" by (cases "deliver cb (take i b)")
    show ?thesis
    proof (cases "r = Inr False")
      case False
      then have "snd (drain cb b) = Inr None \<or> (\<exists>e. snd (drain cb b) = Inl e)" "\<forall>x. drain cb (take (i + 2) b @ x) = drain cb b"
        using d0 db del by (auto split: sum.split)
      then show ?thesis using la b by (intro exI [of _ "take (i + 2) b"] exI [of _ "drop (i + 2) b"]) auto
    next
      case True
      then have step: "drain cb (take (i + 2) b @ x) = then_drain cb es x" for x using db del by simp
      have d1: "drain cb b = then_drain cb es (drop (i + 2) b)" using d0 del True by simp
      have "\<exists>p rest. drop (i + 2) b = p @ rest \<and> (p = [] \<or> last p = 10) \<and>
        (case snd (drain cb (drop (i + 2) b)) of
           Inr (Some r) \<Rightarrow> r = rest \<and> (\<forall>x. drain cb (p @ x) = then_drain cb (fst (drain cb (drop (i + 2) b))) x)
         | _ \<Rightarrow> (\<forall>x. drain cb (p @ x) = drain cb (drop (i + 2) b)))"
        using "1.IH" [OF Some, of es "Inr False" False, unfolded sl] del True by simp
      then obtain p rest where p: "drop (i + 2) b = p @ rest" "p = [] \<or> last p = 10"
        "case snd (drain cb (drop (i + 2) b)) of
           Inr (Some r) \<Rightarrow> r = rest \<and> (\<forall>x. drain cb (p @ x) = then_drain cb (fst (drain cb (drop (i + 2) b))) x)
         | _ \<Rightarrow> (\<forall>x. drain cb (p @ x) = drain cb (drop (i + 2) b))"
        by blast
      have "b = (take (i + 2) b @ p) @ rest" using b p(1) by (metis append.assoc)
      moreover have "take (i + 2) b @ p = [] \<or> last (take (i + 2) b @ p) = 10" using la p(2) by (metis append_Nil2 last_appendR)
      ultimately show ?thesis using p(3) step d1
        by (intro exI [of _ "take (i + 2) b @ p"] exI [of _ rest])
          (auto simp: then_drain_def split: sum.splits option.splits)
    qed
  qed
qed

section \<open>Chunks\<close>

definition run_whole :: "callback \<Rightarrow> jstring \<Rightarrow> stream_effect list \<times> (stream_error + unit)" where
  "run_whole cb s = read_loop cb [] (Done_text s) []"

lemma read_loop_Done: "read_loop cb [] (Done_text t) buffer = run_whole cb (buffer @ t)"
  by (simp add: run_whole_def)

text \<open>A chunk that is drained early changes nothing of what the whole text yields.\<close>

lemma run_whole_step:
  assumes "pair_free 13 13 (b @ x)"
  shows "run_whole cb (b @ x) = (case drain cb (crlf b) of
      (es, Inl e) \<Rightarrow> (es, Inl e)
    | (es, Inr None) \<Rightarrow> (es, Inr ())
    | (es, Inr (Some rest)) \<Rightarrow> (es @ fst (run_whole cb (rest @ x)), snd (run_whole cb (rest @ x))))"
    and "snd (drain cb (crlf b)) = Inr (Some rest) \<Longrightarrow> pair_free 13 13 (rest @ x)"
proof -
  obtain p r where p: "crlf b = p @ r" "p = [] \<or> last p = 10"
    "case snd (drain cb (crlf b)) of
        Inr (Some r') \<Rightarrow> r' = r \<and> (\<forall>x. drain cb (p @ x) = then_drain cb (fst (drain cb (crlf b))) x)
      | _ \<Rightarrow> (\<forall>x. drain cb (p @ x) = drain cb (crlf b))"
    using drain_split [of "crlf b" cb] by blast
  have free: "pair_free 13 13 (p @ r @ x)" "pair_free 13 10 p"
    using crlf_keeps [OF assms] pair_free_append [of 13 10 p r] p(1) by simp_all
  have "crlf (b @ x) = crlf (p @ r @ x)" using crlf_twice [OF assms] p(1) by simp
  also have "\<dots> = p @ crlf (r @ x)" using free(2) p(2) by (intro crlf_prefix) auto
  finally have c: "crlf (b @ x) = p @ crlf (r @ x)" .
  show "pair_free 13 13 (rest @ x)" if "snd (drain cb (crlf b)) = Inr (Some rest)"
    using that p(3) pair_free_append [OF free(1)] by simp
  show "run_whole cb (b @ x) = (case drain cb (crlf b) of
      (es, Inl e) \<Rightarrow> (es, Inl e)
    | (es, Inr None) \<Rightarrow> (es, Inr ())
    | (es, Inr (Some rest)) \<Rightarrow> (es @ fst (run_whole cb (rest @ x)), snd (run_whole cb (rest @ x))))"
    using p(3) by (cases "drain cb (crlf b)")
      (auto simp: run_whole_def c then_drain_def case_prod_unfold split: sum.splits option.splits)
qed

lemma read_loop_whole:
  "pair_free 13 13 (buffer @ concat cs @ t) \<Longrightarrow>
   read_loop cb cs (Done_text t) buffer = run_whole cb (buffer @ concat cs @ t)"
proof (induction cs arbitrary: buffer)
  case Nil
  then show ?case by (simp add: read_loop_Done del: read_loop.simps)
next
  case (Cons c cs)
  have free: "pair_free 13 13 ((buffer @ c) @ concat cs @ t)" using Cons.prems by simp
  note step = run_whole_step [OF free]
  show ?case
  proof (cases "snd (drain cb (crlf (buffer @ c)))")
    case (Inr o')
    then show ?thesis
    proof (cases o')
      case (Some rest)
      then have "read_loop cb cs (Done_text t) rest = run_whole cb (rest @ concat cs @ t)"
        using Cons.IH step(2) Inr by blast
      then show ?thesis using step(1) Inr Some by (cases "drain cb (crlf (buffer @ c))") (simp add: case_prod_unfold)
    qed (use step(1) in \<open>cases "drain cb (crlf (buffer @ c))"; simp\<close>)
  qed (use step(1) in \<open>cases "drain cb (crlf (buffer @ c))"; simp\<close>)
qed

section \<open>Properties\<close>

text \<open>
  C35: The events of a stream do not depend on how the network cuts it: for a text without two
  consecutive carriage returns every division into chunks delivers the same events and ends in the
  same way as the whole text at once, also where a chunk ends inside a line end or a block.
\<close>

theorem stream_chunking:
  assumes "\<not> includes_str (concat chunks @ t) [13, 13]"
  shows "read_stream cb chunks (Done_text t) = read_stream cb [] (Done_text (concat chunks @ t))"
  using read_loop_whole [of "[]" chunks t cb] assms
  by (simp add: read_stream_def pair_free_iff read_loop_Done del: read_loop.simps)

theorem stream_chunking_witness:
  "read_stream (\<lambda>_. None) [lit ''data: 1'' @ [13], [10, 13]] (Done_text [10]) =
   read_stream (\<lambda>_. None) [] (Done_text (lit ''data: 1'' @ [13, 10, 13, 10]))"
  using stream_chunking [of "[lit ''data: 1'' @ [13], [10, 13]]" "[10]" "\<lambda>_. None"]
  by (simp add: includes_str_def starts_with_def lit_def)

text \<open>
  Events that let the reader go on, and the events of a run: all but the last are such, and the last
  one is such, completes the stream, or makes the callback throw.
\<close>

definition goes_on :: "callback \<Rightarrow> agent_event \<Rightarrow> bool" where
  "goes_on cb ev \<longleftrightarrow> ev_type ev \<noteq> lit ''error'' \<and> ev_type ev \<noteq> lit ''completed'' \<and> cb ev = None"

definition ends_well :: "callback \<Rightarrow> agent_event list \<Rightarrow> bool" where
  "ends_well cb evs \<longleftrightarrow> evs \<noteq> [] \<and> ev_type (last evs) = lit ''completed'' \<and> cb (last evs) = None"

definition run_events :: "callback \<Rightarrow> agent_event list \<Rightarrow> bool" where
  "run_events cb evs \<longleftrightarrow> list_all (goes_on cb) (butlast evs) \<and> list_all (\<lambda>ev. ev_type ev \<noteq> lit ''error'') evs"

definition block_ok :: "callback \<Rightarrow> stream_effect list \<Rightarrow> bool option \<Rightarrow> bool" where
  "block_ok cb es o' \<longleftrightarrow> (\<exists>evs. es = map On_event evs \<and> run_events cb evs \<and>
     (case o' of None \<Rightarrow> list_all (goes_on cb) evs | Some success \<Rightarrow> success = ends_well cb evs))"

lemma goes_on_run: "list_all (goes_on cb) evs \<Longrightarrow> run_events cb evs \<and> \<not> ends_well cb evs"
  by (cases evs rule: rev_cases) (auto simp: run_events_def ends_well_def goes_on_def list_all_iff dest: in_set_butlastD)

lemma block_ok_Nil: "block_ok cb [] None" "block_ok cb [] (Some False)"
  by (simp_all add: block_ok_def run_events_def ends_well_def)

lemma block_ok_append: "block_ok cb es None \<Longrightarrow> block_ok cb es' o' \<Longrightarrow> block_ok cb (es @ es') o'"
proof -
  assume "block_ok cb es None" "block_ok cb es' o'"
  then obtain evs evs' where e: "es = map On_event evs" "list_all (goes_on cb) evs" "es' = map On_event evs'" "run_events cb evs'"
      "case o' of None \<Rightarrow> list_all (goes_on cb) evs' | Some success \<Rightarrow> success = ends_well cb evs'"
    by (auto simp: block_ok_def)
  have "run_events cb (evs @ evs')" "evs' \<noteq> [] \<Longrightarrow> ends_well cb (evs @ evs') = ends_well cb evs'"
    using e(2,4) goes_on_run [OF e(2)] by (auto simp: run_events_def butlast_append ends_well_def)
  moreover have "evs' = [] \<Longrightarrow> \<not> ends_well cb evs' \<and> \<not> ends_well cb evs" using goes_on_run [OF e(2)] by (simp add: ends_well_def)
  ultimately show ?thesis using e unfolding block_ok_def
    by (intro exI [of _ "evs @ evs'"]) (cases "evs' = []"; auto split: option.splits)
qed

definition outcome :: "stream_error + bool \<Rightarrow> bool option" where
  "outcome r = (case r of Inl _ \<Rightarrow> Some False | Inr b \<Rightarrow> if b then Some True else None)"

lemma deliver_ok: "block_ok cb (fst (deliver cb s)) (outcome (snd (deliver cb s)))"
  by (auto simp: deliver_def outcome_def block_ok_Nil block_ok_def run_events_def ends_well_def goes_on_def
      split: sum.split option.split intro!: exI [of _ "[_]"])

lemma drain_ok:
  "block_ok cb (fst (drain cb b)) (case snd (drain cb b) of Inl _ \<Rightarrow> Some False | Inr None \<Rightarrow> Some True | Inr (Some _) \<Rightarrow> None)"
proof (induction cb b rule: drain.induct)
  case (1 cb b)
  show ?case
  proof (cases "index_of b [10, 10]")
    case None
    then show ?thesis by (simp add: drain.simps [of cb b] block_ok_Nil)
  next
    case (Some i)
    obtain es r where del: "deliver cb (slice 0 i b) = (es, r)" by (cases "deliver cb (slice 0 i b)")
    have ok: "block_ok cb es (outcome r)" using deliver_ok [of cb "slice 0 i b"] del by simp
    show ?thesis
    proof (cases "r = Inr False")
      case True
      have d: "drain cb b = then_drain cb es (slice_from (i + 2) b)"
        using Some del True by (simp add: drain.simps [of cb b] then_drain_def case_prod_unfold)
      show ?thesis
        using "1.IH" [OF Some, of es "Inr False" False] del True block_ok_append [OF ok [unfolded outcome_def True, simplified]]
        by (simp add: d then_drain_def)
    next
      case False
      then show ?thesis using Some del ok by (auto simp: drain.simps [of cb b] outcome_def split: sum.splits if_splits)
    qed
  qed
qed

lemma finish_ok: "block_ok cb (fst (finish cb b)) (Some (snd (finish cb b) = Inr ()))"
proof -
  have "block_ok cb es None \<Longrightarrow> block_ok cb es (Some False)" for es
    using goes_on_run by (auto simp: block_ok_def)
  then show ?thesis using deliver_ok [of cb "trim b"] block_ok_Nil(2)
    by (cases "deliver cb (trim b)") (auto simp: finish_def outcome_def split: sum.splits if_splits)
qed

lemma read_loop_ok: "block_ok cb (fst (read_loop cb cs tl' b)) (Some (snd (read_loop cb cs tl' b) = Inr ()))"
proof (induction cb cs tl' b rule: read_loop.induct)
  case (2 cb t b)
  then show ?case using drain_ok [of cb "crlf (b @ t)"] finish_ok [of cb]
    by (cases "drain cb (crlf (b @ t))") (auto simp: case_prod_unfold block_ok_append split: sum.splits option.splits)
next
  case (3 cb c cs tl' b)
  then show ?case using drain_ok [of cb "crlf (b @ c)"]
    by (cases "drain cb (crlf (b @ c))") (auto simp: case_prod_unfold block_ok_append split: sum.splits option.splits)
qed (simp add: block_ok_Nil)

text \<open>
  C34: Every run of the reader ends, whatever the server sends: it delivers events none of which is
  an error and none of which, but the last, is a completion or makes the callback throw; then it
  cancels the reader once and releases it. It succeeds exactly when the last event delivered is a
  completion that the callback accepts.
\<close>

theorem stream_protocol:
  "\<exists>evs r. read_stream cb chunks tl' = (map On_event evs @ [Cancel, Release], r) \<and>
     run_events cb evs \<and> (r = Inr ()) = ends_well cb evs"
  using read_loop_ok [of cb chunks tl' "[]"] by (auto simp: read_stream_def case_prod_unfold block_ok_def)

end
