(* ===== verification/Workspace_State.thy ===== *)
theory Workspace_State
  imports Workspace_Data Agent_Stream
begin

text \<open>
  The creation workspace (\<^verbatim>\<open>pages/MujianWorkspace/index.jsx\<close>) as a state machine. The record holds
  the state and the refs of the component; a request is a number, like the \<^verbatim>\<open>AbortController\<close> the
  code compares, with what its continuation remembers in \<open>w_pending\<close>. A handler that awaits is split
  into its start and its continuations, so that other events may come between; aborting a request
  does not keep its answer from arriving. The workspace is the server's JSON value; where an updater
  would throw on it, \<open>w_crashed\<close> is set. Messages to the user, URL changes, aborts and released
  object URLs are listed in \<open>w_out\<close>. Focus handling of the results panel is not modelled.
\<close>

section \<open>Texts\<close>

definition scope_text :: jstring where
  "scope_text = [20250, 35805, 21709, 24212, 19981, 21305, 37197, 65292, 35831, 37325, 35797]"

definition session_failed_text :: jstring where
  "session_failed_text = [20250, 35805, 35831, 27714, 22833, 36133]"

definition new_session_text :: jstring where
  "new_session_text = [26032, 20250, 35805, 21019, 24314, 21709, 24212, 26080, 25928]"

definition image_failed_text :: jstring where
  "image_failed_text = [22270, 29255, 29983, 25104, 35831, 27714, 22833, 36133]"

definition generation_scope_text :: jstring where
  "generation_scope_text = [22270, 29255, 20219, 21153, 21709, 24212, 19981, 21305, 37197, 65292, 35831, 37325, 35797]"

definition poll_text :: jstring where
  "poll_text = [29983, 25104, 20173, 22312, 36827, 34892, 65292, 35831, 31245, 21518, 21047, 26032, 26597, 30475]"

definition first_skill :: jstring where
  "first_skill = [30701, 21095, 32534, 21095]"

text \<open>The error of reading a property of \<^verbatim>\<open>null\<close>; its text is the engine's.\<close>

definition null_read_text :: jstring where
  "null_read_text = lit ''Cannot read properties of null''"

definition internal_error :: "jstring \<Rightarrow> req_error" where
  "internal_error msg = \<lparr>re_code = [], re_name = lit ''Error'', re_status = None, re_data_message = JUndef, re_message = msg\<rparr>"

definition ERR_CANCELED :: jstring where
  "ERR_CANCELED = lit ''ERR_CANCELED''"

section \<open>State\<close>

datatype creation_mode = Mode_chat | Mode_image
datatype session_change = Switching | Creating | Clearing
datatype ws_fallback = FB_load | FB_switch | FB_create | FB_clear | FB_default | FB_agent | FB_poll | FB_image | FB_regenerate
datatype ws_limit = Too_many_attachments | Attachments_too_large | Too_many_references | References_too_large
datatype ws_success = S_created | S_cleared | S_generated | S_submitted | S_regenerated | S_switched_model jstring

datatype ws_out = Show_error ws_fallback "jstring option" | Limit_error ws_limit | File_failed file_error
  | Show_success ws_success | Set_url jstring bool | Abort nat | Revoke jstring

datatype confirm = Confirm_switch jstring | Confirm_url jstring | Confirm_new | Confirm_clear

text \<open>What the continuation of a request remembers.\<close>

datatype pending =
    P_load jstring jstring
  | P_switch jstring jstring bool
  | P_create jstring
  | P_clear jstring jstring
  | P_metadata jstring jstring
  | P_agent jstring jstring jstring jstring "attachment list"
  | P_image jstring jstring "image_reference list"
  | P_regenerate jstring jstring jsv
  | P_poll jstring jstring jsv nat "req_error option"
  | P_default jstring
  | P_attachments jstring nat "ws_file list"

record ws_models =
  md_chat :: "jstring list"
  md_image :: "jstring list"
  md_items :: "jsv list"

record ws_state =
  w_projectId :: jstring
  w_requestedSessionId :: jstring
  w_workspace :: jsv
  w_crashed :: bool
  w_preference :: jsv
  w_models :: ws_models
  w_creationMode :: creation_mode
  w_currentSkill :: jstring
  w_compactWorkspace :: bool
  w_resultsOpen :: bool
  w_selectedGenerationId :: jsv
  w_message :: jstring
  w_attachments :: "attachment list"
  w_imagePrompt :: jstring
  w_imageEngine :: image_engine
  w_imageAspectRatio :: jstring
  w_imageReferences :: "image_reference list"
  w_selectedImageModels :: "image_engine \<Rightarrow> jstring"
  w_loading :: bool
  w_sending :: bool
  w_imageSubmitting :: bool
  w_regeneratingIds :: "jsv list"
  w_readingAttachments :: bool
  w_savingDefaults :: "jstring \<Rightarrow> bool"
  w_sessionChanging :: "session_change option"
  w_mounted :: bool
  w_generationRequests :: "(jstring \<times> nat) list"
  w_generationActionRequests :: "(jstring \<times> nat) list"
  w_imageCreateRequest :: "nat option"
  w_agentRequest :: "nat option"
  w_sessionRequest :: "nat option"
  w_sessionMetadataRequest :: "nat option"
  w_sessionConfirm :: "confirm option"
  w_pendingUrlSession :: jstring
  w_readingRef :: bool
  w_attachmentReadEpoch :: nat
  w_preferenceUpdates :: "jstring list"
  w_activeSessionIdRef :: jstring
  w_next :: nat
  w_pending :: "(nat \<times> pending) list"
  w_out :: "ws_out list"

definition ws_emit :: "ws_out \<Rightarrow> ws_state \<Rightarrow> ws_state" where
  "ws_emit e st = st\<lparr>w_out := w_out st @ [e]\<rparr>"

definition ws_emits :: "ws_out list \<Rightarrow> ws_state \<Rightarrow> ws_state" where
  "ws_emits es st = st\<lparr>w_out := w_out st @ es\<rparr>"

text \<open>A new controller with its continuation.\<close>

definition start_request :: "pending \<Rightarrow> ws_state \<Rightarrow> nat \<times> ws_state" where
  "start_request p st = (w_next st, st\<lparr>w_next := Suc (w_next st), w_pending := (w_next st, p) # w_pending st\<rparr>)"

definition end_request :: "nat \<Rightarrow> ws_state \<Rightarrow> ws_state" where
  "end_request n st = st\<lparr>w_pending := filter (\<lambda>p. fst p \<noteq> n) (w_pending st)\<rparr>"

text \<open>\<^verbatim>\<open>setWorkspace(updater)\<close>; an updater that throws gives \<open>None\<close>.\<close>

definition update_workspace :: "(jsv \<Rightarrow> jsv option) \<Rightarrow> ws_state \<Rightarrow> ws_state" where
  "update_workspace f st = (case f (w_workspace st) of
       Some v \<Rightarrow> st\<lparr>w_workspace := v\<rparr>
     | None \<Rightarrow> st\<lparr>w_crashed := True\<rparr>)"

section \<open>Derived values\<close>

definition visibleWorkspace :: "ws_state \<Rightarrow> jsv" where
  "visibleWorkspace st = (if project_id_of (w_workspace st) = JStr (w_projectId st) then w_workspace st else JNull)"

definition activeSessionId :: "ws_state \<Rightarrow> jstring" where
  "activeSessionId st = (case active_session_of (visibleWorkspace st) of JStr s \<Rightarrow> s | _ \<Rightarrow> [])"

abbreviation list_of :: "jsv \<Rightarrow> jsv list" where
  "list_of v \<equiv> (case v of JArr xs \<Rightarrow> xs | _ \<Rightarrow> [])"

definition number_or_zero :: "jsv \<Rightarrow> jsnum" where
  "number_or_zero v = (let n = js_number v in if n = NaN then Fin 0 else n)"

text \<open>The messages by time; the sort is stable, as the comparison by index makes the code's.\<close>

definition projectMessages :: "ws_state \<Rightarrow> jsv list" where
  "projectMessages st = stable_sort
     (\<lambda>a b. \<not> num_less (number_or_zero (get_prop (lit ''created_at'') b)) (number_or_zero (get_prop (lit ''created_at'') a)))
     (list_of (get_prop (lit ''messages'') (visibleWorkspace st)))"

definition projectGenerations :: "ws_state \<Rightarrow> jsv list" where
  "projectGenerations st = list_of (get_prop (lit ''image_generations'') (visibleWorkspace st))"

definition agentSessions :: "ws_state \<Rightarrow> jsv list" where
  "agentSessions st = list_of (sessions_of (visibleWorkspace st))"

definition generation_busy :: "jsv \<Rightarrow> bool" where
  "generation_busy g \<longleftrightarrow> get_prop (lit ''status'') g \<in> {JStr (lit ''queued''), JStr (lit ''running'')}"

definition imageLibraryBusy :: "ws_state \<Rightarrow> bool" where
  "imageLibraryBusy st = list_ex generation_busy (projectGenerations st)"

definition sessionControlsBusy :: "ws_state \<Rightarrow> bool" where
  "sessionControlsBusy st \<longleftrightarrow> w_loading st \<or> visibleWorkspace st = JNull \<or> w_sessionChanging st \<noteq> None \<or> w_sending st \<or>
     w_imageSubmitting st \<or> w_regeneratingIds st \<noteq> [] \<or> w_readingAttachments st"

text \<open>A render copies the route and the active session into the refs.\<close>

definition render :: "ws_state \<Rightarrow> ws_state" where
  "render st = st\<lparr>w_activeSessionIdRef := activeSessionId st\<rparr>"

section \<open>Aborting\<close>

definition setSessionInUrl :: "jstring \<Rightarrow> bool \<Rightarrow> ws_state \<Rightarrow> ws_state" where
  "setSessionInUrl sid rep st = ws_emit (Set_url sid rep) (st\<lparr>w_requestedSessionId := sid\<rparr>)"

definition abort_opt :: "nat option \<Rightarrow> ws_out list" where
  "abort_opt r = (case r of Some n \<Rightarrow> [Abort n] | None \<Rightarrow> [])"

definition abortSessionImageRequests :: "ws_state \<Rightarrow> ws_state" where
  "abortSessionImageRequests st =
     (ws_emits (map (\<lambda>p. Abort (snd p)) (w_generationRequests st) @
        map (\<lambda>p. Abort (snd p)) (w_generationActionRequests st) @ abort_opt (w_imageCreateRequest st)) st)
     \<lparr>w_generationRequests := [], w_generationActionRequests := [], w_imageCreateRequest := None\<rparr>"

definition abortProjectRequests :: "ws_state \<Rightarrow> ws_state" where
  "abortProjectRequests st0 =
     (let st = abortSessionImageRequests st0
      in (ws_emits (abort_opt (w_agentRequest st) @ abort_opt (w_sessionRequest st) @ abort_opt (w_sessionMetadataRequest st)) st)
         \<lparr>w_agentRequest := None, w_sessionRequest := None, w_sessionMetadataRequest := None,
          w_sessionConfirm := None, w_pendingUrlSession := []\<rparr>)"

definition releaseImageReference :: "image_reference \<Rightarrow> ws_out list" where
  "releaseImageReference r = (if ref_previewUrl r \<noteq> [] then [Revoke (ref_previewUrl r)] else [])"

definition release_references :: "ws_state \<Rightarrow> ws_state" where
  "release_references st = ws_emits (concat (map releaseImageReference (w_imageReferences st))) st"

definition unmount :: "ws_state \<Rightarrow> ws_state" where
  "unmount st = (let st1 = release_references (abortProjectRequests (st\<lparr>w_mounted := False\<rparr>))
     in st1\<lparr>w_attachmentReadEpoch := w_attachmentReadEpoch st1 + 1\<rparr>)"

text \<open>The layout effect on a change of the project.\<close>

definition project_effect :: "ws_state \<Rightarrow> ws_state" where
  "project_effect st0 =
     (let st = release_references (abortProjectRequests st0)
      in st\<lparr>w_attachmentReadEpoch := w_attachmentReadEpoch st + 1, w_readingRef := False, w_loading := True,
            w_workspace := JNull, w_currentSkill := first_skill, w_creationMode := Mode_chat,
            w_resultsOpen := \<not> w_compactWorkspace st, w_selectedGenerationId := JNull, w_message := [],
            w_attachments := [], w_imagePrompt := [], w_imageReferences := [], w_sending := False,
            w_imageSubmitting := False, w_regeneratingIds := [], w_readingAttachments := False,
            w_sessionChanging := None\<rparr>)"

definition breakpoint_change :: "bool \<Rightarrow> ws_state \<Rightarrow> ws_state" where
  "breakpoint_change matches st = st\<lparr>w_compactWorkspace := matches, w_resultsOpen := \<not> matches\<rparr>"

section \<open>Loading\<close>

datatype reply = Rejected req_error | Answer jsv

definition settle_answer :: "jstring \<Rightarrow> reply \<Rightarrow> req_error + jsv" where
  "settle_answer fallback r = (case r of
       Rejected e \<Rightarrow> Inl e
     | Answer d \<Rightarrow>
         (case workspaceData d of
            Inl m \<Rightarrow> Inl (internal_error (if truthy m then js_string m else fallback))
          | Inr v \<Rightarrow> Inr v))"

definition load_start :: "ws_state \<Rightarrow> ws_state" where
  "load_start st = (case start_request (P_load (w_projectId st) (w_requestedSessionId st))
       (if w_mounted st then st\<lparr>w_loading := True\<rparr> else st) of (n, st') \<Rightarrow> st')"

text \<open>Still the project the request was made for?\<close>

definition same_project :: "jstring \<Rightarrow> ws_state \<Rightarrow> bool" where
  "same_project pid st \<longleftrightarrow> w_mounted st \<and> w_projectId st = pid"

definition load_failed :: "jstring \<Rightarrow> req_error \<Rightarrow> ws_state \<Rightarrow> ws_state" where
  "load_failed pid e st =
     (let st1 = (if same_project pid st \<and> re_code e \<noteq> ERR_CANCELED then ws_emit (Show_error FB_load (requestError e)) st else st)
      in if same_project pid st1 then st1\<lparr>w_loading := False\<rparr> else st1)"

text \<open>
  How the two requests of a load settle: one of them is rejected first (the flag says whether it is
  that of the workspace), or both are answered, the preferences with a message or with the
  preferences and the models they list.
\<close>

datatype load_result = Load_rejected req_error bool | Load_answered jsv "jstring + (jsv \<times> ws_models)"

text \<open>A saved session that no longer exists is loaded again without it.\<close>

definition load_reply :: "nat \<Rightarrow> jstring \<Rightarrow> jstring \<Rightarrow> load_result \<Rightarrow> ws_state \<Rightarrow> ws_state" where
  "load_reply n pid initial r st0 =
     (let st = end_request n st0 in
      case r of
        Load_rejected e ofWorkspace \<Rightarrow>
          if ofWorkspace \<and> initial \<noteq> [] \<and> re_status e = Some 404 then snd (start_request (P_load pid []) st)
          else load_failed pid e st
      | Load_answered loaded (Inl msg) \<Rightarrow> load_failed pid (internal_error msg) st
      | Load_answered loaded (Inr (pref, models)) \<Rightarrow>
          if loaded = JNull \<or> loaded = JUndef then load_failed pid (internal_error null_read_text) st
          else if \<not> assertWorkspaceScope loaded pid (active_session_of loaded) then load_failed pid (internal_error scope_text) st
          else if same_project pid st then
            (let st1 = st\<lparr>w_workspace := loaded, w_preference := pref, w_models := models\<rparr>;
                 active = js_string (active_session_of loaded);
                 st2 = (if active \<noteq> [] \<and> active \<noteq> initial then setSessionInUrl active True st1 else st1)
             in st2\<lparr>w_loading := False\<rparr>)
          else st)"

section \<open>Sessions\<close>

definition discardWorkspaceDraft :: "ws_state \<Rightarrow> ws_state" where
  "discardWorkspaceDraft st0 =
     (let st = st0\<lparr>w_attachmentReadEpoch := w_attachmentReadEpoch st0 + 1, w_readingRef := False,
            w_readingAttachments := False, w_message := [], w_attachments := [], w_imagePrompt := []\<rparr>
      in (release_references st)\<lparr>w_imageReferences := []\<rparr>)"

text \<open>What keeps a session operation from starting.\<close>

definition session_blocked :: "ws_state \<Rightarrow> bool" where
  "session_blocked st \<longleftrightarrow> w_sessionRequest st \<noteq> None \<or> w_agentRequest st \<noteq> None \<or> w_imageCreateRequest st \<noteq> None \<or>
     w_generationActionRequests st \<noteq> [] \<or> w_readingRef st"

definition begin_session :: "pending \<Rightarrow> session_change \<Rightarrow> ws_state \<Rightarrow> ws_state" where
  "begin_session p change st = (case start_request p st of (n, st') \<Rightarrow>
     st'\<lparr>w_sessionRequest := Some n, w_sessionChanging := Some change\<rparr>)"

definition switchSession :: "jstring \<Rightarrow> bool \<Rightarrow> ws_state \<Rightarrow> ws_state" where
  "switchSession sid urlAlreadyChanged st =
     (if sid = [] \<or> sid = w_activeSessionIdRef st \<or> session_blocked st
      then (if urlAlreadyChanged then st\<lparr>w_pendingUrlSession := []\<rparr> else st)
      else begin_session (P_switch (w_projectId st) sid urlAlreadyChanged) Switching st)"

definition createSession :: "ws_state \<Rightarrow> ws_state" where
  "createSession st =
     (if w_activeSessionIdRef st = [] \<or> session_blocked st then st
      else begin_session (P_create (w_projectId st)) Creating st)"

definition clearSession :: "ws_state \<Rightarrow> ws_state" where
  "clearSession st =
     (if w_activeSessionIdRef st = [] \<or> session_blocked st then st
      else begin_session (P_clear (w_projectId st) (w_activeSessionIdRef st)) Clearing st)"

definition own_session :: "nat \<Rightarrow> jstring \<Rightarrow> ws_state \<Rightarrow> bool" where
  "own_session n pid st \<longleftrightarrow> same_project pid st \<and> w_sessionRequest st = Some n"

text \<open>The \<^verbatim>\<open>finally\<close> of the session operations.\<close>

definition finish_session :: "nat \<Rightarrow> ws_state \<Rightarrow> ws_state" where
  "finish_session n st =
     (if w_sessionRequest st = Some n
      then (if w_mounted st then st\<lparr>w_sessionRequest := None, w_sessionChanging := None\<rparr> else st\<lparr>w_sessionRequest := None\<rparr>)
      else st)"

definition session_failed :: "nat \<Rightarrow> jstring \<Rightarrow> ws_fallback \<Rightarrow> req_error \<Rightarrow> ws_state \<Rightarrow> ws_state" where
  "session_failed n pid fb e st =
     (if own_session n pid st \<and> re_code e \<noteq> ERR_CANCELED then ws_emit (Show_error fb (requestError e)) st else st)"

definition enter_session :: "jstring \<Rightarrow> jsv \<Rightarrow> ws_state \<Rightarrow> ws_state" where
  "enter_session sid nxt st =
     discardWorkspaceDraft (update_workspace (\<lambda>cur. Some (mergeAgentSessionWorkspace cur nxt))
       ((abortSessionImageRequests (st\<lparr>w_activeSessionIdRef := sid\<rparr>))\<lparr>w_selectedGenerationId := JNull\<rparr>))"

definition switch_reply :: "nat \<Rightarrow> jstring \<Rightarrow> jstring \<Rightarrow> bool \<Rightarrow> reply \<Rightarrow> ws_state \<Rightarrow> ws_state" where
  "switch_reply n pid sid fromUrl r st0 =
     (let st = end_request n st0;
          fail = (\<lambda>e. session_failed n pid FB_switch e
            (if fromUrl \<and> own_session n pid st \<and> re_code e \<noteq> ERR_CANCELED
             then setSessionInUrl (w_activeSessionIdRef st) False st else st));
          st1 = (case settle_answer session_failed_text r of
            Inl e \<Rightarrow> fail e
          | Inr nxt \<Rightarrow>
              if \<not> assertWorkspaceScope nxt pid (JStr sid) then fail (internal_error scope_text)
              else if own_session n pid st then
                (let st2 = enter_session sid nxt st in if fromUrl then st2 else setSessionInUrl sid False st2)
              else st);
          st3 = finish_session n st1
      in if fromUrl then st3\<lparr>w_pendingUrlSession := []\<rparr> else st3)"

definition create_reply :: "nat \<Rightarrow> jstring \<Rightarrow> reply \<Rightarrow> ws_state \<Rightarrow> ws_state" where
  "create_reply n pid r st0 =
     (let st = end_request n st0;
          fail = (\<lambda>e. session_failed n pid FB_create e st);
          st1 = (case settle_answer session_failed_text r of
            Inl e \<Rightarrow> fail e
          | Inr nxt \<Rightarrow>
              if nxt = JNull \<or> nxt = JUndef then fail (internal_error null_read_text)
              else if \<not> truthy (active_session_of nxt) then fail (internal_error new_session_text)
              else if \<not> assertWorkspaceScope nxt pid (active_session_of nxt) then fail (internal_error scope_text)
              else if own_session n pid st then
                (let sid = js_string (active_session_of nxt)
                 in ws_emit (Show_success S_created) (setSessionInUrl sid False (enter_session sid nxt st)))
              else st)
      in finish_session n st1)"

definition clear_reply :: "nat \<Rightarrow> jstring \<Rightarrow> jstring \<Rightarrow> reply \<Rightarrow> ws_state \<Rightarrow> ws_state" where
  "clear_reply n pid sid r st0 =
     (let st = end_request n st0;
          fail = (\<lambda>e. session_failed n pid FB_clear e st);
          st1 = (case settle_answer session_failed_text r of
            Inl e \<Rightarrow> fail e
          | Inr nxt \<Rightarrow>
              if \<not> assertWorkspaceScope nxt pid (JStr sid) then fail (internal_error scope_text)
              else if own_session n pid st then
                ws_emit (Show_success S_cleared) (update_workspace (\<lambda>cur. Some (mergeAgentSessionWorkspace cur nxt)) st)
              else st)
      in finish_session n st1)"

section \<open>Confirmations and the session in the URL\<close>

definition has_draft :: "ws_state \<Rightarrow> bool" where
  "has_draft st = hasWorkspaceDraft (w_message st) (w_attachments st) (w_imagePrompt st) (w_imageReferences st)"

definition run_confirmed :: "confirm \<Rightarrow> ws_state \<Rightarrow> ws_state" where
  "run_confirmed c st = (case c of
       Confirm_switch sid \<Rightarrow> switchSession sid False st
     | Confirm_url sid \<Rightarrow> switchSession sid True st
     | Confirm_new \<Rightarrow> createSession st
     | Confirm_clear \<Rightarrow> clearSession st)"

definition confirmDraftDiscard :: "confirm \<Rightarrow> ws_state \<Rightarrow> ws_state" where
  "confirmDraftDiscard c st = (if \<not> has_draft st then run_confirmed c st else st\<lparr>w_sessionConfirm := Some c\<rparr>)"

definition requestSessionSwitch :: "jstring \<Rightarrow> ws_state \<Rightarrow> ws_state" where
  "requestSessionSwitch sid st =
     (if sid = [] \<or> sid = w_activeSessionIdRef st then st else confirmDraftDiscard (Confirm_switch sid) st)"

definition requestNewSession :: "ws_state \<Rightarrow> ws_state" where
  "requestNewSession st = confirmDraftDiscard Confirm_new st"

definition requestClearSession :: "ws_state \<Rightarrow> ws_state" where
  "requestClearSession st = (if w_activeSessionIdRef st = [] then st else st\<lparr>w_sessionConfirm := Some Confirm_clear\<rparr>)"

definition confirm_ok :: "ws_state \<Rightarrow> ws_state" where
  "confirm_ok st = (case w_sessionConfirm st of None \<Rightarrow> st | Some c \<Rightarrow> (run_confirmed c st)\<lparr>w_sessionConfirm := None\<rparr>)"

definition confirm_cancel :: "ws_state \<Rightarrow> ws_state" where
  "confirm_cancel st0 = (case w_sessionConfirm st0 of
       None \<Rightarrow> st0
     | Some c \<Rightarrow>
         (let st = st0\<lparr>w_sessionConfirm := None\<rparr>
          in case c of
               Confirm_url _ \<Rightarrow> (setSessionInUrl (activeSessionId st) False st)\<lparr>w_pendingUrlSession := []\<rparr>
             | _ \<Rightarrow> st))"

definition url_effect :: "ws_state \<Rightarrow> ws_state" where
  "url_effect st0 =
     (let active = activeSessionId st0; requested = w_requestedSessionId st0 in
      if visibleWorkspace st0 = JNull \<or> active = [] then st0
      else
        (let st = (if w_pendingUrlSession st0 \<noteq> [] \<and> w_pendingUrlSession st0 \<noteq> requested
              then (ws_emits (abort_opt (w_sessionRequest st0)) st0)\<lparr>w_sessionConfirm := None, w_sessionRequest := None,
                     w_pendingUrlSession := [], w_sessionChanging := None\<rparr>
              else st0)
         in if requested = [] then setSessionInUrl active True st
            else if requested = active then st
            else if \<not> list_ex (\<lambda>s. session_id s = JStr requested) (agentSessions st) then setSessionInUrl active True st
            else if w_pendingUrlSession st = requested then st
            else if session_blocked st then setSessionInUrl active False st
            else confirmDraftDiscard (Confirm_url requested) (st\<lparr>w_pendingUrlSession := requested\<rparr>)))"

section \<open>Image models\<close>

definition imageCapability :: "ws_state \<Rightarrow> jstring \<Rightarrow> jsv" where
  "imageCapability st m =
     (case map_of (rev (map (\<lambda>i. (get_prop (lit ''id'') i, i))
        (filter (\<lambda>i. get_prop (lit ''kind'') i = JStr (lit ''image'')) (md_items (w_models st))))) (JStr m) of
        Some i \<Rightarrow> i | None \<Rightarrow> JUndef)"

definition reference_available :: "ws_state \<Rightarrow> jstring \<Rightarrow> bool" where
  "reference_available st m = truthy (get_prop (lit ''reference_available'') (imageCapability st m))"

definition compatibleImageModels :: "unicode_map \<Rightarrow> ws_state \<Rightarrow> image_engine \<Rightarrow> jstring list" where
  "compatibleImageModels lower st engine =
     (if w_imageReferences st \<noteq> []
      then filter (reference_available st) (imageModelsByEngine lower (md_image (w_models st)) engine)
      else imageModelsByEngine lower (md_image (w_models st)) engine)"

definition models_effect :: "unicode_map \<Rightarrow> ws_state \<Rightarrow> ws_state" where
  "models_effect lower st = st\<lparr>w_selectedImageModels := (\<lambda>engine.
     (let candidates = compatibleImageModels lower st engine;
          preferred = (case get_prop (lit ''default_image_model'') (w_preference st) of
            JStr m \<Rightarrow> if m \<in> set candidates then m else [] | _ \<Rightarrow> [])
      in if w_selectedImageModels st engine \<in> set candidates then w_selectedImageModels st engine
         else if preferred \<noteq> [] then preferred
         else case candidates of m # _ \<Rightarrow> m | [] \<Rightarrow> []))\<rparr>"

definition selectedImageModel :: "ws_state \<Rightarrow> jstring" where
  "selectedImageModel st = w_selectedImageModels st (w_imageEngine st)"

definition selectedImageModelAvailable :: "unicode_map \<Rightarrow> ws_state \<Rightarrow> bool" where
  "selectedImageModelAvailable lower st \<longleftrightarrow>
     selectedImageModel st \<in> set (imageModelsByEngine lower (md_image (w_models st)) (w_imageEngine st)) \<and>
     (w_imageReferences st = [] \<or> reference_available st (selectedImageModel st))"

definition changeImageEngine :: "unicode_map \<Rightarrow> image_engine \<Rightarrow> ws_state \<Rightarrow> ws_state" where
  "changeImageEngine lower engine st = (case compatibleImageModels lower st engine of
       [] \<Rightarrow> st
     | m # ms \<Rightarrow>
         (let st1 = st\<lparr>w_imageEngine := engine\<rparr>
          in if w_selectedImageModels st engine \<in> set (m # ms) then st1
             else st1\<lparr>w_selectedImageModels := (w_selectedImageModels st)(engine := m)\<rparr>))"

section \<open>Default models\<close>

definition updateDefault :: "jstring \<Rightarrow> ws_state \<Rightarrow> ws_state" where
  "updateDefault field st =
     (if field \<in> set (w_preferenceUpdates st) then st
      else snd (start_request (P_default field)
        (st\<lparr>w_preferenceUpdates := field # w_preferenceUpdates st, w_savingDefaults := (w_savingDefaults st)(field := True)\<rparr>)))"

definition default_reply :: "nat \<Rightarrow> jstring \<Rightarrow> req_error + jsv \<Rightarrow> ws_state \<Rightarrow> ws_state" where
  "default_reply n field r st0 =
     (let st = end_request n st0;
          st1 = (case r of
            Inr d \<Rightarrow> if w_mounted st then st\<lparr>w_preference := spread (w_preference st) [(field, get_prop field d)]\<rparr> else st
          | Inl e \<Rightarrow> if w_mounted st then ws_emit (Show_error FB_default (requestError e)) st else st);
          st2 = st1\<lparr>w_preferenceUpdates := removeAll field (w_preferenceUpdates st1)\<rparr>
      in if w_mounted st2 then st2\<lparr>w_savingDefaults := (w_savingDefaults st2)(field := False)\<rparr> else st2)"

section \<open>Attachments and reference images\<close>

definition addAttachments :: "ws_file list \<Rightarrow> ws_state \<Rightarrow> ws_state" where
  "addAttachments files st =
     (if w_readingRef st \<or> w_agentRequest st \<noteq> None \<or> w_sessionRequest st \<noteq> None \<or> files = [] then st
      else if length (w_attachments st) + length files > maxAgentAttachments then ws_emit (Limit_error Too_many_attachments) st
      else if sum_list (map at_size (w_attachments st)) + sum_list (map f_size files) > maxAgentAttachmentTotalBytes
      then ws_emit (Limit_error Attachments_too_large) st
      else
        (let epoch = w_attachmentReadEpoch st + 1
         in snd (start_request (P_attachments (w_projectId st) epoch files)
              (st\<lparr>w_attachmentReadEpoch := epoch, w_readingRef := True, w_readingAttachments := True\<rparr>))))"

text \<open>
  \<^verbatim>\<open>Promise.all(files.map(readAgentAttachment))\<close>: \<open>reads\<close> gives, for each file, the new id and what the
  reader returns; of several failures the first in the list counts.
\<close>

fun read_all :: "unicode_map \<Rightarrow> ws_file list \<Rightarrow> (jstring \<times> jstring option) list \<Rightarrow> file_error + attachment list" where
  "read_all lower [] reads = Inr []"
| "read_all lower (f # fs) reads =
     (let r = (case reads of x # _ \<Rightarrow> x | [] \<Rightarrow> ([], None))
      in case readAgentAttachment lower (fst r) (snd r) f of
           Inl e \<Rightarrow> Inl e
         | Inr a \<Rightarrow> (case read_all lower fs (tl reads) of Inl e \<Rightarrow> Inl e | Inr as \<Rightarrow> Inr (a # as)))"

definition attachments_reply :: "unicode_map \<Rightarrow> nat \<Rightarrow> jstring \<Rightarrow> nat \<Rightarrow> ws_file list \<Rightarrow>
    (jstring \<times> jstring option) list \<Rightarrow> ws_state \<Rightarrow> ws_state" where
  "attachments_reply lower n pid epoch files reads st0 =
     (let st = end_request n st0;
          current = (same_project pid st \<and> w_attachmentReadEpoch st = epoch);
          st1 = (case read_all lower files reads of
            Inr as \<Rightarrow> if current then st\<lparr>w_attachments := w_attachments st @ as\<rparr> else st
          | Inl e \<Rightarrow> if current then ws_emit (File_failed e) st else st)
      in if w_attachmentReadEpoch st1 = epoch
         then (if w_mounted st1 then st1\<lparr>w_readingRef := False, w_readingAttachments := False\<rparr>
               else st1\<lparr>w_readingRef := False\<rparr>)
         else st1)"

definition removeAttachment :: "jstring \<Rightarrow> ws_state \<Rightarrow> ws_state" where
  "removeAttachment aid st = st\<lparr>w_attachments := filter (\<lambda>a. at_id a \<noteq> aid) (w_attachments st)\<rparr>"

text \<open>The references made before a failure are released again.\<close>

fun make_references :: "unicode_map \<Rightarrow> (ws_file \<times> jstring \<times> jstring) list \<Rightarrow> image_reference list \<Rightarrow>
    (file_error \<times> image_reference list) + image_reference list" where
  "make_references lower [] acc = Inr acc"
| "make_references lower ((file, uuid, url) # fs) acc = (case createImageReference lower uuid url file of
       Inl e \<Rightarrow> Inl (e, acc)
     | Inr r \<Rightarrow> make_references lower fs (acc @ [r]))"

definition addImageReferences :: "unicode_map \<Rightarrow> (ws_file \<times> jstring \<times> jstring) list \<Rightarrow> ws_state \<Rightarrow> ws_state" where
  "addImageReferences lower files st =
     (if w_imageCreateRequest st \<noteq> None \<or> w_sessionRequest st \<noteq> None \<or> files = [] then st
      else if length (w_imageReferences st) + length files > maxImageReferences then ws_emit (Limit_error Too_many_references) st
      else if sum_list (map ref_size (w_imageReferences st)) + sum_list (map (f_size \<circ> fst) files) > maxImageReferenceTotalBytes
      then ws_emit (Limit_error References_too_large) st
      else case make_references lower files [] of
        Inl (e, made) \<Rightarrow> ws_emit (File_failed e) (ws_emits (concat (map releaseImageReference made)) st)
      | Inr nxt \<Rightarrow>
          (let st1 = st\<lparr>w_imageReferences := w_imageReferences st @ nxt\<rparr>;
               capable = filter (reference_available st) (imageModelsByEngine lower (md_image (w_models st)) (w_imageEngine st))
           in if reference_available st (selectedImageModel st) then st1
              else case capable of
                [] \<Rightarrow> st1
              | m # _ \<Rightarrow> ws_emit (Show_success (S_switched_model m))
                  (st1\<lparr>w_selectedImageModels := (w_selectedImageModels st1)(w_imageEngine st := m)\<rparr>)))"

definition removeImageReference :: "jstring \<Rightarrow> ws_state \<Rightarrow> ws_state" where
  "removeImageReference rid st =
     (if w_imageCreateRequest st \<noteq> None \<or> w_sessionRequest st \<noteq> None then st
      else
        (ws_emits (case List.find (\<lambda>r. ref_id r = rid) (w_imageReferences st) of
             Some r \<Rightarrow> releaseImageReference r | None \<Rightarrow> []) st)
        \<lparr>w_imageReferences := filter (\<lambda>r. ref_id r \<noteq> rid) (w_imageReferences st)\<rparr>)"

section \<open>Session metadata\<close>

definition refreshAgentSessionMetadata :: "jstring \<Rightarrow> jstring \<Rightarrow> ws_state \<Rightarrow> ws_state" where
  "refreshAgentSessionMetadata pid sid st0 =
     (case start_request (P_metadata pid sid) (ws_emits (abort_opt (w_sessionMetadataRequest st0)) st0) of
        (n, st) \<Rightarrow> st\<lparr>w_sessionMetadataRequest := Some n\<rparr>)"

definition metadata_reply :: "nat \<Rightarrow> jstring \<Rightarrow> jstring \<Rightarrow> reply \<Rightarrow> ws_state \<Rightarrow> ws_state" where
  "metadata_reply n pid sid r st0 =
     (let st = end_request n st0;
          st1 = (case settle_answer session_failed_text r of
            Inl e \<Rightarrow> st
          | Inr auth \<Rightarrow>
              if same_project pid st \<and> w_activeSessionIdRef st = sid \<and> w_sessionMetadataRequest st = Some n
              then update_workspace (\<lambda>cur. mergeAuthoritativeSessionMetadata cur auth pid sid) st else st)
      in if w_sessionMetadataRequest st1 = Some n then st1\<lparr>w_sessionMetadataRequest := None\<rparr> else st1)"

end
