(* ===== verification/Workspace_Actions.thy ===== *)
theory Workspace_Actions
  imports Workspace_State
begin

text \<open>
  The workspace machine, continued: sending a message and following its stream, image generations
  with their polling, and the results panel. Then the events of the machine.
\<close>

section \<open>Messages\<close>

definition skillEnabled :: "ws_state \<Rightarrow> bool" where
  "skillEnabled st = (case parseEnabledSkills (get_prop (lit ''enabled_skills'') (w_preference st)) of
       JArr xs \<Rightarrow> JStr (w_currentSkill st) \<in> set xs
     | JStr s \<Rightarrow> includes_str s (w_currentSkill st)
     | _ \<Rightarrow> False)"

definition user_message_id :: "jstring \<Rightarrow> jsv" where
  "user_message_id key = JStr (lit ''stream-user-'' @ key)"

definition assistant_message_id :: "jstring \<Rightarrow> jsv" where
  "assistant_message_id key = JStr (lit ''stream-assistant-'' @ key)"

text \<open>The two messages that stand for the request until it completes.\<close>

definition user_placeholder :: "jstring \<Rightarrow> jstring \<Rightarrow> jstring \<Rightarrow> jstring \<Rightarrow> jsnum \<Rightarrow> jsv" where
  "user_placeholder key sid content skill now = JObj
     [(lit ''id'', user_message_id key), (lit ''role'', JStr (lit ''user'')), (lit ''session_id'', JStr sid),
      (lit ''content'', JStr content), (lit ''skill'', JStr skill), (lit ''created_at'', JNum now)]"

definition assistant_placeholder :: "jstring \<Rightarrow> jstring \<Rightarrow> jstring \<Rightarrow> jsnum \<Rightarrow> jsv" where
  "assistant_placeholder key sid skill now = JObj
     [(lit ''id'', assistant_message_id key), (lit ''role'', JStr (lit ''assistant'')), (lit ''session_id'', JStr sid),
      (lit ''content'', JStr []), (lit ''skill'', JStr skill), (lit ''streaming'', JBool True), (lit ''created_at'', JNum now)]"

text \<open>Messages are an array, or absent; an updater throws on anything else and on a \<^verbatim>\<open>null\<close> in the array.\<close>

definition append_messages :: "jstring \<Rightarrow> jsv list \<Rightarrow> jsv \<Rightarrow> jsv option" where
  "append_messages sid ms ws =
     (if active_session_of ws = JStr sid then
        (case or_else (get_prop (lit ''messages'') ws) (JArr []) of
           JArr xs \<Rightarrow> Some (spread ws [(lit ''messages'', JArr (xs @ ms))])
         | _ \<Rightarrow> None)
      else Some ws)"

definition change_messages :: "jstring \<Rightarrow> (jsv list \<Rightarrow> jsv list) \<Rightarrow> jsv \<Rightarrow> jsv option" where
  "change_messages sid f ws =
     (if active_session_of ws = JStr sid then
        (case get_prop (lit ''messages'') ws of
           JArr xs \<Rightarrow> if JNull \<in> set xs then None else Some (spread ws [(lit ''messages'', JArr (f xs))])
         | _ \<Rightarrow> None)
      else Some ws)"

abbreviation item_id :: "jsv \<Rightarrow> jsv" where
  "item_id v \<equiv> get_prop (lit ''id'') v"

definition sendMessage :: "jstring \<Rightarrow> jsnum \<Rightarrow> ws_state \<Rightarrow> ws_state" where
  "sendMessage key now st =
     (let content = trim (w_message st); sid = w_activeSessionIdRef st in
      if (content = [] \<and> w_attachments st = []) \<or> sid = [] \<or> \<not> skillEnabled st \<or> w_readingRef st \<or>
         w_agentRequest st \<noteq> None \<or> w_imageCreateRequest st \<noteq> None \<or> w_sessionRequest st \<noteq> None \<or>
         lit ''default_chat_model'' \<in> set (w_preferenceUpdates st)
      then st
      else
        (case start_request (P_agent (w_projectId st) sid key content (w_attachments st)) st of (n, st1) \<Rightarrow>
           update_workspace (append_messages sid
               [user_placeholder key sid (agentAttachmentDisplayContent content (w_attachments st)) (w_currentSkill st) now,
                assistant_placeholder key sid (w_currentSkill st) now])
             (st1\<lparr>w_agentRequest := Some n, w_sending := True, w_message := [], w_attachments := []\<rparr>)))"

definition agent_payload :: "jstring \<Rightarrow> jstring \<Rightarrow> attachment list \<Rightarrow> ws_state \<Rightarrow> jsv" where
  "agent_payload content sid as st = JObj
     [(lit ''content'', JStr content), (lit ''session_id'', JStr sid), (lit ''skill'', JStr (w_currentSkill st)),
      (lit ''model_id'', get_prop (lit ''default_chat_model'') (w_preference st)), (lit ''attachments'', agentAttachmentPayload as)]"

definition other_session_text :: jstring where
  "other_session_text = [25910, 21040, 20102, 20854, 20182, 20250, 35805, 30340, 21709, 24212, 65292, 35831, 37325, 35797]"

definition no_session_text :: jstring where
  "no_session_text = lit ''Agent '' @ [21709, 24212, 32570, 23569, 20250, 35805, 26631, 35782, 65292, 35831, 37325, 35797]"

definition bad_completion_text :: jstring where
  "bad_completion_text = lit ''Agent '' @ [23436, 25104, 21709, 24212, 19981, 21305, 37197, 65292, 35831, 37325, 35797]"

text \<open>The checks of \<^verbatim>\<open>onEvent\<close>: the error it throws on an event.\<close>

definition onEvent_error :: "jstring \<Rightarrow> jstring \<Rightarrow> agent_event \<Rightarrow> stream_error option" where
  "onEvent_error pid sid ev =
     (let d = ev_data ev; s = get_prop (lit ''session_id'') d;
          um = get_prop (lit ''user_message'') d; am = get_prop (lit ''message'') d in
      if d = JNull then Some (Callback_error null_read_text)
      else if s \<noteq> JUndef \<and> s \<noteq> JStr sid then Some (Callback_error other_session_text)
      else if ev_type ev \<in> {lit ''started'', lit ''completed''} \<and> \<not> truthy s then Some (Callback_error no_session_text)
      else if ev_type ev = lit ''completed'' \<and>
        (get_prop (lit ''project_id'') um \<noteq> JStr pid \<or> get_prop (lit ''project_id'') am \<noteq> JStr pid \<or>
         get_prop (lit ''session_id'') um \<noteq> JStr sid \<or> get_prop (lit ''session_id'') am \<noteq> JStr sid \<or>
         \<not> is_finite (js_number (get_prop (lit ''created_at'') am)))
      then Some (Callback_error bad_completion_text)
      else None)"

definition text_append :: "jsv \<Rightarrow> jsv \<Rightarrow> jsv" where
  "text_append a b = JStr (js_string a @ js_string b)"

text \<open>What an accepted event does to the messages.\<close>

definition event_messages :: "jstring \<Rightarrow> agent_event \<Rightarrow> jsv list \<Rightarrow> jsv list" where
  "event_messages key ev xs =
     (let d = ev_data ev; upd = (\<lambda>f. map (\<lambda>i. if item_id i = assistant_message_id key then f i else i) xs) in
      if ev_type ev = lit ''started'' then upd (\<lambda>i. spread i [(lit ''reasoning'', JStr [])])
      else if ev_type ev = lit ''delta''
      then upd (\<lambda>i. spread i [(lit ''content'', text_append (get_prop (lit ''content'') i) (get_prop (lit ''text'') d))])
      else if ev_type ev = lit ''reasoning_delta''
      then upd (\<lambda>i. spread i [(lit ''reasoning'',
        text_append (or_else (get_prop (lit ''reasoning'') i) (JStr [])) (get_prop (lit ''text'') d))])
      else map (\<lambda>i. if item_id i = user_message_id key then get_prop (lit ''user_message'') d
        else if item_id i = assistant_message_id key then get_prop (lit ''message'') d else i) xs)"

definition event_handled :: "agent_event \<Rightarrow> bool" where
  "event_handled ev \<longleftrightarrow>
     (ev_type ev = lit ''started'' \<and> get_prop (lit ''reasoning_requested'') (ev_data ev) = JBool True) \<or>
     ev_type ev \<in> {lit ''delta'', lit ''reasoning_delta'', lit ''completed''}"

definition own_agent :: "nat \<Rightarrow> jstring \<Rightarrow> jstring \<Rightarrow> ws_state \<Rightarrow> bool" where
  "own_agent n pid sid st \<longleftrightarrow> same_project pid st \<and> w_activeSessionIdRef st = sid \<and> w_agentRequest st = Some n"

definition agent_event :: "nat \<Rightarrow> jstring \<Rightarrow> jstring \<Rightarrow> jstring \<Rightarrow> agent_event \<Rightarrow> ws_state \<Rightarrow> ws_state" where
  "agent_event n pid sid key ev st =
     (if onEvent_error pid sid ev \<noteq> None \<or> \<not> own_agent n pid sid st \<or> \<not> event_handled ev then st
      else
        (let st1 = update_workspace (change_messages sid (event_messages key ev)) st
         in if ev_type ev = lit ''completed'' then refreshAgentSessionMetadata pid sid st1 else st1))"

text \<open>The end of the stream, with the error it threw; \<open>aborted\<close> for an \<^verbatim>\<open>AbortError\<close>.\<close>

definition agent_end :: "nat \<Rightarrow> jstring \<Rightarrow> jstring \<Rightarrow> jstring \<Rightarrow> jstring \<Rightarrow> attachment list \<Rightarrow> jstring option \<Rightarrow> bool \<Rightarrow> ws_state \<Rightarrow> ws_state" where
  "agent_end n pid sid key content as failed aborted st0 =
     (let st = end_request n st0;
          st1 = (case failed of
            Some msg \<Rightarrow>
              if own_agent n pid sid st \<and> \<not> aborted then
                ws_emit (Show_error FB_agent (if msg \<noteq> [] then Some msg else None))
                  ((update_workspace (change_messages sid
                      (filter (\<lambda>i. item_id i \<noteq> user_message_id key \<and> item_id i \<noteq> assistant_message_id key))) st)
                   \<lparr>w_message := content, w_attachments := as\<rparr>)
              else st
          | None \<Rightarrow> st)
      in if w_agentRequest st1 = Some n
         then (if w_mounted st1 then st1\<lparr>w_agentRequest := None, w_sending := False\<rparr> else st1\<lparr>w_agentRequest := None\<rparr>)
         else st1)"

section \<open>Image generations\<close>

definition updateGeneration :: "jsv \<Rightarrow> jstring \<Rightarrow> jstring \<Rightarrow> ws_state \<Rightarrow> ws_state" where
  "updateGeneration g pid sid st = update_workspace (\<lambda>ws.
     if project_id_of ws \<noteq> JStr pid \<or> active_session_of ws \<noteq> JStr sid then Some ws
     else case or_else (get_prop (lit ''image_generations'') ws) (JArr []) of
       JArr gs \<Rightarrow>
         if JNull \<in> set gs then None
         else Some (spread ws [(lit ''image_generations'', JArr
           (if item_id g \<in> item_id ` set gs then map (\<lambda>i. if item_id i = item_id g then g else i) gs else gs @ [g]))])
     | _ \<Rightarrow> None) st"

definition generation_key :: "jstring \<Rightarrow> jsv \<Rightarrow> jstring" where
  "generation_key sid gid = sid @ [58] @ js_string gid"

definition maxAttempts :: nat where
  "maxAttempts = 300"

definition poll_effect_step :: "jsv \<Rightarrow> ws_state \<Rightarrow> ws_state" where
  "poll_effect_step g st =
     (let key = generation_key (activeSessionId st) (item_id g) in
      if \<not> generation_busy g \<or> key \<in> fst ` set (w_generationRequests st) then st
      else case start_request (P_poll (w_projectId st) (activeSessionId st) (item_id g) 0 None) st of
        (n, st1) \<Rightarrow> st1\<lparr>w_generationRequests := obj_set key n (w_generationRequests st1)\<rparr>)"

definition poll_effect :: "ws_state \<Rightarrow> ws_state" where
  "poll_effect st = (if activeSessionId st = [] then st else foldl (\<lambda>s g. poll_effect_step g s) st (projectGenerations st))"

definition own_session_scope :: "jstring \<Rightarrow> jstring \<Rightarrow> ws_state \<Rightarrow> bool" where
  "own_session_scope pid sid st \<longleftrightarrow> same_project pid st \<and> w_activeSessionIdRef st = sid"

text \<open>The end of the polling of a generation: \<open>Inl\<close> the error it threw, \<open>Inr\<close> the last state of the generation.\<close>

definition poll_end :: "nat \<Rightarrow> jstring \<Rightarrow> jstring \<Rightarrow> jsv \<Rightarrow> req_error + jsv \<Rightarrow> ws_state \<Rightarrow> ws_state" where
  "poll_end n pid sid gid r st0 =
     (let st = end_request n st0;
          st1 = (case r of
            Inr g \<Rightarrow>
              if get_prop (lit ''status'') g = JStr (lit ''succeeded'') \<and> own_session_scope pid sid st
              then ws_emit (Show_success S_generated) st else st
          | Inl e \<Rightarrow>
              if own_session_scope pid sid st \<and> re_code e \<noteq> ERR_CANCELED
              then ws_emit (Show_error FB_poll (requestError e)) st else st);
          key = generation_key sid gid
      in if map_of (w_generationRequests st1) key = Some n
         then st1\<lparr>w_generationRequests := obj_delete key (w_generationRequests st1)\<rparr> else st1)"

definition poll_again :: "nat \<Rightarrow> jstring \<Rightarrow> jstring \<Rightarrow> jsv \<Rightarrow> nat \<Rightarrow> req_error option \<Rightarrow> ws_state \<Rightarrow> ws_state" where
  "poll_again n pid sid gid attempt err st =
     (if attempt + 1 < maxAttempts
      then st\<lparr>w_pending := map (\<lambda>p. if fst p = n then (n, P_poll pid sid gid (attempt + 1) err) else p) (w_pending st)\<rparr>
      else poll_end n pid sid gid (Inl (case err of Some e \<Rightarrow> e | None \<Rightarrow> internal_error poll_text)) st)"

definition poll_reply :: "nat \<Rightarrow> jstring \<Rightarrow> jstring \<Rightarrow> jsv \<Rightarrow> nat \<Rightarrow> req_error option \<Rightarrow> reply \<Rightarrow> ws_state \<Rightarrow> ws_state" where
  "poll_reply n pid sid gid attempt err r st = (case settle_answer image_failed_text r of
       Inl e \<Rightarrow>
         if re_code e = ERR_CANCELED \<or> (case re_status e of Some s \<Rightarrow> s \<noteq> 0 \<and> s < 500 | None \<Rightarrow> False)
         then poll_end n pid sid gid (Inl e) st
         else poll_again n pid sid gid attempt (Some e) st
     | Inr g \<Rightarrow>
         if \<not> generationMatchesScope g pid sid then poll_end n pid sid gid (Inl (internal_error generation_scope_text)) st
         else
           (let st1 = updateGeneration g pid sid st
            in if get_prop (lit ''status'') g \<in> {JStr (lit ''succeeded''), JStr (lit ''failed'')}
               then poll_end n pid sid gid (Inr g) st1
               else poll_again n pid sid gid attempt err st1))"

definition submitImageGeneration :: "unicode_map \<Rightarrow> ws_state \<Rightarrow> ws_state" where
  "submitImageGeneration lower st =
     (if trim (w_imagePrompt st) = [] \<or> w_activeSessionIdRef st = [] \<or> \<not> selectedImageModelAvailable lower st \<or>
         w_imageSubmitting st \<or> w_agentRequest st \<noteq> None \<or> w_sessionRequest st \<noteq> None \<or> w_imageCreateRequest st \<noteq> None
      then st
      else case start_request (P_image (w_projectId st) (w_activeSessionIdRef st) (w_imageReferences st)) st of
        (n, st1) \<Rightarrow> st1\<lparr>w_imageCreateRequest := Some n, w_imageSubmitting := True\<rparr>)"

definition image_failed :: "jstring \<Rightarrow> jstring \<Rightarrow> req_error \<Rightarrow> ws_state \<Rightarrow> ws_state" where
  "image_failed pid sid e st =
     (if own_session_scope pid sid st \<and> re_code e \<noteq> ERR_CANCELED then ws_emit (Show_error FB_image (requestError e)) st else st)"

definition image_reply :: "nat \<Rightarrow> jstring \<Rightarrow> jstring \<Rightarrow> image_reference list \<Rightarrow> reply \<Rightarrow> ws_state \<Rightarrow> ws_state" where
  "image_reply n pid sid refs r st0 =
     (let st = end_request n st0;
          st1 = (case settle_answer image_failed_text r of
            Inl e \<Rightarrow> image_failed pid sid e st
          | Inr g \<Rightarrow>
              if own_session_scope pid sid st \<and> w_imageCreateRequest st = Some n then
                (if \<not> generationMatchesScope g pid sid then image_failed pid sid (internal_error generation_scope_text) st
                 else
                   (let st2 = refreshAgentSessionMetadata pid sid (updateGeneration g pid sid st);
                        st3 = ws_emits (concat (map releaseImageReference refs))
                          (st2\<lparr>w_selectedGenerationId := item_id g, w_resultsOpen := True, w_imagePrompt := []\<rparr>)
                    in ws_emit (Show_success S_submitted)
                         (st3\<lparr>w_imageReferences := filter (\<lambda>x. ref_id x \<notin> ref_id ` set refs) (w_imageReferences st3)\<rparr>)))
              else st)
      in if w_imageCreateRequest st1 = Some n
         then (if w_mounted st1 then st1\<lparr>w_imageCreateRequest := None, w_imageSubmitting := False\<rparr>
               else st1\<lparr>w_imageCreateRequest := None\<rparr>)
         else st1)"

definition regenerateGeneration :: "jsv \<Rightarrow> ws_state \<Rightarrow> ws_state" where
  "regenerateGeneration gid st =
     (let sid = w_activeSessionIdRef st; key = generation_key sid gid in
      if sid = [] \<or> w_sessionRequest st \<noteq> None \<or> key \<in> fst ` set (w_generationActionRequests st) then st
      else case start_request (P_regenerate (w_projectId st) sid gid) st of
        (n, st1) \<Rightarrow> st1\<lparr>w_generationActionRequests := obj_set key n (w_generationActionRequests st1),
          w_regeneratingIds := (if gid \<in> set (w_regeneratingIds st1) then w_regeneratingIds st1 else w_regeneratingIds st1 @ [gid])\<rparr>)"

definition own_action :: "nat \<Rightarrow> jstring \<Rightarrow> jstring \<Rightarrow> jsv \<Rightarrow> ws_state \<Rightarrow> bool" where
  "own_action n pid sid gid st \<longleftrightarrow> own_session_scope pid sid st \<and>
     map_of (w_generationActionRequests st) (generation_key sid gid) = Some n"

definition regenerate_failed :: "nat \<Rightarrow> jstring \<Rightarrow> jstring \<Rightarrow> jsv \<Rightarrow> req_error \<Rightarrow> ws_state \<Rightarrow> ws_state" where
  "regenerate_failed n pid sid gid e st =
     (if own_action n pid sid gid st \<and> re_code e \<noteq> ERR_CANCELED then ws_emit (Show_error FB_regenerate (requestError e)) st else st)"

definition regenerate_reply :: "nat \<Rightarrow> jstring \<Rightarrow> jstring \<Rightarrow> jsv \<Rightarrow> reply \<Rightarrow> ws_state \<Rightarrow> ws_state" where
  "regenerate_reply n pid sid gid r st0 =
     (let st = end_request n st0; key = generation_key sid gid;
          st1 = (case settle_answer image_failed_text r of
            Inl e \<Rightarrow> regenerate_failed n pid sid gid e st
          | Inr g \<Rightarrow>
              if own_action n pid sid gid st then
                (if \<not> generationMatchesScope g pid sid then regenerate_failed n pid sid gid (internal_error generation_scope_text) st
                 else ws_emit (Show_success S_regenerated)
                   ((refreshAgentSessionMetadata pid sid (updateGeneration g pid sid st))
                    \<lparr>w_selectedGenerationId := item_id g, w_resultsOpen := True\<rparr>))
              else st)
      in if map_of (w_generationActionRequests st1) key = Some n then
           (let st2 = st1\<lparr>w_generationActionRequests := obj_delete key (w_generationActionRequests st1)\<rparr>
            in if w_mounted st2 then st2\<lparr>w_regeneratingIds := removeAll gid (w_regeneratingIds st2)\<rparr> else st2)
         else st1)"

section \<open>Selection and results panel\<close>

text \<open>The latest generation: the first of those with the greatest time.\<close>

definition latest_generation :: "jsv list \<Rightarrow> jsv" where
  "latest_generation gs = (case foldl (\<lambda>acc g.
       (let t = number_or_zero (get_prop (lit ''created_at'') g)
        in case acc of None \<Rightarrow> Some (item_id g, t)
           | Some (_, t') \<Rightarrow> if num_less t' t then Some (item_id g, t) else acc)) None gs of
       Some (i, _) \<Rightarrow> nullish i JNull | None \<Rightarrow> JNull)"

definition selection_effect :: "ws_state \<Rightarrow> ws_state" where
  "selection_effect st =
     (let cur = w_selectedGenerationId st; gs = projectGenerations st in
      if activeSessionId st = [] \<or> cur = JStr [] then st
      else if cur \<noteq> JNull \<and> list_ex (\<lambda>g. js_string (item_id g) = js_string cur) gs then st
      else st\<lparr>w_selectedGenerationId := latest_generation gs\<rparr>)"

definition closeResults :: "ws_state \<Rightarrow> ws_state" where
  "closeResults st = st\<lparr>w_resultsOpen := False\<rparr>"

definition toggleResults :: "ws_state \<Rightarrow> ws_state" where
  "toggleResults st = (if w_resultsOpen st then closeResults st else st\<lparr>w_resultsOpen := True\<rparr>)"

section \<open>Events\<close>

datatype ws_event =
    Navigate jstring jstring | Url_changed jstring | Unmount | Breakpoint bool
  | Url_effect | Selection_effect | Models_effect | Poll_effect
  | Request_switch jstring | Request_new | Request_clear | Confirm_ok | Confirm_cancel
  | Type_message jstring | Type_prompt jstring | Set_mode creation_mode | Set_skill jstring | Set_aspect jstring
  | Set_engine image_engine | Set_image_model jstring | Update_default jstring
  | Add_attachments "ws_file list" | Remove_attachment jstring
  | Add_references "(ws_file \<times> jstring \<times> jstring) list" | Remove_reference jstring
  | Send jstring jsnum | Submit_image | Regenerate jsv
  | Select_generation jsv | Close_results | Toggle_results
  | Load_reply nat load_result | Reply nat reply | Default_reply nat "req_error + jsv"
  | Attachments_reply nat "(jstring \<times> jstring option) list"
  | Stream_event nat agent_event | Stream_end nat "jstring option" bool

text \<open>The answer to request \<open>n\<close> goes to the continuation that waits for it.\<close>

definition ws_reply :: "nat \<Rightarrow> reply \<Rightarrow> ws_state \<Rightarrow> ws_state" where
  "ws_reply n r st = (case map_of (w_pending st) n of
       Some (P_switch pid sid url) \<Rightarrow> switch_reply n pid sid url r st
     | Some (P_create pid) \<Rightarrow> create_reply n pid r st
     | Some (P_clear pid sid) \<Rightarrow> clear_reply n pid sid r st
     | Some (P_metadata pid sid) \<Rightarrow> metadata_reply n pid sid r st
     | Some (P_image pid sid refs) \<Rightarrow> image_reply n pid sid refs r st
     | Some (P_regenerate pid sid gid) \<Rightarrow> regenerate_reply n pid sid gid r st
     | Some (P_poll pid sid gid attempt err) \<Rightarrow> poll_reply n pid sid gid attempt err r st
     | _ \<Rightarrow> st)"

fun ws_handle :: "unicode_map \<Rightarrow> ws_event \<Rightarrow> ws_state \<Rightarrow> ws_state" where
  "ws_handle lower (Navigate pid sid) st = load_start (project_effect (st\<lparr>w_projectId := pid, w_requestedSessionId := sid\<rparr>))"
| "ws_handle lower (Url_changed sid) st = st\<lparr>w_requestedSessionId := sid\<rparr>"
| "ws_handle lower Unmount st = unmount st"
| "ws_handle lower (Breakpoint b) st = breakpoint_change b st"
| "ws_handle lower Url_effect st = url_effect st"
| "ws_handle lower Selection_effect st = selection_effect st"
| "ws_handle lower Models_effect st = models_effect lower st"
| "ws_handle lower Poll_effect st = poll_effect st"
| "ws_handle lower (Request_switch sid) st = requestSessionSwitch sid st"
| "ws_handle lower Request_new st = requestNewSession st"
| "ws_handle lower Request_clear st = requestClearSession st"
| "ws_handle lower Confirm_ok st = confirm_ok st"
| "ws_handle lower Confirm_cancel st = confirm_cancel st"
| "ws_handle lower (Type_message s) st = st\<lparr>w_message := s\<rparr>"
| "ws_handle lower (Type_prompt s) st = st\<lparr>w_imagePrompt := s\<rparr>"
| "ws_handle lower (Set_mode m) st = st\<lparr>w_creationMode := m\<rparr>"
| "ws_handle lower (Set_skill s) st = st\<lparr>w_currentSkill := s\<rparr>"
| "ws_handle lower (Set_aspect s) st = st\<lparr>w_imageAspectRatio := s\<rparr>"
| "ws_handle lower (Set_engine e) st = changeImageEngine lower e st"
| "ws_handle lower (Set_image_model m) st = updateDefault (lit ''default_image_model'')
     (st\<lparr>w_selectedImageModels := (w_selectedImageModels st)(w_imageEngine st := m)\<rparr>)"
| "ws_handle lower (Update_default f) st = updateDefault f st"
| "ws_handle lower (Add_attachments fs) st = addAttachments fs st"
| "ws_handle lower (Remove_attachment i) st = removeAttachment i st"
| "ws_handle lower (Add_references fs) st = addImageReferences lower fs st"
| "ws_handle lower (Remove_reference i) st = removeImageReference i st"
| "ws_handle lower (Send key now) st = sendMessage key now st"
| "ws_handle lower Submit_image st = submitImageGeneration lower st"
| "ws_handle lower (Regenerate gid) st = regenerateGeneration gid st"
| "ws_handle lower (Select_generation gid) st = st\<lparr>w_selectedGenerationId := gid\<rparr>"
| "ws_handle lower Close_results st = closeResults st"
| "ws_handle lower Toggle_results st = toggleResults st"
| "ws_handle lower (Load_reply n r) st = (case map_of (w_pending st) n of
       Some (P_load pid initial) \<Rightarrow> load_reply n pid initial r st | _ \<Rightarrow> st)"
| "ws_handle lower (Reply n r) st = ws_reply n r st"
| "ws_handle lower (Default_reply n r) st = (case map_of (w_pending st) n of
       Some (P_default f) \<Rightarrow> default_reply n f r st | _ \<Rightarrow> st)"
| "ws_handle lower (Attachments_reply n r) st = (case map_of (w_pending st) n of
       Some (P_attachments pid epoch files) \<Rightarrow> attachments_reply lower n pid epoch files r st | _ \<Rightarrow> st)"
| "ws_handle lower (Stream_event n ev) st = (case map_of (w_pending st) n of
       Some (P_agent pid sid key content as) \<Rightarrow> agent_event n pid sid key ev st | _ \<Rightarrow> st)"
| "ws_handle lower (Stream_end n failed aborted) st = (case map_of (w_pending st) n of
       Some (P_agent pid sid key content as) \<Rightarrow> agent_end n pid sid key content as failed aborted st | _ \<Rightarrow> st)"

definition ws_step :: "unicode_map \<Rightarrow> ws_event \<Rightarrow> ws_state \<Rightarrow> ws_state" where
  "ws_step lower e st = render (ws_handle lower e st)"

definition ws_initial :: "jstring \<Rightarrow> jstring \<Rightarrow> bool \<Rightarrow> ws_state" where
  "ws_initial pid sid isCompact = \<lparr>w_projectId = pid, w_requestedSessionId = sid, w_workspace = JNull, w_crashed = False,
     w_preference = JNull, w_models = \<lparr>md_chat = [], md_image = [], md_items = []\<rparr>, w_creationMode = Mode_chat,
     w_currentSkill = first_skill, w_compactWorkspace = isCompact, w_resultsOpen = (\<not> isCompact),
     w_selectedGenerationId = JNull, w_message = [], w_attachments = [], w_imagePrompt = [], w_imageEngine = Nano,
     w_imageAspectRatio = lit ''9:16'', w_imageReferences = [], w_selectedImageModels = (\<lambda>_. []), w_loading = True,
     w_sending = False, w_imageSubmitting = False, w_regeneratingIds = [], w_readingAttachments = False,
     w_savingDefaults = (\<lambda>_. False), w_sessionChanging = None, w_mounted = True, w_generationRequests = [],
     w_generationActionRequests = [], w_imageCreateRequest = None, w_agentRequest = None, w_sessionRequest = None,
     w_sessionMetadataRequest = None, w_sessionConfirm = None, w_pendingUrlSession = [], w_readingRef = False,
     w_attachmentReadEpoch = 0, w_preferenceUpdates = [], w_activeSessionIdRef = [], w_next = 0, w_pending = [], w_out = []\<rparr>"

text \<open>The mounted page: the effects of the first render start the load.\<close>

definition ws_mount :: "jstring \<Rightarrow> jstring \<Rightarrow> bool \<Rightarrow> ws_state" where
  "ws_mount pid sid isCompact = render (load_start (project_effect (ws_initial pid sid isCompact)))"

definition ws_run :: "unicode_map \<Rightarrow> ws_event list \<Rightarrow> ws_state \<Rightarrow> ws_state" where
  "ws_run lower es st = fold (ws_step lower) es st"

end
