(* ===== verification/Workspace_Requests.thy ===== *)
theory Workspace_Requests
  imports Workspace_Actions
begin

text \<open>
  The requests that are under way. \<open>reqs\<close> is the part of the state that says which request holds which
  lock; the invariant is that a request that holds one has a continuation of the right kind waiting
  for its answer, so that the answer, whatever it is, gives the lock back.
\<close>

record req_view =
  q_next :: nat
  q_pending :: "nat \<Rightarrow> pending option"
  q_session :: "nat option"
  q_agent :: "nat option"
  q_image :: "nat option"
  q_actions :: "jstring \<Rightarrow> nat option"
  q_polls :: "jstring \<Rightarrow> nat option"
  q_reading :: bool
  q_epoch :: nat
  q_updates :: "jstring set"
  q_loading :: bool
  q_mounted :: bool
  q_project :: jstring

definition reqs :: "ws_state \<Rightarrow> req_view" where
  "reqs st = \<lparr>q_next = w_next st, q_pending = map_of (w_pending st), q_session = w_sessionRequest st,
     q_agent = w_agentRequest st, q_image = w_imageCreateRequest st, q_actions = map_of (w_generationActionRequests st),
     q_polls = map_of (w_generationRequests st), q_reading = w_readingRef st, q_epoch = w_attachmentReadEpoch st,
     q_updates = set (w_preferenceUpdates st), q_loading = w_loading st, q_mounted = w_mounted st,
     q_project = w_projectId st\<rparr>"

fun session_op :: "pending \<Rightarrow> bool" where
  "session_op (P_switch pid sid u) = True"
| "session_op (P_create pid) = True"
| "session_op (P_clear pid sid) = True"
| "session_op _ = False"

fun agent_op :: "pending \<Rightarrow> bool" where
  "agent_op (P_agent pid sid key c as) = True"
| "agent_op _ = False"

fun image_op :: "pending \<Rightarrow> bool" where
  "image_op (P_image pid sid refs) = True"
| "image_op _ = False"

fun action_op :: "jstring \<Rightarrow> pending \<Rightarrow> bool" where
  "action_op k (P_regenerate pid sid gid) = (k = generation_key sid gid)"
| "action_op k _ = False"

fun poll_op :: "jstring \<Rightarrow> pending \<Rightarrow> bool" where
  "poll_op k (P_poll pid sid gid a e) = (k = generation_key sid gid)"
| "poll_op k _ = False"

fun poll_bound :: "pending \<Rightarrow> bool" where
  "poll_bound (P_poll pid sid gid a e) = (a < maxAttempts)"
| "poll_bound _ = True"

fun attachments_op :: "nat \<Rightarrow> pending \<Rightarrow> bool" where
  "attachments_op e (P_attachments pid e' fs) = (e' = e)"
| "attachments_op e _ = False"

fun default_op :: "jstring \<Rightarrow> pending \<Rightarrow> bool" where
  "default_op f (P_default f') = (f' = f)"
| "default_op f _ = False"

fun load_op :: "jstring \<Rightarrow> pending \<Rightarrow> bool" where
  "load_op pid (P_load pid' i) = (pid' = pid)"
| "load_op pid _ = False"

text \<open>
  \<open>backed m q\<close>: with \<open>m\<close> the continuations that wait, every lock of \<open>q\<close> has the continuation that gives it
  back, and a request that polls has attempts left.
\<close>

definition held :: "(nat \<Rightarrow> pending option) \<Rightarrow> (pending \<Rightarrow> bool) \<Rightarrow> nat \<Rightarrow> bool" where
  "held m P n \<longleftrightarrow> (\<exists>p. m n = Some p \<and> P p)"

definition waits_for :: "(nat \<Rightarrow> pending option) \<Rightarrow> (pending \<Rightarrow> bool) \<Rightarrow> bool" where
  "waits_for m P \<longleftrightarrow> (\<exists>n p. m n = Some p \<and> P p)"

definition backed :: "(nat \<Rightarrow> pending option) \<Rightarrow> req_view \<Rightarrow> bool" where
  "backed m q \<longleftrightarrow>
     (\<forall>n p. m n = Some p \<longrightarrow> n < q_next q \<and> poll_bound p) \<and>
     (\<forall>n. q_session q = Some n \<longrightarrow> held m session_op n) \<and>
     (\<forall>n. q_agent q = Some n \<longrightarrow> held m agent_op n) \<and>
     (\<forall>n. q_image q = Some n \<longrightarrow> held m image_op n) \<and>
     (\<forall>k n. q_actions q k = Some n \<longrightarrow> held m (action_op k) n) \<and>
     (\<forall>k n. q_polls q k = Some n \<longrightarrow> held m (poll_op k) n) \<and>
     (q_mounted q \<and> q_reading q \<longrightarrow> waits_for m (attachments_op (q_epoch q))) \<and>
     (\<forall>f \<in> q_updates q. waits_for m (default_op f)) \<and>
     (q_mounted q \<and> q_loading q \<longrightarrow> waits_for m (load_op (q_project q)))"

text \<open>
  \<open>upheld x st\<close>: the locks of \<open>st\<close> are backed by the continuations that wait and by \<open>x\<close>, which is empty
  between two events and holds the continuation being run while an answer is handled.
\<close>

definition upheld :: "(nat \<Rightarrow> pending option) \<Rightarrow> ws_state \<Rightarrow> bool" where
  "upheld x st \<longleftrightarrow> backed (map_of (w_pending st) ++ x) (reqs st) \<and> dom x \<inter> dom (map_of (w_pending st)) = {}"

abbreviation settled :: "ws_state \<Rightarrow> bool" where
  "settled st \<equiv> upheld Map.empty st"

section \<open>Frame\<close>

lemma reqs_update:
  "reqs (st\<lparr>w_projectId := x_projectId\<rparr>) = (reqs st)\<lparr>q_project := x_projectId\<rparr>"
  "reqs (st\<lparr>w_requestedSessionId := x_requestedSessionId\<rparr>) = reqs st"
  "reqs (st\<lparr>w_workspace := x_workspace\<rparr>) = reqs st"
  "reqs (st\<lparr>w_crashed := x_crashed\<rparr>) = reqs st"
  "reqs (st\<lparr>w_preference := x_preference\<rparr>) = reqs st"
  "reqs (st\<lparr>w_models := x_models\<rparr>) = reqs st"
  "reqs (st\<lparr>w_creationMode := x_creationMode\<rparr>) = reqs st"
  "reqs (st\<lparr>w_currentSkill := x_currentSkill\<rparr>) = reqs st"
  "reqs (st\<lparr>w_compactWorkspace := x_compactWorkspace\<rparr>) = reqs st"
  "reqs (st\<lparr>w_resultsOpen := x_resultsOpen\<rparr>) = reqs st"
  "reqs (st\<lparr>w_selectedGenerationId := x_selectedGenerationId\<rparr>) = reqs st"
  "reqs (st\<lparr>w_message := x_message\<rparr>) = reqs st"
  "reqs (st\<lparr>w_attachments := x_attachments\<rparr>) = reqs st"
  "reqs (st\<lparr>w_imagePrompt := x_imagePrompt\<rparr>) = reqs st"
  "reqs (st\<lparr>w_imageEngine := x_imageEngine\<rparr>) = reqs st"
  "reqs (st\<lparr>w_imageAspectRatio := x_imageAspectRatio\<rparr>) = reqs st"
  "reqs (st\<lparr>w_imageReferences := x_imageReferences\<rparr>) = reqs st"
  "reqs (st\<lparr>w_selectedImageModels := x_selectedImageModels\<rparr>) = reqs st"
  "reqs (st\<lparr>w_loading := x_loading\<rparr>) = (reqs st)\<lparr>q_loading := x_loading\<rparr>"
  "reqs (st\<lparr>w_sending := x_sending\<rparr>) = reqs st"
  "reqs (st\<lparr>w_imageSubmitting := x_imageSubmitting\<rparr>) = reqs st"
  "reqs (st\<lparr>w_regeneratingIds := x_regeneratingIds\<rparr>) = reqs st"
  "reqs (st\<lparr>w_readingAttachments := x_readingAttachments\<rparr>) = reqs st"
  "reqs (st\<lparr>w_savingDefaults := x_savingDefaults\<rparr>) = reqs st"
  "reqs (st\<lparr>w_sessionChanging := x_sessionChanging\<rparr>) = reqs st"
  "reqs (st\<lparr>w_mounted := x_mounted\<rparr>) = (reqs st)\<lparr>q_mounted := x_mounted\<rparr>"
  "reqs (st\<lparr>w_generationRequests := x_generationRequests\<rparr>) = (reqs st)\<lparr>q_polls := map_of x_generationRequests\<rparr>"
  "reqs (st\<lparr>w_generationActionRequests := x_generationActionRequests\<rparr>) = (reqs st)\<lparr>q_actions := map_of x_generationActionRequests\<rparr>"
  "reqs (st\<lparr>w_imageCreateRequest := x_imageCreateRequest\<rparr>) = (reqs st)\<lparr>q_image := x_imageCreateRequest\<rparr>"
  "reqs (st\<lparr>w_agentRequest := x_agentRequest\<rparr>) = (reqs st)\<lparr>q_agent := x_agentRequest\<rparr>"
  "reqs (st\<lparr>w_sessionRequest := x_sessionRequest\<rparr>) = (reqs st)\<lparr>q_session := x_sessionRequest\<rparr>"
  "reqs (st\<lparr>w_sessionMetadataRequest := x_sessionMetadataRequest\<rparr>) = reqs st"
  "reqs (st\<lparr>w_sessionConfirm := x_sessionConfirm\<rparr>) = reqs st"
  "reqs (st\<lparr>w_pendingUrlSession := x_pendingUrlSession\<rparr>) = reqs st"
  "reqs (st\<lparr>w_readingRef := x_readingRef\<rparr>) = (reqs st)\<lparr>q_reading := x_readingRef\<rparr>"
  "reqs (st\<lparr>w_attachmentReadEpoch := x_attachmentReadEpoch\<rparr>) = (reqs st)\<lparr>q_epoch := x_attachmentReadEpoch\<rparr>"
  "reqs (st\<lparr>w_preferenceUpdates := x_preferenceUpdates\<rparr>) = (reqs st)\<lparr>q_updates := set x_preferenceUpdates\<rparr>"
  "reqs (st\<lparr>w_activeSessionIdRef := x_activeSessionIdRef\<rparr>) = reqs st"
  "reqs (st\<lparr>w_next := x_next\<rparr>) = (reqs st)\<lparr>q_next := x_next\<rparr>"
  "reqs (st\<lparr>w_pending := x_pending\<rparr>) = (reqs st)\<lparr>q_pending := map_of x_pending\<rparr>"
  "reqs (st\<lparr>w_out := x_out\<rparr>) = reqs st"
  by (simp_all add: reqs_def)

lemma reqs_select:
  "w_sessionRequest st = q_session (reqs st)"
  "w_agentRequest st = q_agent (reqs st)"
  "w_imageCreateRequest st = q_image (reqs st)"
  "w_readingRef st = q_reading (reqs st)"
  "w_attachmentReadEpoch st = q_epoch (reqs st)"
  "w_loading st = q_loading (reqs st)"
  "w_mounted st = q_mounted (reqs st)"
  "w_projectId st = q_project (reqs st)"
  "w_next st = q_next (reqs st)"
  "map_of (w_generationActionRequests st) = q_actions (reqs st)"
  "map_of (w_generationRequests st) = q_polls (reqs st)"
  "map_of (w_pending st) = q_pending (reqs st)"
  "set (w_preferenceUpdates st) = q_updates (reqs st)"
  by (simp_all add: reqs_def)

lemma reqs_emit [simp]: "reqs (ws_emit e st) = reqs st" "reqs (ws_emits es st) = reqs st"
  by (simp_all add: ws_emit_def ws_emits_def reqs_update)

lemma reqs_start:
  "reqs (snd (start_request p st)) = (reqs st)\<lparr>q_next := Suc (q_next (reqs st)), q_pending := (q_pending (reqs st))(q_next (reqs st) \<mapsto> p)\<rparr>"
  "fst (start_request p st) = q_next (reqs st)"
  by (simp_all add: start_request_def reqs_def)

lemma reqs_end: "reqs (end_request n st) = (reqs st)\<lparr>q_pending := (q_pending (reqs st))(n := None)\<rparr>"
proof -
  have "map_of (filter (\<lambda>p. fst p \<noteq> n) xs) = (map_of xs)(n := None)" for xs :: "(nat \<times> pending) list"
    by (induction xs) auto
  then show ?thesis by (simp add: end_request_def reqs_def)
qed

lemma reqs_workspace [simp]: "reqs (update_workspace f st) = reqs st"
  by (simp add: update_workspace_def reqs_update split: option.split)

lemma reqs_url [simp]: "reqs (setSessionInUrl s b st) = reqs st"
  by (simp add: setSessionInUrl_def reqs_update)

lemma reqs_release [simp]: "reqs (release_references st) = reqs st"
  by (simp add: release_references_def)

lemma reqs_generation [simp]: "reqs (updateGeneration g p s st) = reqs st"
  by (simp add: updateGeneration_def)

lemma reqs_pair: "reqs (case start_request p st of (n, y) \<Rightarrow> f n y) = reqs (f (q_next (reqs st)) (snd (start_request p st)))"
  by (simp add: start_request_def reqs_def)

section \<open>Steps on the locks\<close>

lemma backed_mono:
  assumes "backed m q" "\<And>n p. m n = Some p \<Longrightarrow> m' n = Some p"
    and "\<And>n p. m' n = Some p \<Longrightarrow> m n = None \<Longrightarrow> n < q_next q \<and> poll_bound p"
  shows "backed m' q"
proof -
  have "held m P n \<Longrightarrow> held m' P n" "waits_for m P \<Longrightarrow> waits_for m' P" for P n
    using assms(2) by (auto simp: held_def waits_for_def)
  moreover have "m' n = Some p \<Longrightarrow> n < q_next q \<and> poll_bound p" for n p
    using assms(1,3) assms(2) [of n] by (cases "m n") (auto simp: backed_def)
  ultimately show ?thesis using assms(1) unfolding backed_def by simp
qed

lemma backed_next: "backed m q \<Longrightarrow> q_next q \<le> k \<Longrightarrow> backed m (q\<lparr>q_next := k\<rparr>)"
  unfolding backed_def by fastforce

lemma backed_pending [simp]: "backed m (q\<lparr>q_pending := x\<rparr>) = backed m q"
  by (simp add: backed_def)

lemma backed_fresh: "backed m q \<Longrightarrow> q_next q \<le> n \<Longrightarrow> m n = None"
  unfolding backed_def by (metis leD not_None_eq)

text \<open>A new request keeps what is backed, and backs the lock it takes.\<close>

lemma backed_start:
  assumes "backed m q" "poll_bound p"
  shows "backed (m(q_next q \<mapsto> p)) (q\<lparr>q_next := Suc (q_next q)\<rparr>)"
  using backed_next [OF assms(1), of "Suc (q_next q)"] backed_fresh [OF assms(1), of "q_next q"]
  by (rule_tac m = m in backed_mono) (auto simp: assms(2) split: if_splits)

lemma backed_take:
  "backed m q \<Longrightarrow> held m session_op n \<Longrightarrow> backed m (q\<lparr>q_session := Some n\<rparr>)"
  "backed m q \<Longrightarrow> held m agent_op n \<Longrightarrow> backed m (q\<lparr>q_agent := Some n\<rparr>)"
  "backed m q \<Longrightarrow> held m image_op n \<Longrightarrow> backed m (q\<lparr>q_image := Some n\<rparr>)"
  "backed m q \<Longrightarrow> held m (action_op k) n \<Longrightarrow> backed m (q\<lparr>q_actions := (q_actions q)(k \<mapsto> n)\<rparr>)"
  "backed m q \<Longrightarrow> held m (poll_op k) n \<Longrightarrow> backed m (q\<lparr>q_polls := (q_polls q)(k \<mapsto> n)\<rparr>)"
  "backed m q \<Longrightarrow> waits_for m (attachments_op e) \<Longrightarrow> backed m (q\<lparr>q_epoch := e, q_reading := True\<rparr>)"
  "backed m q \<Longrightarrow> waits_for m (default_op f) \<Longrightarrow> backed m (q\<lparr>q_updates := insert f (q_updates q)\<rparr>)"
  "backed m q \<Longrightarrow> waits_for m (load_op (q_project q)) \<Longrightarrow> backed m (q\<lparr>q_loading := True\<rparr>)"
  by (simp_all add: backed_def)

lemma backed_free:
  "backed m q \<Longrightarrow> backed m (q\<lparr>q_session := None\<rparr>)"
  "backed m q \<Longrightarrow> backed m (q\<lparr>q_agent := None\<rparr>)"
  "backed m q \<Longrightarrow> backed m (q\<lparr>q_image := None\<rparr>)"
  "backed m q \<Longrightarrow> backed m (q\<lparr>q_actions := Map.empty\<rparr>)"
  "backed m q \<Longrightarrow> backed m (q\<lparr>q_actions := (q_actions q)(k := None)\<rparr>)"
  "backed m q \<Longrightarrow> backed m (q\<lparr>q_polls := Map.empty\<rparr>)"
  "backed m q \<Longrightarrow> backed m (q\<lparr>q_polls := (q_polls q)(k := None)\<rparr>)"
  "backed m q \<Longrightarrow> backed m (q\<lparr>q_epoch := e, q_reading := False\<rparr>)"
  "backed m q \<Longrightarrow> backed m (q\<lparr>q_reading := False\<rparr>)"
  "backed m q \<Longrightarrow> backed m (q\<lparr>q_updates := q_updates q - {f}\<rparr>)"
  "backed m q \<Longrightarrow> backed m (q\<lparr>q_loading := False\<rparr>)"
  "backed m q \<Longrightarrow> backed m (q\<lparr>q_mounted := False\<rparr>)"
  by (simp_all add: backed_def)

text \<open>A continuation is done when no lock is left that it backs.\<close>

lemma backed_drop:
  assumes "backed (m(n \<mapsto> p)) q" "m n = None"
    and "session_op p \<Longrightarrow> q_session q \<noteq> Some n" "agent_op p \<Longrightarrow> q_agent q \<noteq> Some n" "image_op p \<Longrightarrow> q_image q \<noteq> Some n"
    and "\<And>k. action_op k p \<Longrightarrow> q_actions q k \<noteq> Some n" "\<And>k. poll_op k p \<Longrightarrow> q_polls q k \<noteq> Some n"
    and "attachments_op (q_epoch q) p \<Longrightarrow> \<not> (q_mounted q \<and> q_reading q)" "\<And>f. default_op f p \<Longrightarrow> f \<notin> q_updates q"
    and "load_op (q_project q) p \<Longrightarrow> \<not> (q_mounted q \<and> q_loading q)"
  shows "backed m q"
proof -
  have h: "held (m(n \<mapsto> p)) P k \<Longrightarrow> \<not> (P p \<and> k = n) \<Longrightarrow> held m P k" for P k by (auto simp: held_def split: if_splits)
  have w: "waits_for (m(n \<mapsto> p)) P \<Longrightarrow> \<not> P p \<Longrightarrow> waits_for m P" for P by (auto simp: waits_for_def split: if_splits)
  have b: "m k = Some p' \<Longrightarrow> k < q_next q \<and> poll_bound p'" for k p'
    using assms(1,2) unfolding backed_def by (metis fun_upd_apply option.distinct(1))
  show ?thesis unfolding backed_def
  proof (intro conjI allI impI ballI)
    show "held m session_op k" if "q_session q = Some k" for k
      using assms(1,3) that by (intro h) (auto simp: backed_def)
    show "held m agent_op k" if "q_agent q = Some k" for k
      using assms(1,4) that by (intro h) (auto simp: backed_def)
    show "held m image_op k" if "q_image q = Some k" for k
      using assms(1,5) that by (intro h) (auto simp: backed_def)
    show "held m (action_op j) k" if "q_actions q j = Some k" for j k
      using assms(1,6) that by (intro h) (auto simp: backed_def)
    show "held m (poll_op j) k" if "q_polls q j = Some k" for j k
      using assms(1,7) that by (intro h) (auto simp: backed_def)
    show "waits_for m (attachments_op (q_epoch q))" if "q_mounted q \<and> q_reading q"
      using assms(1,8) that by (intro w) (auto simp: backed_def)
    show "waits_for m (default_op f)" if "f \<in> q_updates q" for f
      using assms(1,9) that by (intro w) (auto simp: backed_def)
    show "waits_for m (load_op (q_project q))" if "q_mounted q \<and> q_loading q"
      using assms(1,10) that by (intro w) (auto simp: backed_def)
  qed (use b in auto)
qed

section \<open>Handlers\<close>

lemma upheld_frame: "reqs st' = reqs st \<Longrightarrow> upheld x st' = upheld x st"
  using reqs_select(12) [of st] reqs_select(12) [of st'] by (simp add: upheld_def)

lemma upheld_same [simp]:
  "upheld x (st\<lparr>w_requestedSessionId := v_requestedSessionId\<rparr>) = upheld x st"
  "upheld x (st\<lparr>w_workspace := v_workspace\<rparr>) = upheld x st"
  "upheld x (st\<lparr>w_crashed := v_crashed\<rparr>) = upheld x st"
  "upheld x (st\<lparr>w_preference := v_preference\<rparr>) = upheld x st"
  "upheld x (st\<lparr>w_models := v_models\<rparr>) = upheld x st"
  "upheld x (st\<lparr>w_creationMode := v_creationMode\<rparr>) = upheld x st"
  "upheld x (st\<lparr>w_currentSkill := v_currentSkill\<rparr>) = upheld x st"
  "upheld x (st\<lparr>w_compactWorkspace := v_compactWorkspace\<rparr>) = upheld x st"
  "upheld x (st\<lparr>w_resultsOpen := v_resultsOpen\<rparr>) = upheld x st"
  "upheld x (st\<lparr>w_selectedGenerationId := v_selectedGenerationId\<rparr>) = upheld x st"
  "upheld x (st\<lparr>w_message := v_message\<rparr>) = upheld x st"
  "upheld x (st\<lparr>w_attachments := v_attachments\<rparr>) = upheld x st"
  "upheld x (st\<lparr>w_imagePrompt := v_imagePrompt\<rparr>) = upheld x st"
  "upheld x (st\<lparr>w_imageEngine := v_imageEngine\<rparr>) = upheld x st"
  "upheld x (st\<lparr>w_imageAspectRatio := v_imageAspectRatio\<rparr>) = upheld x st"
  "upheld x (st\<lparr>w_imageReferences := v_imageReferences\<rparr>) = upheld x st"
  "upheld x (st\<lparr>w_selectedImageModels := v_selectedImageModels\<rparr>) = upheld x st"
  "upheld x (st\<lparr>w_sending := v_sending\<rparr>) = upheld x st"
  "upheld x (st\<lparr>w_imageSubmitting := v_imageSubmitting\<rparr>) = upheld x st"
  "upheld x (st\<lparr>w_regeneratingIds := v_regeneratingIds\<rparr>) = upheld x st"
  "upheld x (st\<lparr>w_readingAttachments := v_readingAttachments\<rparr>) = upheld x st"
  "upheld x (st\<lparr>w_savingDefaults := v_savingDefaults\<rparr>) = upheld x st"
  "upheld x (st\<lparr>w_sessionChanging := v_sessionChanging\<rparr>) = upheld x st"
  "upheld x (st\<lparr>w_sessionMetadataRequest := v_sessionMetadataRequest\<rparr>) = upheld x st"
  "upheld x (st\<lparr>w_sessionConfirm := v_sessionConfirm\<rparr>) = upheld x st"
  "upheld x (st\<lparr>w_pendingUrlSession := v_pendingUrlSession\<rparr>) = upheld x st"
  "upheld x (st\<lparr>w_activeSessionIdRef := v_activeSessionIdRef\<rparr>) = upheld x st"
  "upheld x (st\<lparr>w_out := v_out\<rparr>) = upheld x st"
  "upheld x (ws_emit e st) = upheld x st" "upheld x (ws_emits es st) = upheld x st"
  "upheld x (update_workspace f st) = upheld x st" "upheld x (setSessionInUrl s b st) = upheld x st"
  "upheld x (release_references st) = upheld x st" "upheld x (updateGeneration g p s st) = upheld x st"
  by (rule upheld_frame, simp add: reqs_update)+

lemma upheld_end:
  assumes "settled st" "map_of (w_pending st) n = Some p"
  shows "upheld [n \<mapsto> p] (end_request n st)"
proof -
  have m: "map_of (w_pending (end_request n st)) = (map_of (w_pending st))(n := None)"
    using reqs_end [of n st] by (simp add: reqs_select)
  then have "map_of (w_pending (end_request n st)) ++ [n \<mapsto> p] = map_of (w_pending st)"
    using assms(2) by (auto simp: fun_eq_iff map_add_def)
  then show ?thesis using assms(1) m by (auto simp: upheld_def reqs_end)
qed

lemma upheld_start:
  assumes "upheld x st" "poll_bound p"
  shows "upheld x (snd (start_request p st))"
    and "P p \<Longrightarrow> held (map_of (w_pending (snd (start_request p st))) ++ x) P (w_next st)"
proof -
  have f: "(map_of (w_pending st) ++ x) (w_next st) = None"
    using assms(1) backed_fresh [of "map_of (w_pending st) ++ x" "reqs st" "w_next st"] by (simp add: upheld_def reqs_select)
  then have n: "x (w_next st) = None" by simp
  then have m: "(map_of (w_pending st))(w_next st \<mapsto> p) ++ x = (map_of (w_pending st) ++ x)(w_next st \<mapsto> p)"
    by (auto simp: map_add_def fun_eq_iff split: option.split)
  with assms f backed_start [of "map_of (w_pending st) ++ x" "reqs st" p] show "upheld x (snd (start_request p st))"
    by (auto simp: upheld_def reqs_start start_request_def reqs_select(9) reqs_update)
  show "P p \<Longrightarrow> held (map_of (w_pending (snd (start_request p st))) ++ x) P (w_next st)"
    by (simp add: start_request_def held_def m)
qed

lemma held_waits: "held m P n \<Longrightarrow> waits_for m P"
  by (auto simp: held_def waits_for_def)

text \<open>A request that takes a lock.\<close>

lemma upheld_take:
  assumes "upheld x st"
  shows "session_op p \<Longrightarrow> poll_bound p \<Longrightarrow> upheld x ((snd (start_request p st))\<lparr>w_sessionRequest := Some (w_next st)\<rparr>)"
    and "agent_op p \<Longrightarrow> poll_bound p \<Longrightarrow> upheld x ((snd (start_request p st))\<lparr>w_agentRequest := Some (w_next st)\<rparr>)"
    and "image_op p \<Longrightarrow> poll_bound p \<Longrightarrow> upheld x ((snd (start_request p st))\<lparr>w_imageCreateRequest := Some (w_next st)\<rparr>)"
    and "action_op k p \<Longrightarrow> poll_bound p \<Longrightarrow> upheld x ((snd (start_request p st))\<lparr>w_generationActionRequests :=
          obj_set k (w_next st) (w_generationActionRequests (snd (start_request p st)))\<rparr>)"
    and "poll_op k p \<Longrightarrow> poll_bound p \<Longrightarrow> upheld x ((snd (start_request p st))\<lparr>w_generationRequests :=
          obj_set k (w_next st) (w_generationRequests (snd (start_request p st)))\<rparr>)"
  using upheld_start [OF assms, of p]
  by (simp_all add: upheld_def reqs_update map_of_obj_set reqs_select(10,11) backed_take)

text \<open>A change of the locks that starts and ends no request.\<close>

lemma upheld_change:
  "upheld x st \<Longrightarrow> q_pending (reqs st') = q_pending (reqs st) \<Longrightarrow> (\<And>m. backed m (reqs st) \<Longrightarrow> backed m (reqs st')) \<Longrightarrow> upheld x st'"
  by (simp add: upheld_def reqs_select)

lemma reqs_abort:
  "reqs (abortSessionImageRequests st) = (reqs st)\<lparr>q_polls := Map.empty, q_actions := Map.empty, q_image := None\<rparr>"
  "reqs (abortProjectRequests st) = (reqs st)\<lparr>q_polls := Map.empty, q_actions := Map.empty, q_image := None, q_agent := None, q_session := None\<rparr>"
  by (simp_all add: abortSessionImageRequests_def abortProjectRequests_def Let_def reqs_update)

lemma reqs_discard: "reqs (discardWorkspaceDraft st) = (reqs st)\<lparr>q_epoch := q_epoch (reqs st) + 1, q_reading := False\<rparr>"
  by (simp add: discardWorkspaceDraft_def reqs_update reqs_select)

lemma reqs_enter: "reqs (enter_session sid nxt st) = (reqs st)\<lparr>q_polls := Map.empty, q_actions := Map.empty, q_image := None,
    q_epoch := q_epoch (reqs st) + 1, q_reading := False\<rparr>"
  by (simp add: enter_session_def reqs_discard reqs_abort reqs_update)

lemma upheld_enter: "upheld x st \<Longrightarrow> upheld x (enter_session sid nxt st)"
  by (erule upheld_change) (simp_all add: reqs_enter backed_free)

lemma upheld_unmount: "upheld x st \<Longrightarrow> upheld x (unmount st)"
  by (erule upheld_change) (simp_all add: unmount_def reqs_update reqs_abort backed_def reqs_select)

lemma upheld_metadata: "upheld x st \<Longrightarrow> upheld x (refreshAgentSessionMetadata pid sid st)"
  by (simp add: refreshAgentSessionMetadata_def case_prod_unfold upheld_start)

lemma abort_route:
  "w_projectId (release_references (abortProjectRequests st)) = w_projectId st"
  "w_requestedSessionId (release_references (abortProjectRequests st)) = w_requestedSessionId st"
  by (simp_all add: release_references_def abortProjectRequests_def abortSessionImageRequests_def ws_emits_def Let_def)

lemma upheld_navigate:
  assumes "settled st"
  shows "settled (load_start (project_effect (st\<lparr>w_projectId := pid, w_requestedSessionId := sid\<rparr>)))"
proof -
  define st1 where "st1 = (project_effect (st\<lparr>w_projectId := pid, w_requestedSessionId := sid\<rparr>))\<lparr>w_loading := False\<rparr>"
  define st2 where "st2 = snd (start_request (P_load pid sid) st1)"
  have "settled st1" using assms unfolding st1_def
    by (rule upheld_change)
      (simp_all add: project_effect_def Let_def reqs_update reqs_abort backed_def reqs_select)
  then have 2: "settled st2" "waits_for (map_of (w_pending st2)) (load_op pid)"
    using upheld_start(1) [of Map.empty st1 "P_load pid sid"] upheld_start(2) [of Map.empty st1 "P_load pid sid" "load_op pid"]
      held_waits [of _ "load_op pid"] by (auto simp: st2_def)
  have "q_project (reqs st2) = pid"
    "reqs (load_start (project_effect (st\<lparr>w_projectId := pid, w_requestedSessionId := sid\<rparr>))) = (reqs st2)\<lparr>q_loading := True\<rparr>"
    by (simp_all add: st2_def st1_def load_start_def case_prod_unfold project_effect_def Let_def reqs_update reqs_start reqs_abort abort_route)
  then show ?thesis using 2 by (simp add: upheld_def reqs_select backed_take)
qed

subsection \<open>Operations of the user\<close>

lemma fst_start: "fst (start_request p st) = w_next st"
  by (simp add: start_request_def)

lemma upheld_begin: "upheld x st \<Longrightarrow> session_op p \<Longrightarrow> poll_bound p \<Longrightarrow> upheld x (begin_session p c st)"
  by (simp add: begin_session_def case_prod_unfold fst_start upheld_take)

lemma upheld_session_start:
  assumes "upheld x st"
  shows "upheld x (switchSession sid b st)" "upheld x (createSession st)" "upheld x (clearSession st)"
  using assms by (simp_all add: switchSession_def createSession_def clearSession_def upheld_begin)

lemma upheld_confirmed: "upheld x st \<Longrightarrow> upheld x (run_confirmed c st)"
  by (cases c) (simp_all add: run_confirmed_def upheld_session_start)

lemma upheld_requests:
  assumes "upheld x st"
  shows "upheld x (confirmDraftDiscard c st)" "upheld x (requestSessionSwitch sid st)" "upheld x (requestNewSession st)"
    "upheld x (requestClearSession st)" "upheld x (confirm_ok st)" "upheld x (confirm_cancel st)"
  using assms by (auto simp: confirmDraftDiscard_def requestSessionSwitch_def requestNewSession_def requestClearSession_def
      confirm_ok_def confirm_cancel_def Let_def upheld_confirmed split: option.split confirm.split)

lemma upheld_no_session: "upheld x st \<Longrightarrow> upheld x (st\<lparr>w_sessionRequest := None\<rparr>)"
  by (erule upheld_change) (simp_all add: reqs_update backed_free)

lemma upheld_url:
  assumes "upheld x st"
  shows "upheld x (url_effect st)"
proof -
  let ?s = "(ws_emits (abort_opt (w_sessionRequest st)) st)\<lparr>w_sessionConfirm := None, w_sessionRequest := None,
                     w_pendingUrlSession := [], w_sessionChanging := None\<rparr>"
  have "upheld x ?s" by (simp add: upheld_no_session assms)
  then show ?thesis using assms by (simp add: url_effect_def Let_def upheld_requests(1))
qed

lemma upheld_models:
  assumes "upheld x st"
  shows "upheld x (models_effect lower st)" "upheld x (changeImageEngine lower engine st)"
    "upheld x (addImageReferences lower fs st)" "upheld x (removeImageReference i st)" "upheld x (removeAttachment i st)"
    "upheld x (selection_effect st)" "upheld x (closeResults st)" "upheld x (toggleResults st)" "upheld x (breakpoint_change b st)"
  using assms by (auto simp: models_effect_def changeImageEngine_def addImageReferences_def removeImageReference_def
      removeAttachment_def selection_effect_def closeResults_def toggleResults_def breakpoint_change_def Let_def
      split: list.split sum.split)

lemma upheld_default:
  assumes "settled st"
  shows "settled (updateDefault f st)"
proof (cases "f \<in> set (w_preferenceUpdates st)")
  case False
  define st1 where "st1 = snd (start_request (P_default f) st)"
  have 1: "settled st1" "waits_for (map_of (w_pending st1)) (default_op f)"
    using upheld_start(1) [OF assms, of "P_default f"] upheld_start(2) [OF assms, of "P_default f" "default_op f"]
      held_waits [of _ "default_op f"] by (auto simp: st1_def)
  have "reqs (updateDefault f st) = (reqs st1)\<lparr>q_updates := insert f (q_updates (reqs st1))\<rparr>"
    using False by (simp add: updateDefault_def st1_def reqs_start reqs_update reqs_select)
  then show ?thesis using 1 by (simp add: upheld_def reqs_select backed_take)
qed (simp add: updateDefault_def assms)

lemma upheld_attachments:
  assumes "settled st"
  shows "settled (addAttachments fs st)"
proof -
  define e where "e = w_attachmentReadEpoch st + 1"
  define st1 where "st1 = snd (start_request (P_attachments (w_projectId st) e fs) st)"
  define st2 where "st2 = snd (start_request (P_attachments (w_projectId st) e fs)
              (st\<lparr>w_attachmentReadEpoch := e, w_readingRef := True, w_readingAttachments := True\<rparr>))"
  have 1: "settled st1" "waits_for (map_of (w_pending st1)) (attachments_op e)"
    using upheld_start(1) [OF assms, of "P_attachments (w_projectId st) e fs"]
      upheld_start(2) [OF assms, of "P_attachments (w_projectId st) e fs" "attachments_op e"] held_waits [of _ "attachments_op e"]
    by (auto simp: st1_def)
  have "reqs st2 = (reqs st1)\<lparr>q_epoch := e, q_reading := True\<rparr>"
    by (simp add: st1_def st2_def reqs_start reqs_update)
  then have "settled st2" using 1 by (simp add: upheld_def reqs_select backed_take)
  then show ?thesis using assms by (simp add: addAttachments_def Let_def st2_def e_def)
qed

lemma upheld_send: "upheld x st \<Longrightarrow> upheld x (sendMessage key now st)"
  by (simp add: sendMessage_def Let_def case_prod_unfold fst_start upheld_take)

lemma upheld_submit: "upheld x st \<Longrightarrow> upheld x (submitImageGeneration lower st)"
  by (simp add: submitImageGeneration_def case_prod_unfold fst_start upheld_take)

lemma upheld_regenerate: "upheld x st \<Longrightarrow> upheld x (regenerateGeneration gid st)"
  by (simp add: regenerateGeneration_def Let_def case_prod_unfold fst_start upheld_take)

lemma upheld_poll_step: "upheld x st \<Longrightarrow> upheld x (poll_effect_step g st)"
  by (simp add: poll_effect_step_def Let_def case_prod_unfold fst_start upheld_take maxAttempts_def)

lemma upheld_poll_effect: "upheld x st \<Longrightarrow> upheld x (poll_effect st)"
proof -
  have "upheld x st \<Longrightarrow> upheld x (foldl (\<lambda>s g. poll_effect_step g s) st gs)" for gs
    by (induction gs arbitrary: st) (simp_all add: upheld_poll_step)
  then show "upheld x st \<Longrightarrow> upheld x (poll_effect st)" by (simp add: poll_effect_def)
qed

subsection \<open>Answers\<close>

lemma upheld_drop:
  assumes "upheld [n \<mapsto> p] st"
    and "session_op p \<Longrightarrow> w_sessionRequest st \<noteq> Some n" "agent_op p \<Longrightarrow> w_agentRequest st \<noteq> Some n"
    and "image_op p \<Longrightarrow> w_imageCreateRequest st \<noteq> Some n"
    and "\<And>k. action_op k p \<Longrightarrow> map_of (w_generationActionRequests st) k \<noteq> Some n"
    and "\<And>k. poll_op k p \<Longrightarrow> map_of (w_generationRequests st) k \<noteq> Some n"
    and "attachments_op (w_attachmentReadEpoch st) p \<Longrightarrow> \<not> (w_mounted st \<and> w_readingRef st)"
    and "\<And>f. default_op f p \<Longrightarrow> f \<notin> set (w_preferenceUpdates st)"
    and "load_op (w_projectId st) p \<Longrightarrow> \<not> (w_mounted st \<and> w_loading st)"
  shows "settled st"
proof -
  have "backed ((q_pending (reqs st))(n \<mapsto> p)) (reqs st)" "q_pending (reqs st) n = None"
    using assms(1) by (auto simp: upheld_def reqs_select)
  then have "backed (q_pending (reqs st)) (reqs st)"
    by (rule backed_drop) (use assms(2-) in \<open>simp_all add: reqs_select\<close>)
  then show ?thesis by (simp add: upheld_def reqs_select)
qed

lemma settled_finish: "upheld [n \<mapsto> p] st \<Longrightarrow> session_op p \<Longrightarrow> settled (finish_session n st)"
  by (rule upheld_drop [of n p], unfold finish_session_def)
    (auto simp: upheld_no_session elim: session_op.elims)

lemma upheld_session_failed: "upheld x (session_failed n pid fb e st) = upheld x st"
  by (simp add: session_failed_def)

lemma settled_switch:
  assumes "settled st" "map_of (w_pending st) n = Some (P_switch pid sid b)"
  shows "settled (switch_reply n pid sid b r st)"
  using upheld_end [OF assms]
  by (auto simp: switch_reply_def Let_def upheld_session_failed upheld_enter split: sum.split
      intro!: settled_finish [where p = "P_switch pid sid b"])

lemma settled_create:
  assumes "settled st" "map_of (w_pending st) n = Some (P_create pid)"
  shows "settled (create_reply n pid r st)"
  using upheld_end [OF assms]
  by (auto simp: create_reply_def Let_def upheld_session_failed upheld_enter split: sum.split
      intro!: settled_finish [where p = "P_create pid"])

lemma settled_clear:
  assumes "settled st" "map_of (w_pending st) n = Some (P_clear pid sid)"
  shows "settled (clear_reply n pid sid r st)"
  using upheld_end [OF assms]
  by (auto simp: clear_reply_def Let_def upheld_session_failed split: sum.split
      intro!: settled_finish [where p = "P_clear pid sid"])

lemma settled_metadata:
  assumes "settled st" "map_of (w_pending st) n = Some (P_metadata pid sid)"
  shows "settled (metadata_reply n pid sid r st)"
  by (rule upheld_drop [of n "P_metadata pid sid"])
    (use upheld_end [OF assms] in \<open>auto simp: metadata_reply_def Let_def split: sum.split\<close>)

lemma upheld_no_agent: "upheld x st \<Longrightarrow> upheld x (st\<lparr>w_agentRequest := None\<rparr>)"
  by (erule upheld_change) (simp_all add: reqs_update backed_free)

lemma settled_agent_end:
  assumes "settled st" "map_of (w_pending st) n = Some (P_agent pid sid key content as)"
  shows "settled (agent_end n pid sid key content as failed aborted st)"
  by (rule upheld_drop [of n "P_agent pid sid key content as"])
    (use upheld_end [OF assms] in \<open>auto simp: agent_end_def Let_def upheld_no_agent split: option.split\<close>)

lemma upheld_agent_event: "upheld x st \<Longrightarrow> upheld x (agent_event n pid sid key ev st)"
  by (simp add: agent_event_def Let_def upheld_metadata)

lemma upheld_no_image: "upheld x st \<Longrightarrow> upheld x (st\<lparr>w_imageCreateRequest := None\<rparr>)"
  by (erule upheld_change) (simp_all add: reqs_update backed_free)

lemma settled_image:
  assumes "settled st" "map_of (w_pending st) n = Some (P_image pid sid refs)"
  shows "settled (image_reply n pid sid refs r st)"
  by (rule upheld_drop [of n "P_image pid sid refs"])
    (use upheld_end [OF assms] in \<open>auto simp: image_reply_def image_failed_def Let_def upheld_no_image upheld_metadata split: sum.split\<close>)

lemma upheld_delete:
  assumes "upheld x st"
  shows "upheld x (st\<lparr>w_generationActionRequests := obj_delete k (w_generationActionRequests st)\<rparr>)"
    "upheld x (st\<lparr>w_generationRequests := obj_delete k (w_generationRequests st)\<rparr>)"
  by (rule upheld_change [OF assms], simp_all add: reqs_update map_of_obj_delete reqs_select(10,11) backed_free)+

lemma settled_regenerate:
  assumes "settled st" "map_of (w_pending st) n = Some (P_regenerate pid sid gid)"
  shows "settled (regenerate_reply n pid sid gid r st)"
  by (rule upheld_drop [of n "P_regenerate pid sid gid"])
    (use upheld_end [OF assms] in \<open>auto simp: regenerate_reply_def regenerate_failed_def Let_def upheld_delete upheld_metadata
       map_of_obj_delete split: sum.split\<close>)

lemma settled_poll_end:
  assumes "settled st" "map_of (w_pending st) n = Some (P_poll pid sid gid a e)"
  shows "settled (poll_end n pid sid gid r st)"
  by (rule upheld_drop [of n "P_poll pid sid gid a e"])
    (use upheld_end [OF assms] in \<open>auto simp: poll_end_def Let_def upheld_delete map_of_obj_delete split: sum.split\<close>)

text \<open>The next attempt takes the place of the last.\<close>

definition next_attempt :: "nat \<Rightarrow> pending \<Rightarrow> ws_state \<Rightarrow> ws_state" where
  "next_attempt n p st = st\<lparr>w_pending := map (\<lambda>e. if fst e = n then (n, p) else e) (w_pending st)\<rparr>"

lemma map_of_next_attempt:
  "map_of (w_pending (next_attempt n p st)) k = (if k = n \<and> map_of (w_pending st) n \<noteq> None then Some p else map_of (w_pending st) k)"
proof -
  have "map_of (map (\<lambda>e. if fst e = n then (n, p) else e) xs) k = (if k = n \<and> map_of xs n \<noteq> None then Some p else map_of xs k)"
    for xs :: "(nat \<times> pending) list"
    by (induction xs) auto
  then show ?thesis by (simp add: next_attempt_def)
qed

lemma settled_attempt:
  assumes "settled st" "map_of (w_pending st) n = Some (P_poll pid sid gid a e)" "a + 1 < maxAttempts"
  shows "settled (next_attempt n (P_poll pid sid gid (a + 1) e') st)"
proof -
  let ?st = "next_attempt n (P_poll pid sid gid (a + 1) e') st"
  have b: "map_of (w_pending st) k = Some p \<Longrightarrow> k < q_next (reqs st) \<and> poll_bound p" for k p
    using assms(1) by (simp add: upheld_def backed_def)
  have q: "reqs ?st = (reqs st)\<lparr>q_pending := map_of (w_pending ?st)\<rparr>"
    by (simp add: next_attempt_def reqs_update)
  have h: "held (map_of (w_pending st)) P k \<Longrightarrow> (\<And>a e. P (P_poll pid sid gid a e) = P (P_poll pid sid gid 0 None)) \<Longrightarrow>
      held (map_of (w_pending ?st)) P k" for P k
    using assms(2) by (auto simp: held_def map_of_next_attempt split: if_splits) metis+
  have "waits_for (map_of (w_pending st)) P \<Longrightarrow> (\<And>a e. P (P_poll pid sid gid a e) = P (P_poll pid sid gid 0 None)) \<Longrightarrow>
      waits_for (map_of (w_pending ?st)) P" for P
    using h held_waits by (metis held_def waits_for_def)
  then show ?thesis using assms b q h unfolding upheld_def
    by (simp add: backed_def map_of_next_attempt)
qed

lemma settled_poll_again:
  assumes "settled st" "map_of (w_pending st) n = Some (P_poll pid sid gid a e)"
  shows "settled (poll_again n pid sid gid a e' st)"
proof (cases "a + 1 < maxAttempts")
  case True
  with settled_attempt [OF assms True, of e'] show ?thesis unfolding poll_again_def next_attempt_def by (simp only: if_True)
qed (simp add: poll_again_def settled_poll_end [OF assms])

lemma pending_generation: "w_pending (updateGeneration g p s st) = w_pending st"
  by (simp add: updateGeneration_def update_workspace_def split: option.split)

lemma settled_poll:
  assumes "settled st" "map_of (w_pending st) n = Some (P_poll pid sid gid a e)"
  shows "settled (poll_reply n pid sid gid a e r st)"
  using assms by (auto simp: poll_reply_def Let_def pending_generation split: sum.split
      intro!: settled_poll_again settled_poll_end [where a = a and e = e])

lemma settled_default:
  assumes "settled st" "map_of (w_pending st) n = Some (P_default f)"
  shows "settled (default_reply n f r st)"
proof -
  have "upheld x st \<Longrightarrow> upheld x (st\<lparr>w_preferenceUpdates := removeAll f (w_preferenceUpdates st)\<rparr>)" for x st
    by (erule upheld_change) (simp_all add: reqs_update reqs_select(13) backed_free)
  then show ?thesis
    by (intro upheld_drop [of n "P_default f"])
      (use upheld_end [OF assms] in \<open>auto simp: default_reply_def Let_def split: sum.split\<close>)
qed

lemma upheld_read: "upheld x st \<Longrightarrow> upheld x (st\<lparr>w_readingRef := False\<rparr>)"
  by (erule upheld_change) (simp_all add: reqs_update backed_free)

lemma settled_attachments:
  assumes "settled st" "map_of (w_pending st) n = Some (P_attachments pid e fs)"
  shows "settled (attachments_reply lower n pid e fs rs st)"
  by (rule upheld_drop [of n "P_attachments pid e fs"])
    (use upheld_end [OF assms] in \<open>auto simp: attachments_reply_def Let_def upheld_read split: sum.split\<close>)

lemma upheld_loaded: "upheld x st \<Longrightarrow> upheld x (st\<lparr>w_loading := False\<rparr>)"
  by (erule upheld_change) (simp_all add: reqs_update backed_free)

lemma upheld_load_failed: "upheld [n \<mapsto> P_load pid i] st \<Longrightarrow> settled (load_failed pid e st)"
  by (rule upheld_drop [of n "P_load pid i"])
    (auto simp: load_failed_def Let_def upheld_loaded same_project_def ws_emit_def split: if_splits)

lemma settled_retry:
  assumes "upheld [n \<mapsto> P_load pid i] st"
  shows "settled (snd (start_request (P_load pid j) st))"
proof (cases "w_projectId st = pid \<and> w_loading st")
  case True
  define st1 where "st1 = snd (start_request (P_load pid j) (st\<lparr>w_loading := False\<rparr>))"
  have "settled (st\<lparr>w_loading := False\<rparr>)"
    by (rule upheld_drop [of n "P_load pid i"]) (simp_all add: upheld_loaded assms)
  then have 1: "settled st1" "waits_for (map_of (w_pending st1)) (load_op pid)"
    using upheld_start(1) [of Map.empty "st\<lparr>w_loading := False\<rparr>" "P_load pid j"]
      upheld_start(2) [of Map.empty "st\<lparr>w_loading := False\<rparr>" "P_load pid j" "load_op pid"] held_waits [of _ "load_op pid"]
    by (auto simp: st1_def)
  have "q_project (reqs st1) = pid" "reqs (snd (start_request (P_load pid j) st)) = (reqs st1)\<lparr>q_loading := True\<rparr>"
    using True by (simp_all add: st1_def reqs_start reqs_update reqs_select)
  then show ?thesis using 1 by (simp add: upheld_def reqs_select backed_take)
next
  case False
  then have "settled st" by (intro upheld_drop [OF assms]) auto
  then show ?thesis by (simp add: upheld_start)
qed

lemma settled_load:
  assumes "settled st" "map_of (w_pending st) n = Some (P_load pid i)"
  shows "settled (load_reply n pid i r st)"
proof -
  have e: "upheld [n \<mapsto> P_load pid i] (end_request n st)" using assms by (rule upheld_end)
  have f: "settled (load_failed pid e (end_request n st))" for e using e by (rule upheld_load_failed)
  have "\<not> same_project pid (end_request n st) \<Longrightarrow> settled (end_request n st)"
    by (rule upheld_drop [OF e]) (auto simp: same_project_def)
  moreover have "settled (st'\<lparr>w_loading := False\<rparr>)" if "upheld [n \<mapsto> P_load pid i] st'" for st'
    by (rule upheld_drop [of n "P_load pid i"]) (use that in \<open>auto simp: upheld_loaded\<close>)
  ultimately show ?thesis using e
    by (auto simp: load_reply_def Let_def f settled_retry split: load_result.split sum.split)
qed

lemmas settled_answers = settled_switch settled_create settled_clear settled_metadata settled_image settled_regenerate settled_poll

lemma settled_reply: "settled st \<Longrightarrow> settled (ws_reply n r st)"
  by (auto simp: ws_reply_def settled_answers split: option.split pending.split)

lemmas settled_operations = upheld_navigate upheld_unmount upheld_url upheld_models upheld_poll_effect upheld_requests
  upheld_default upheld_attachments upheld_send upheld_submit upheld_regenerate

lemma settled_handle: "settled st \<Longrightarrow> settled (ws_handle lower e st)"
  by (cases e) (auto simp: settled_operations settled_reply settled_load settled_default settled_attachments
      upheld_agent_event settled_agent_end split: option.split pending.split)

interpretation ws_requests: state_machine "ws_step lower" settled for lower
  by unfold_locales (simp add: ws_step_def render_def settled_handle)

end
