(* ===== verification/Workspace_Locks.thy ===== *)
theory Workspace_Locks
  imports Workspace_Actions
begin

text \<open>
  The requests of the workspace as locks. \<open>locks\<close> is the part of the state that says which operations
  are under way and what the page shows of it; the invariant is that session operations, a message
  being sent and an image being submitted exclude each other, that no attachment is read meanwhile,
  and that the flags shown by the page say so.
\<close>

record lock_view =
  l_session :: "nat option"
  l_agent :: "nat option"
  l_image :: "nat option"
  l_actions :: "(jstring \<times> nat) list"
  l_readingRef :: bool
  l_sending :: bool
  l_submitting :: bool
  l_reading :: bool
  l_changing :: "session_change option"
  l_mounted :: bool

definition locks :: "ws_state \<Rightarrow> lock_view" where
  "locks st = \<lparr>l_session = w_sessionRequest st, l_agent = w_agentRequest st, l_image = w_imageCreateRequest st,
     l_actions = w_generationActionRequests st, l_readingRef = w_readingRef st, l_sending = w_sending st,
     l_submitting = w_imageSubmitting st, l_reading = w_readingAttachments st, l_changing = w_sessionChanging st,
     l_mounted = w_mounted st\<rparr>"

definition exclusive :: "lock_view \<Rightarrow> bool" where
  "exclusive l \<longleftrightarrow> (l_session l = None \<or> l_agent l = None \<and> l_image l = None \<and> l_actions l = [] \<and> \<not> l_readingRef l) \<and>
     (l_agent l = None \<or> l_image l = None \<and> \<not> l_readingRef l)"

definition flags_shown :: "lock_view \<Rightarrow> bool" where
  "flags_shown l \<longleftrightarrow> (l_sending l \<longleftrightarrow> l_agent l \<noteq> None) \<and> (l_submitting l \<longleftrightarrow> l_image l \<noteq> None) \<and>
     (l_changing l \<noteq> None \<longleftrightarrow> l_session l \<noteq> None) \<and> (l_reading l \<longleftrightarrow> l_readingRef l)"

definition lock_inv :: "lock_view \<Rightarrow> bool" where
  "lock_inv l \<longleftrightarrow> exclusive l \<and> (l_mounted l \<longrightarrow> flags_shown l)"

section \<open>Frame\<close>

lemma locks_update:
  "locks (st\<lparr>w_projectId := x_projectId\<rparr>) = locks st"
  "locks (st\<lparr>w_requestedSessionId := x_requestedSessionId\<rparr>) = locks st"
  "locks (st\<lparr>w_workspace := x_workspace\<rparr>) = locks st"
  "locks (st\<lparr>w_crashed := x_crashed\<rparr>) = locks st"
  "locks (st\<lparr>w_preference := x_preference\<rparr>) = locks st"
  "locks (st\<lparr>w_models := x_models\<rparr>) = locks st"
  "locks (st\<lparr>w_creationMode := x_creationMode\<rparr>) = locks st"
  "locks (st\<lparr>w_currentSkill := x_currentSkill\<rparr>) = locks st"
  "locks (st\<lparr>w_compactWorkspace := x_compactWorkspace\<rparr>) = locks st"
  "locks (st\<lparr>w_resultsOpen := x_resultsOpen\<rparr>) = locks st"
  "locks (st\<lparr>w_selectedGenerationId := x_selectedGenerationId\<rparr>) = locks st"
  "locks (st\<lparr>w_message := x_message\<rparr>) = locks st"
  "locks (st\<lparr>w_attachments := x_attachments\<rparr>) = locks st"
  "locks (st\<lparr>w_imagePrompt := x_imagePrompt\<rparr>) = locks st"
  "locks (st\<lparr>w_imageEngine := x_imageEngine\<rparr>) = locks st"
  "locks (st\<lparr>w_imageAspectRatio := x_imageAspectRatio\<rparr>) = locks st"
  "locks (st\<lparr>w_imageReferences := x_imageReferences\<rparr>) = locks st"
  "locks (st\<lparr>w_selectedImageModels := x_selectedImageModels\<rparr>) = locks st"
  "locks (st\<lparr>w_loading := x_loading\<rparr>) = locks st"
  "locks (st\<lparr>w_sending := x_sending\<rparr>) = (locks st)\<lparr>l_sending := x_sending\<rparr>"
  "locks (st\<lparr>w_imageSubmitting := x_imageSubmitting\<rparr>) = (locks st)\<lparr>l_submitting := x_imageSubmitting\<rparr>"
  "locks (st\<lparr>w_regeneratingIds := x_regeneratingIds\<rparr>) = locks st"
  "locks (st\<lparr>w_readingAttachments := x_readingAttachments\<rparr>) = (locks st)\<lparr>l_reading := x_readingAttachments\<rparr>"
  "locks (st\<lparr>w_savingDefaults := x_savingDefaults\<rparr>) = locks st"
  "locks (st\<lparr>w_sessionChanging := x_sessionChanging\<rparr>) = (locks st)\<lparr>l_changing := x_sessionChanging\<rparr>"
  "locks (st\<lparr>w_mounted := x_mounted\<rparr>) = (locks st)\<lparr>l_mounted := x_mounted\<rparr>"
  "locks (st\<lparr>w_generationRequests := x_generationRequests\<rparr>) = locks st"
  "locks (st\<lparr>w_generationActionRequests := x_generationActionRequests\<rparr>) = (locks st)\<lparr>l_actions := x_generationActionRequests\<rparr>"
  "locks (st\<lparr>w_imageCreateRequest := x_imageCreateRequest\<rparr>) = (locks st)\<lparr>l_image := x_imageCreateRequest\<rparr>"
  "locks (st\<lparr>w_agentRequest := x_agentRequest\<rparr>) = (locks st)\<lparr>l_agent := x_agentRequest\<rparr>"
  "locks (st\<lparr>w_sessionRequest := x_sessionRequest\<rparr>) = (locks st)\<lparr>l_session := x_sessionRequest\<rparr>"
  "locks (st\<lparr>w_sessionMetadataRequest := x_sessionMetadataRequest\<rparr>) = locks st"
  "locks (st\<lparr>w_sessionConfirm := x_sessionConfirm\<rparr>) = locks st"
  "locks (st\<lparr>w_pendingUrlSession := x_pendingUrlSession\<rparr>) = locks st"
  "locks (st\<lparr>w_readingRef := x_readingRef\<rparr>) = (locks st)\<lparr>l_readingRef := x_readingRef\<rparr>"
  "locks (st\<lparr>w_attachmentReadEpoch := x_attachmentReadEpoch\<rparr>) = locks st"
  "locks (st\<lparr>w_preferenceUpdates := x_preferenceUpdates\<rparr>) = locks st"
  "locks (st\<lparr>w_activeSessionIdRef := x_activeSessionIdRef\<rparr>) = locks st"
  "locks (st\<lparr>w_next := x_next\<rparr>) = locks st"
  "locks (st\<lparr>w_pending := x_pending\<rparr>) = locks st"
  "locks (st\<lparr>w_out := x_out\<rparr>) = locks st"
  by (simp_all add: locks_def)

lemma locks_select:
  "w_sessionRequest st = l_session (locks st)"
  "w_agentRequest st = l_agent (locks st)"
  "w_imageCreateRequest st = l_image (locks st)"
  "w_generationActionRequests st = l_actions (locks st)"
  "w_readingRef st = l_readingRef (locks st)"
  "w_sending st = l_sending (locks st)"
  "w_imageSubmitting st = l_submitting (locks st)"
  "w_readingAttachments st = l_reading (locks st)"
  "w_sessionChanging st = l_changing (locks st)"
  "w_mounted st = l_mounted (locks st)"
  by (simp_all add: locks_def)

lemma locks_emit [simp]: "locks (ws_emit e st) = locks st" "locks (ws_emits es st) = locks st"
  by (simp_all add: ws_emit_def ws_emits_def locks_update)

lemma locks_request [simp]: "locks (snd (start_request p st)) = locks st" "locks (end_request n st) = locks st"
  by (simp_all add: start_request_def end_request_def locks_update)

lemma locks_workspace [simp]: "locks (update_workspace f st) = locks st"
  by (simp add: update_workspace_def locks_update split: option.split)

lemma locks_url [simp]: "locks (setSessionInUrl s b st) = locks st"
  by (simp add: setSessionInUrl_def locks_update)

lemma locks_release [simp]: "locks (release_references st) = locks st"
  by (simp add: release_references_def)

lemma locks_generation [simp]: "locks (updateGeneration g p s st) = locks st"
  by (simp add: updateGeneration_def)

lemma locks_metadata [simp]: "locks (refreshAgentSessionMetadata p s st) = locks st"
proof -
  have "locks (case start_request q x of (n, y) \<Rightarrow> y\<lparr>w_sessionMetadataRequest := Some n\<rparr>) = locks x" for q x
    using locks_request(1) [of q x] by (cases "start_request q x") (simp add: locks_update)
  then show ?thesis by (simp add: refreshAgentSessionMetadata_def)
qed

lemmas lock_simps = locks_update locks_select same_project_def own_session_def own_agent_def own_session_scope_def own_action_def

lemma locks_failed [simp]: "locks (load_failed p e st) = locks st" "locks (session_failed n p fb e st) = locks st"
  "locks (image_failed p s e st) = locks st" "locks (regenerate_failed n p s g e st) = locks st"
  by (simp_all add: load_failed_def session_failed_def image_failed_def regenerate_failed_def Let_def locks_update)

lemma locks_poll_end [simp]: "locks (poll_end n p s g r st) = locks st"
  by (simp add: poll_end_def Let_def locks_update split: sum.split)

lemma locks_poll [simp]: "locks (poll_reply n p s g a e r st) = locks st"
  by (simp add: poll_reply_def poll_again_def Let_def locks_update split: sum.split)

lemma locks_poll_step [simp]: "locks (poll_effect_step g st) = locks st"
proof -
  have "locks (case start_request q x of (n, y) \<Rightarrow> y\<lparr>w_generationRequests := h n y\<rparr>) = locks x" for q x h
    using locks_request(1) [of q x] by (cases "start_request q x") (simp add: locks_update)
  then show ?thesis by (simp add: poll_effect_step_def Let_def)
qed

lemma locks_poll_effect [simp]: "locks (poll_effect st) = locks st"
proof -
  have "locks (foldl (\<lambda>s g. poll_effect_step g s) x gs) = locks x" for x gs
    by (induction gs arbitrary: x) simp_all
  then show ?thesis by (simp add: poll_effect_def)
qed

lemma locks_load [simp]: "locks (load_start st) = locks st" "locks (load_reply n p i r st) = locks st"
proof -
  have "locks (case start_request q x of (n, y) \<Rightarrow> y) = locks x" for q x
    using locks_request(1) [of q x] by (cases "start_request q x") simp
  then show "locks (load_start st) = locks st" by (simp add: load_start_def locks_update)
  show "locks (load_reply n p i r st) = locks st"
    by (simp add: load_reply_def Let_def locks_update split: load_result.split sum.split)
qed

lemma locks_plain [simp]:
  "locks (metadata_reply n p s r st) = locks st" "locks (breakpoint_change b st) = locks st"
  "locks (selection_effect st) = locks st" "locks (models_effect lower st) = locks st"
  "locks (changeImageEngine lower e st) = locks st" "locks (updateDefault fld st) = locks st"
  "locks (default_reply n fld dr st) = locks st" "locks (removeAttachment i st) = locks st"
  "locks (removeImageReference i st) = locks st" "locks (closeResults st) = locks st"
  "locks (toggleResults st) = locks st" "locks (agent_event n p s k ev st) = locks st" "locks (render st) = locks st"
  by (simp_all add: metadata_reply_def breakpoint_change_def selection_effect_def models_effect_def changeImageEngine_def
      updateDefault_def default_reply_def removeAttachment_def removeImageReference_def closeResults_def toggleResults_def
      agent_event_def render_def Let_def locks_update split: sum.split option.split list.split)

lemma locks_references [simp]: "locks (addImageReferences lower fs st) = locks st"
  by (simp add: addImageReferences_def Let_def locks_update split: sum.split list.split)

section \<open>Operations that take or release a lock\<close>

lemmas lock_inv_defs = lock_inv_def exclusive_def flags_shown_def

lemma locks_start: "locks (case start_request p st of (n, y) \<Rightarrow> f n y) = locks (f (w_next st) (snd (start_request p st)))"
  by (simp add: start_request_def)

lemma locks_abort:
  "locks (abortSessionImageRequests st) = (locks st)\<lparr>l_actions := [], l_image := None\<rparr>"
  "locks (abortProjectRequests st) = (locks st)\<lparr>l_actions := [], l_image := None, l_agent := None, l_session := None\<rparr>"
  by (simp_all add: abortSessionImageRequests_def abortProjectRequests_def Let_def locks_update)

lemma locks_discard: "locks (discardWorkspaceDraft st) = (locks st)\<lparr>l_readingRef := False, l_reading := False\<rparr>"
  by (simp add: discardWorkspaceDraft_def Let_def locks_update)

lemma locks_enter:
  "locks (enter_session s x st) = (locks st)\<lparr>l_actions := [], l_image := None, l_readingRef := False, l_reading := False\<rparr>"
  by (simp add: enter_session_def locks_discard locks_abort locks_update)

lemma inv_project [inv_intros]: "lock_inv (locks (project_effect st))"
  by (simp add: project_effect_def Let_def locks_update locks_abort lock_inv_defs)

lemma inv_unmount [inv_intros]: "lock_inv (locks st) \<Longrightarrow> lock_inv (locks (unmount st))"
  by (simp add: unmount_def Let_def locks_update locks_abort lock_inv_defs)

lemma inv_begin: "lock_inv (locks st) \<Longrightarrow> \<not> session_blocked st \<Longrightarrow> lock_inv (locks (begin_session p c st))"
  by (simp add: begin_session_def locks_start lock_simps session_blocked_def lock_inv_defs)

lemma inv_session_start [inv_intros]:
  assumes "lock_inv (locks st)"
  shows "lock_inv (locks (switchSession s u st))" "lock_inv (locks (createSession st))" "lock_inv (locks (clearSession st))"
  using assms inv_begin by (auto simp: switchSession_def createSession_def clearSession_def locks_update)

lemma inv_confirmed [inv_intros]:
  assumes "lock_inv (locks st)"
  shows "lock_inv (locks (run_confirmed c st))" "lock_inv (locks (confirmDraftDiscard c st))"
  using assms by (auto simp: run_confirmed_def confirmDraftDiscard_def locks_update inv_session_start split: confirm.split)

lemma inv_requests [inv_intros]:
  assumes "lock_inv (locks st)"
  shows "lock_inv (locks (requestSessionSwitch s st))" "lock_inv (locks (requestNewSession st))"
    "lock_inv (locks (requestClearSession st))" "lock_inv (locks (confirm_ok st))" "lock_inv (locks (confirm_cancel st))"
  using assms by (auto simp: requestSessionSwitch_def requestNewSession_def requestClearSession_def confirm_ok_def
      confirm_cancel_def Let_def locks_update inv_confirmed split: option.split confirm.split)

lemma inv_url_effect [inv_intros]:
  assumes "lock_inv (locks st)"
  shows "lock_inv (locks (url_effect st))"
proof -
  define st1 where "st1 = (if w_pendingUrlSession st \<noteq> [] \<and> w_pendingUrlSession st \<noteq> w_requestedSessionId st
    then (ws_emits (abort_opt (w_sessionRequest st)) st)\<lparr>w_sessionConfirm := None, w_sessionRequest := None,
           w_pendingUrlSession := [], w_sessionChanging := None\<rparr> else st)"
  have i: "lock_inv (locks st1)" using assms by (auto simp: st1_def locks_update lock_inv_defs)
  then have "lock_inv (locks (confirmDraftDiscard c (st1\<lparr>w_pendingUrlSession := q\<rparr>)))" for c q
    by (intro inv_confirmed) (simp add: locks_update)
  then show ?thesis using assms i unfolding url_effect_def Let_def st1_def [symmetric] by simp
qed

text \<open>The end of a session operation: whatever its continuation did, its lock and flag are gone.\<close>

lemma inv_finish: "lock_inv (locks st) \<Longrightarrow> lock_inv (locks (finish_session n st))"
  by (auto simp: finish_session_def lock_simps lock_inv_defs)

lemma inv_enter: "lock_inv (locks st) \<Longrightarrow> w_sessionRequest st \<noteq> None \<Longrightarrow> lock_inv (locks (enter_session s x st))"
  by (auto simp: locks_enter lock_simps lock_inv_defs)

lemma inv_session_replies [inv_intros]:
  assumes "lock_inv (locks st)"
  shows "lock_inv (locks (switch_reply n p s u r st))" "lock_inv (locks (create_reply n p r st))"
    "lock_inv (locks (clear_reply n p s r st))"
proof -
  have e: "lock_inv (locks (enter_session q x (end_request n st)))" if "own_session n p (end_request n st)" for q x
    using that assms by (intro inv_enter) (auto simp: own_session_def)
  show "lock_inv (locks (switch_reply n p s u r st))" "lock_inv (locks (create_reply n p r st))"
    "lock_inv (locks (clear_reply n p s r st))"
    using assms e
    by (auto simp: switch_reply_def create_reply_def clear_reply_def Let_def locks_update split: sum.split intro!: inv_finish)
qed

lemma inv_attachments [inv_intros]:
  assumes "lock_inv (locks st)"
  shows "lock_inv (locks (addAttachments fs st))" "lock_inv (locks (attachments_reply lower n p e fs rs st))"
  using assms by (auto simp: addAttachments_def attachments_reply_def Let_def lock_simps lock_inv_defs split: sum.split)

lemma inv_send [inv_intros]:
  assumes "lock_inv (locks st)"
  shows "lock_inv (locks (sendMessage k t st))" "lock_inv (locks (agent_end n p s k c as f a st))"
  using assms by (auto simp: sendMessage_def agent_end_def Let_def locks_start lock_simps lock_inv_defs split: option.split)

lemma inv_image [inv_intros]:
  assumes "lock_inv (locks st)"
  shows "lock_inv (locks (submitImageGeneration lower st))" "lock_inv (locks (image_reply n p s refs r st))"
  using assms by (auto simp: submitImageGeneration_def image_reply_def Let_def locks_start lock_simps lock_inv_defs split: sum.split)

lemma inv_regenerate [inv_intros]:
  assumes "lock_inv (locks st)"
  shows "lock_inv (locks (regenerateGeneration g st))" "lock_inv (locks (regenerate_reply n p s g r st))"
  using assms by (auto simp: regenerateGeneration_def regenerate_reply_def Let_def locks_start lock_simps lock_inv_defs
      obj_delete_def split: sum.split)

lemma inv_reply [inv_intros]: "lock_inv (locks st) \<Longrightarrow> lock_inv (locks (ws_reply n r st))"
  by (auto simp: ws_reply_def intro: inv_intros split: option.split pending.split)

lemma inv_handle: "lock_inv (locks st) \<Longrightarrow> lock_inv (locks (ws_handle lower e st))"
  by (cases e) (auto simp: locks_update intro: inv_intros split: option.split pending.split)

interpretation ws_locks: state_machine "ws_step lower" "\<lambda>st. lock_inv (locks st)" for lower
  by unfold_locales (simp add: ws_step_def inv_handle)

end
