(* ===== verification/Workspace_Answers.thy ===== *)
theory Workspace_Answers
  imports Workspace_Requests Workspace_Locks
begin

text \<open>
  What the page still waits for. \<open>calls st\<close> is the table of continuations with the next free number;
  \<open>outstanding st\<close> bounds the answers that can still come: one for a request, one more where the answer may
  start another, and the attempts left for a request that polls. Every answer lowers it.
\<close>

section \<open>The table of requests\<close>

definition calls :: "ws_state \<Rightarrow> (nat \<Rightarrow> pending option) \<times> nat" where
  "calls st = (map_of (w_pending st), w_next st)"

lemma calls_same [simp]:
  "calls (st\<lparr>w_projectId := v_projectId\<rparr>) = calls st"
  "calls (st\<lparr>w_requestedSessionId := v_requestedSessionId\<rparr>) = calls st"
  "calls (st\<lparr>w_workspace := v_workspace\<rparr>) = calls st"
  "calls (st\<lparr>w_crashed := v_crashed\<rparr>) = calls st"
  "calls (st\<lparr>w_preference := v_preference\<rparr>) = calls st"
  "calls (st\<lparr>w_models := v_models\<rparr>) = calls st"
  "calls (st\<lparr>w_creationMode := v_creationMode\<rparr>) = calls st"
  "calls (st\<lparr>w_currentSkill := v_currentSkill\<rparr>) = calls st"
  "calls (st\<lparr>w_compactWorkspace := v_compactWorkspace\<rparr>) = calls st"
  "calls (st\<lparr>w_resultsOpen := v_resultsOpen\<rparr>) = calls st"
  "calls (st\<lparr>w_selectedGenerationId := v_selectedGenerationId\<rparr>) = calls st"
  "calls (st\<lparr>w_message := v_message\<rparr>) = calls st"
  "calls (st\<lparr>w_attachments := v_attachments\<rparr>) = calls st"
  "calls (st\<lparr>w_imagePrompt := v_imagePrompt\<rparr>) = calls st"
  "calls (st\<lparr>w_imageEngine := v_imageEngine\<rparr>) = calls st"
  "calls (st\<lparr>w_imageAspectRatio := v_imageAspectRatio\<rparr>) = calls st"
  "calls (st\<lparr>w_imageReferences := v_imageReferences\<rparr>) = calls st"
  "calls (st\<lparr>w_selectedImageModels := v_selectedImageModels\<rparr>) = calls st"
  "calls (st\<lparr>w_loading := v_loading\<rparr>) = calls st"
  "calls (st\<lparr>w_sending := v_sending\<rparr>) = calls st"
  "calls (st\<lparr>w_imageSubmitting := v_imageSubmitting\<rparr>) = calls st"
  "calls (st\<lparr>w_regeneratingIds := v_regeneratingIds\<rparr>) = calls st"
  "calls (st\<lparr>w_readingAttachments := v_readingAttachments\<rparr>) = calls st"
  "calls (st\<lparr>w_savingDefaults := v_savingDefaults\<rparr>) = calls st"
  "calls (st\<lparr>w_sessionChanging := v_sessionChanging\<rparr>) = calls st"
  "calls (st\<lparr>w_mounted := v_mounted\<rparr>) = calls st"
  "calls (st\<lparr>w_generationRequests := v_generationRequests\<rparr>) = calls st"
  "calls (st\<lparr>w_generationActionRequests := v_generationActionRequests\<rparr>) = calls st"
  "calls (st\<lparr>w_imageCreateRequest := v_imageCreateRequest\<rparr>) = calls st"
  "calls (st\<lparr>w_agentRequest := v_agentRequest\<rparr>) = calls st"
  "calls (st\<lparr>w_sessionRequest := v_sessionRequest\<rparr>) = calls st"
  "calls (st\<lparr>w_sessionMetadataRequest := v_sessionMetadataRequest\<rparr>) = calls st"
  "calls (st\<lparr>w_sessionConfirm := v_sessionConfirm\<rparr>) = calls st"
  "calls (st\<lparr>w_pendingUrlSession := v_pendingUrlSession\<rparr>) = calls st"
  "calls (st\<lparr>w_readingRef := v_readingRef\<rparr>) = calls st"
  "calls (st\<lparr>w_attachmentReadEpoch := v_attachmentReadEpoch\<rparr>) = calls st"
  "calls (st\<lparr>w_preferenceUpdates := v_preferenceUpdates\<rparr>) = calls st"
  "calls (st\<lparr>w_activeSessionIdRef := v_activeSessionIdRef\<rparr>) = calls st"
  "calls (st\<lparr>w_out := v_out\<rparr>) = calls st"
  by (simp_all add: calls_def)

lemma calls_emit [simp]: "calls (ws_emit e st) = calls st" "calls (ws_emits es st) = calls st"
  "calls (update_workspace f st) = calls st" "calls (setSessionInUrl s b st) = calls st"
  "calls (release_references st) = calls st" "calls (updateGeneration g p s st) = calls st"
  by (simp_all add: ws_emit_def ws_emits_def update_workspace_def setSessionInUrl_def release_references_def
      updateGeneration_def split: option.split)

definition add_call :: "pending \<Rightarrow> (nat \<Rightarrow> pending option) \<times> nat \<Rightarrow> (nat \<Rightarrow> pending option) \<times> nat" where
  "add_call p c = ((fst c)(snd c \<mapsto> p), Suc (snd c))"

definition end_call :: "nat \<Rightarrow> (nat \<Rightarrow> pending option) \<times> nat \<Rightarrow> (nat \<Rightarrow> pending option) \<times> nat" where
  "end_call n c = ((fst c)(n := None), snd c)"

lemma calls_start [simp]: "calls (snd (start_request p st)) = add_call p (calls st)"
  by (simp add: start_request_def calls_def add_call_def)

lemma calls_start_pair [simp]: "(\<And>n y. calls (f n y) = calls y) \<Longrightarrow>
    calls (case start_request p st of (n, y) \<Rightarrow> f n y) = add_call p (calls st)"
  by (simp add: case_prod_unfold)

lemma calls_end [simp]: "calls (end_request n st) = end_call n (calls st)"
  using reqs_end [of n st] by (simp add: calls_def end_call_def reqs_select)

lemma calls_aborts [simp]:
  "calls (abortSessionImageRequests st) = calls st" "calls (abortProjectRequests st) = calls st"
  "calls (discardWorkspaceDraft st) = calls st" "calls (enter_session s x st) = calls st"
  "calls (finish_session n st) = calls st" "calls (session_failed n p fb e st) = calls st"
  "calls (load_failed p e st) = calls st" "calls (image_failed p s e st) = calls st"
  "calls (regenerate_failed n p s g e st) = calls st"
  by (simp_all add: abortSessionImageRequests_def abortProjectRequests_def discardWorkspaceDraft_def enter_session_def
      finish_session_def session_failed_def load_failed_def image_failed_def regenerate_failed_def Let_def)

lemma calls_metadata [simp]: "calls (refreshAgentSessionMetadata p s st) = add_call (P_metadata p s) (calls st)"
  by (simp add: refreshAgentSessionMetadata_def)

section \<open>What each answer does to it\<close>

lemma calls_session_replies:
  "calls (switch_reply n p s u r st) = end_call n (calls st)" "calls (create_reply n p r st) = end_call n (calls st)"
  "calls (clear_reply n p s r st) = end_call n (calls st)" "calls (metadata_reply n p s r st) = end_call n (calls st)"
  by (simp_all add: switch_reply_def create_reply_def clear_reply_def metadata_reply_def Let_def split: sum.split)

lemma calls_other_replies:
  "calls (default_reply n f dr st) = end_call n (calls st)"
  "calls (attachments_reply lower n p e fs rs st) = end_call n (calls st)"
  "calls (agent_end n p s k c as failed a st) = end_call n (calls st)"
  "calls (poll_end n p s g pr st) = end_call n (calls st)"
  by (simp_all add: default_reply_def attachments_reply_def agent_end_def poll_end_def Let_def split: sum.split option.split)

lemma calls_image_replies:
  "calls (image_reply n p s refs r st) \<in> {end_call n (calls st), add_call (P_metadata p s) (end_call n (calls st))}"
  "calls (regenerate_reply n p s g r st) \<in> {end_call n (calls st), add_call (P_metadata p s) (end_call n (calls st))}"
  by (simp_all add: image_reply_def regenerate_reply_def Let_def split: sum.split)

lemma calls_load_reply:
  "calls (load_reply n p i r st) = end_call n (calls st) \<or>
   i \<noteq> [] \<and> calls (load_reply n p i r st) = add_call (P_load p []) (end_call n (calls st))"
  by (simp add: load_reply_def Let_def split: load_result.split sum.split)

definition set_call :: "nat \<Rightarrow> pending \<Rightarrow> (nat \<Rightarrow> pending option) \<times> nat \<Rightarrow> (nat \<Rightarrow> pending option) \<times> nat" where
  "set_call n p c = ((fst c)(n \<mapsto> p), snd c)"

lemma calls_attempt: "map_of (w_pending st) n \<noteq> None \<Longrightarrow> calls (next_attempt n p st) = set_call n p (calls st)"
  by (auto simp: calls_def set_call_def map_of_next_attempt fun_eq_iff) (simp add: next_attempt_def)

lemma calls_poll_again:
  assumes "map_of (w_pending st) n \<noteq> None"
  shows "calls (poll_again n pid sid gid a e st) =
     (if a + 1 < maxAttempts then set_call n (P_poll pid sid gid (a + 1) e) (calls st) else end_call n (calls st))"
proof (cases "a + 1 < maxAttempts")
  case True
  then have "poll_again n pid sid gid a e st = next_attempt n (P_poll pid sid gid (a + 1) e) st"
    unfolding poll_again_def next_attempt_def by (simp only: if_True)
  then show ?thesis using True calls_attempt [OF assms] by simp
qed (simp add: poll_again_def calls_other_replies)

lemma calls_poll:
  assumes "map_of (w_pending st) n \<noteq> None"
  shows "calls (poll_reply n pid sid gid a e r st) = end_call n (calls st) \<or>
     (\<exists>e'. a + 1 < maxAttempts \<and> calls (poll_reply n pid sid gid a e r st) = set_call n (P_poll pid sid gid (a + 1) e') (calls st))"
  using assms calls_poll_again [of _ n pid sid gid a]
  by (auto simp: poll_reply_def Let_def pending_generation calls_other_replies split: sum.split)

section \<open>Answers that are still to come\<close>

fun weight :: "pending \<Rightarrow> nat" where
  "weight (P_load pid i) = (if i = [] then 1 else 2)"
| "weight (P_image pid sid refs) = 2"
| "weight (P_regenerate pid sid gid) = 2"
| "weight (P_poll pid sid gid a e) = maxAttempts - a"
| "weight _ = 1"

definition weight_at :: "(nat \<Rightarrow> pending option) \<Rightarrow> nat \<Rightarrow> nat" where
  "weight_at m n = (case m n of Some p \<Rightarrow> weight p | None \<Rightarrow> 0)"

definition call_total :: "(nat \<Rightarrow> pending option) \<times> nat \<Rightarrow> nat" where
  "call_total c = (\<Sum>n < snd c. weight_at (fst c) n)"

definition outstanding :: "ws_state \<Rightarrow> nat" where
  "outstanding st = call_total (calls st)"

lemma total_change:
  assumes "n < k"
  shows "call_total (m(n := x), k) + weight_at m n = call_total (m, k) + (case x of Some p \<Rightarrow> weight p | None \<Rightarrow> 0)"
proof -
  have "(\<Sum>i \<in> {..<k} - {n}. weight_at (m(n := x)) i) = (\<Sum>i \<in> {..<k} - {n}. weight_at m i)"
    by (rule sum.cong) (auto simp: weight_at_def)
  then show ?thesis using assms
    by (simp add: call_total_def sum.remove [of "{..<k}" n] weight_at_def)
qed

lemma total_add: "call_total (add_call p c) = call_total c + weight p"
proof -
  have "(\<Sum>i < snd c. weight_at ((fst c)(snd c \<mapsto> p)) i) = (\<Sum>i < snd c. weight_at (fst c) i)"
    by (rule sum.cong) (auto simp: weight_at_def)
  then show ?thesis by (simp add: call_total_def add_call_def weight_at_def)
qed

lemma total_end: "n < snd c \<Longrightarrow> fst c n = Some p \<Longrightarrow> call_total (end_call n c) + weight p = call_total c"
  using total_change [of n "snd c" "fst c" None] by (simp add: end_call_def weight_at_def)

lemma total_set: "n < snd c \<Longrightarrow> fst c n = Some p \<Longrightarrow> call_total (set_call n p' c) + weight p = call_total c + weight p'"
  using total_change [of n "snd c" "fst c" "Some p'"] by (simp add: set_call_def weight_at_def)

text \<open>The events that answer request \<open>n\<close>, whose continuation is \<open>p\<close>.\<close>

fun answers :: "nat \<Rightarrow> pending \<Rightarrow> ws_event \<Rightarrow> bool" where
  "answers n (P_load pid i) e = (\<exists>r. e = Load_reply n r)"
| "answers n (P_default f) e = (\<exists>r. e = Default_reply n r)"
| "answers n (P_attachments pid ep fs) e = (\<exists>r. e = Attachments_reply n r)"
| "answers n (P_agent pid sid key c as) e = (\<exists>failed aborted. e = Stream_end n failed aborted)"
| "answers n p e = (\<exists>r. e = Reply n r)"

definition answered_by :: "ws_event \<Rightarrow> ws_state \<Rightarrow> bool" where
  "answered_by e st \<longleftrightarrow> (\<exists>n p. map_of (w_pending st) n = Some p \<and> answers n p e)"

fun answers_only :: "unicode_map \<Rightarrow> ws_event list \<Rightarrow> ws_state \<Rightarrow> bool" where
  "answers_only lower [] st = True"
| "answers_only lower (e # es) st = (answered_by e st \<and> answers_only lower es (ws_step lower e st))"

lemma calls_render [simp]: "calls (ws_step lower e st) = calls (ws_handle lower e st)"
  by (simp add: ws_step_def render_def)

lemma answer_lowers:
  assumes "settled st" "answered_by e st"
  shows "outstanding (ws_step lower e st) < outstanding st"
proof -
  obtain n p where p: "map_of (w_pending st) n = Some p" "answers n p e" using assms(2) by (auto simp: answered_by_def)
  then have b: "n < w_next st" "poll_bound p" using assms(1) by (auto simp: upheld_def backed_def reqs_select)
  let ?c = "calls st"
  have "n < snd ?c" "fst ?c n = Some p" using p(1) b(1) by (simp_all add: calls_def)
  then have t: "call_total (end_call n ?c) + weight p = call_total ?c"
    "\<And>p'. call_total (set_call n p' ?c) + weight p = call_total ?c + weight p'"
    using total_end total_set by blast+
  show ?thesis
  proof (cases p)
    case (P_load pid i)
    then obtain r where "e = Load_reply n r" using p(2) by auto
    then show ?thesis using P_load p(1) t(1) calls_load_reply [of n pid i r st]
      by (auto simp: outstanding_def total_add split: if_splits)
  next
    case (P_image pid sid refs)
    then obtain r where "e = Reply n r" using p(2) by auto
    then show ?thesis using P_image p(1) t(1) calls_image_replies(1) [of n pid sid refs r st]
      by (auto simp: outstanding_def ws_reply_def total_add)
  next
    case (P_regenerate pid sid gid)
    then obtain r where "e = Reply n r" using p(2) by auto
    then show ?thesis using P_regenerate p(1) t(1) calls_image_replies(2) [of n pid sid gid r st]
      by (auto simp: outstanding_def ws_reply_def total_add)
  next
    case (P_poll pid sid gid a er)
    then obtain r where "e = Reply n r" using p(2) by auto
    then have c: "calls (ws_step lower e st) = calls (poll_reply n pid sid gid a er r st)"
      using P_poll p(1) by (simp add: ws_reply_def)
    have a: "a < maxAttempts" "weight p = maxAttempts - a" using b(2) P_poll by simp_all
    from p(1) have "map_of (w_pending st) n \<noteq> None" by simp
    from calls_poll [OF this, of pid sid gid a er r] show ?thesis
    proof (elim disjE exE conjE)
      assume "calls (poll_reply n pid sid gid a er r st) = end_call n ?c"
      then show ?thesis using t(1) a c by (simp add: outstanding_def)
    next
      fix e' assume "calls (poll_reply n pid sid gid a er r st) = set_call n (P_poll pid sid gid (a + 1) e') ?c"
      then show ?thesis using t(2) [of "P_poll pid sid gid (a + 1) e'"] a c by (simp add: outstanding_def)
    qed
  qed (use p t(1) in \<open>auto simp: outstanding_def ws_reply_def calls_session_replies calls_other_replies\<close>)
qed

lemma answers_bound:
  "settled st \<Longrightarrow> answers_only lower es st \<Longrightarrow> length es + outstanding (fold (ws_step lower) es st) \<le> outstanding st"
proof (induction es arbitrary: st)
  case (Cons e es)
  have "settled (ws_step lower e st)" using Cons.prems(1) by (rule ws_requests.step_inv)
  with Cons answer_lowers [of st e lower] show ?case by fastforce
qed simp

text \<open>Nothing is locked, and a mounted page shows neither a spinner nor a busy control.\<close>

definition idle :: "ws_state \<Rightarrow> bool" where
  "idle st \<longleftrightarrow> w_sessionRequest st = None \<and> w_agentRequest st = None \<and> w_imageCreateRequest st = None \<and>
     w_generationActionRequests st = [] \<and> w_generationRequests st = [] \<and> w_preferenceUpdates st = [] \<and>
     (w_mounted st \<longrightarrow> \<not> w_loading st \<and> \<not> w_sending st \<and> \<not> w_imageSubmitting st \<and> \<not> w_readingAttachments st \<and>
        w_sessionChanging st = None)"

lemma empty_calls_idle:
  assumes "settled st" "lock_inv (locks st)" "\<And>n. map_of (w_pending st) n = None"
  shows "idle st"
proof -
  have h: "\<not> held (map_of (w_pending st)) P n" "\<not> waits_for (map_of (w_pending st)) P" for P n
    by (simp_all add: held_def waits_for_def assms(3))
  have b: "backed (map_of (w_pending st)) (reqs st)" using assms(1) by (simp add: upheld_def)
  have e: "(\<And>k n. map_of xs k \<noteq> Some n) \<Longrightarrow> xs = []" for xs :: "(jstring \<times> nat) list"
    by (metis list.set_intros(1) map_of_eq_None_iff not_None_eq image_eqI neq_Nil_conv)
  have "w_sessionRequest st \<noteq> Some n" "w_agentRequest st \<noteq> Some n" "w_imageCreateRequest st \<noteq> Some n"
    "map_of (w_generationActionRequests st) k \<noteq> Some n" "map_of (w_generationRequests st) k \<noteq> Some n" for k n
    using b by (simp_all add: backed_def reqs_def h)
  then have "w_sessionRequest st = None" "w_agentRequest st = None" "w_imageCreateRequest st = None"
    "w_generationActionRequests st = []" "w_generationRequests st = []"
    using e by (metis not_None_eq)+
  moreover have "w_preferenceUpdates st = []" "\<not> (w_mounted st \<and> w_readingRef st)" "\<not> (w_mounted st \<and> w_loading st)"
    using b by (simp_all add: backed_def reqs_def h)
  ultimately show ?thesis using assms(2) by (auto simp: idle_def lock_inv_defs locks_def)
qed

lemma outstanding_none:
  assumes "settled st" "outstanding st = 0"
  shows "map_of (w_pending st) n = None"
proof (cases "map_of (w_pending st) n")
  case (Some p)
  then have b: "n < w_next st" "poll_bound p" using assms(1) by (auto simp: upheld_def backed_def reqs_select)
  have "weight p > 0" using b(2) by (cases p) simp_all
  then show ?thesis using assms(2) b(1) Some
    by (auto simp: outstanding_def call_total_def calls_def weight_at_def sum_eq_0_iff split: option.splits)
qed

section \<open>Other events leave a request alone\<close>

text \<open>\<open>grows m c c'\<close>: of the requests of \<open>c\<close> only \<open>m\<close> may have changed; new ones have new numbers.\<close>

definition grows :: "nat option \<Rightarrow> (nat \<Rightarrow> pending option) \<times> nat \<Rightarrow> (nat \<Rightarrow> pending option) \<times> nat \<Rightarrow> bool" where
  "grows m c c' \<longleftrightarrow> (\<forall>n < snd c. m \<noteq> Some n \<longrightarrow> fst c' n = fst c n) \<and> snd c \<le> snd c'"

lemma grows_intros: "grows m c c" "grows m c (add_call p c)" "grows (Some n) c (end_call n c)" "grows (Some n) c (set_call n p c)"
  "grows m c c' \<Longrightarrow> grows m c (add_call p c')"
  by (auto simp: grows_def add_call_def end_call_def set_call_def)

lemma grows_trans: "grows m c c' \<Longrightarrow> grows m c' c'' \<Longrightarrow> grows m c c''"
  by (auto simp: grows_def)

lemma calls_session_start:
  "calls (switchSession s u st) = calls st \<or> (\<exists>p. calls (switchSession s u st) = add_call p (calls st))"
  "calls (createSession st) = calls st \<or> (\<exists>p. calls (createSession st) = add_call p (calls st))"
  "calls (clearSession st) = calls st \<or> (\<exists>p. calls (clearSession st) = add_call p (calls st))"
  by (auto simp: switchSession_def createSession_def clearSession_def begin_session_def)

lemma grows_confirmed: "grows m (calls st) (calls (run_confirmed c st))"
proof -
  have "c' = calls st \<or> (\<exists>p. c' = add_call p (calls st)) \<Longrightarrow> grows m (calls st) c'" for c'
    by (auto intro: grows_intros)
  then show ?thesis using calls_session_start by (auto simp: run_confirmed_def split: confirm.split)
qed

lemma grows_discard: "grows m (calls st) (calls (confirmDraftDiscard c st))"
  by (simp add: confirmDraftDiscard_def grows_confirmed grows_intros)

lemma grows_requests:
  "grows m (calls st) (calls (requestSessionSwitch s st))" "grows m (calls st) (calls (requestNewSession st))"
  "grows m (calls st) (calls (requestClearSession st))" "grows m (calls st) (calls (confirm_ok st))"
  "grows m (calls st) (calls (confirm_cancel st))"
  by (simp_all add: requestSessionSwitch_def requestNewSession_def requestClearSession_def confirm_ok_def confirm_cancel_def
      Let_def grows_confirmed grows_discard grows_intros split: option.split confirm.split)

lemma grows_url: "grows m (calls st) (calls (url_effect st))"
proof -
  define st1 where "st1 = (if w_pendingUrlSession st \<noteq> [] \<and> w_pendingUrlSession st \<noteq> w_requestedSessionId st
    then (ws_emits (abort_opt (w_sessionRequest st)) st)\<lparr>w_sessionConfirm := None, w_sessionRequest := None,
           w_pendingUrlSession := [], w_sessionChanging := None\<rparr> else st)"
  have i: "calls st1 = calls st" by (simp add: st1_def)
  have "grows m (calls st) (calls (confirmDraftDiscard c (st1\<lparr>w_pendingUrlSession := q\<rparr>)))" for c q
    using grows_discard [of m "st1\<lparr>w_pendingUrlSession := q\<rparr>" c] by (simp add: i)
  then show ?thesis unfolding url_effect_def Let_def st1_def [symmetric] by (simp add: i grows_intros)
qed

lemma grows_poll_effect: "grows m (calls st) (calls (poll_effect st))"
proof -
  have s: "grows m (calls x) (calls (poll_effect_step g x))" for g x
    by (simp add: poll_effect_step_def Let_def grows_intros)
  have "grows m (calls x) (calls (foldl (\<lambda>s g. poll_effect_step g s) x gs))" for gs x
  proof (induction gs arbitrary: x)
    case (Cons g gs)
    show ?case using grows_trans [OF s Cons.IH] by simp
  qed (simp add: grows_intros)
  then show ?thesis by (simp add: poll_effect_def grows_intros)
qed

lemma grows_user:
  "grows m (calls st) (calls (load_start st))" "grows m (calls st) (calls (project_effect st))" "grows m (calls st) (calls (unmount st))"
  "grows m (calls st) (calls (updateDefault f st))" "grows m (calls st) (calls (addAttachments fs st))"
  "grows m (calls st) (calls (sendMessage key now st))" "grows m (calls st) (calls (submitImageGeneration lower st))"
  "grows m (calls st) (calls (regenerateGeneration gid st))" "grows m (calls st) (calls (agent_event n pid sid key ev st))"
  by (simp_all add: load_start_def project_effect_def unmount_def updateDefault_def addAttachments_def sendMessage_def
      submitImageGeneration_def regenerateGeneration_def agent_event_def Let_def grows_intros)

lemma calls_plain [simp]:
  "calls (breakpoint_change b st) = calls st" "calls (selection_effect st) = calls st" "calls (models_effect lower st) = calls st"
  "calls (changeImageEngine lower e st) = calls st" "calls (removeAttachment i st) = calls st"
  "calls (removeImageReference i st) = calls st" "calls (closeResults st) = calls st" "calls (toggleResults st) = calls st"
  "calls (addImageReferences lower rs st) = calls st"
  by (simp_all add: breakpoint_change_def selection_effect_def models_effect_def changeImageEngine_def removeAttachment_def
      removeImageReference_def closeResults_def toggleResults_def addImageReferences_def Let_def
      split: sum.split option.split list.split)

fun target :: "ws_event \<Rightarrow> nat option" where
  "target (Load_reply n r) = Some n"
| "target (Reply n r) = Some n"
| "target (Default_reply n dr) = Some n"
| "target (Attachments_reply n rs) = Some n"
| "target (Stream_end n failed aborted) = Some n"
| "target _ = None"

lemma grows_replies:
  "grows (Some n) (calls st) (calls (load_reply n p i lr st))"
  "grows (Some n) (calls st) (calls (image_reply n p s refs r st))"
  "grows (Some n) (calls st) (calls (regenerate_reply n p s g r st))"
  "map_of (w_pending st) n \<noteq> None \<Longrightarrow> grows (Some n) (calls st) (calls (poll_reply n p s g a e r st))"
proof -
  show "grows (Some n) (calls st) (calls (load_reply n p i lr st))"
    using calls_load_reply [of n p i lr st] by (auto simp: grows_intros)
  show "grows (Some n) (calls st) (calls (image_reply n p s refs r st))"
    "grows (Some n) (calls st) (calls (regenerate_reply n p s g r st))"
    using calls_image_replies [of n p s] by (metis empty_iff grows_intros(3,5) insert_iff)+
  show "map_of (w_pending st) n \<noteq> None \<Longrightarrow> grows (Some n) (calls st) (calls (poll_reply n p s g a e r st))"
    using calls_poll [of st n p s g a e r] by (auto simp: grows_intros)
qed

lemma grows_reply: "grows (Some n) (calls st) (calls (ws_reply n r st))"
  by (auto simp: ws_reply_def calls_session_replies grows_replies grows_intros split: option.split pending.split)

lemma grows_handle: "grows (target e) (calls st) (calls (ws_handle lower e st))"
proof (cases e)
  case (Navigate pid sid)
  then show ?thesis
    using grows_trans [OF grows_user(2) grows_user(1), of None "st\<lparr>w_projectId := pid, w_requestedSessionId := sid\<rparr>"] by simp
next
  case (Set_image_model m)
  then show ?thesis using grows_user(4) [of None "st\<lparr>w_selectedImageModels := (w_selectedImageModels st)(w_imageEngine st := m)\<rparr>"]
    by simp
qed (simp_all add: grows_user grows_url grows_poll_effect grows_requests grows_reply grows_replies calls_other_replies grows_intros
    split: option.split pending.split)

section \<open>Polling ends\<close>

fun is_poll :: "pending option \<Rightarrow> bool" where
  "is_poll (Some (P_poll pid sid gid a e)) = True"
| "is_poll _ = False"

definition counted :: "nat \<Rightarrow> ws_event \<Rightarrow> ws_state \<Rightarrow> nat" where
  "counted n e st = (case e of Reply m r \<Rightarrow> if m = n \<and> is_poll (map_of (w_pending st) n) then 1 else 0 | _ \<Rightarrow> 0)"

lemma counted_0: "(\<And>r. e = Reply n r \<Longrightarrow> \<not> is_poll (map_of (w_pending st) n)) \<Longrightarrow> counted n e st = 0"
  by (cases e) (auto simp: counted_def)

text \<open>The answers that a run gives to request \<open>n\<close> while it polls.\<close>

fun polled :: "unicode_map \<Rightarrow> nat \<Rightarrow> ws_event list \<Rightarrow> ws_state \<Rightarrow> nat" where
  "polled lower n [] st = 0"
| "polled lower n (e # es) st =
     counted n e st +
     polled lower n es (ws_step lower e st)"

definition attempts_left :: "nat \<Rightarrow> (nat \<Rightarrow> pending option) \<times> nat \<Rightarrow> nat" where
  "attempts_left n c = (if snd c \<le> n then maxAttempts
     else case fst c n of Some (P_poll pid sid gid a e) \<Rightarrow> maxAttempts - a | _ \<Rightarrow> 0)"

lemma attempts_le: "attempts_left n c \<le> maxAttempts"
  by (simp add: attempts_left_def split: option.split pending.split)

lemma answered_call:
  assumes "target e = Some n" "n < snd (calls st)" "\<And>r. e = Reply n r \<Longrightarrow> \<not> is_poll (map_of (w_pending st) n)"
  shows "fst (calls (ws_handle lower e st)) n = fst (calls st) n \<or>
    fst (calls (ws_handle lower e st)) n = None \<and> \<not> is_poll (map_of (w_pending st) n)"
proof -
  have d: "fst (end_call n c) n = None" "n < snd c \<Longrightarrow> fst (add_call p (end_call n c)) n = None" for c p
    by (simp_all add: end_call_def add_call_def)
  have l: "fst (calls (load_reply n p i lr st)) n = None" for p i lr
    using calls_load_reply [of n p i lr st] d assms(2) by metis
  have m: "fst (calls (image_reply n p s refs r st)) n = None" "fst (calls (regenerate_reply n p s g r st)) n = None" for p s refs g r
    using calls_image_replies [of n p s _ r st] d assms(2) by (metis empty_iff insert_iff)+
  have r: "fst (calls (ws_reply n r st)) n = fst (calls st) n \<or>
    fst (calls (ws_reply n r st)) n = None \<and> \<not> is_poll (map_of (w_pending st) n)" if "\<not> is_poll (map_of (w_pending st) n)" for r
    using that by (auto simp: ws_reply_def calls_session_replies d m split: option.split pending.split)
  show ?thesis using assms(1,3) r l
    by (cases e) (auto simp: calls_other_replies d split: option.split pending.split)
qed

lemma attempts_step:
  assumes "settled st"
  shows "counted n e st +
     attempts_left n (calls (ws_step lower e st)) \<le> attempts_left n (calls st)"
proof -
  let ?c = "calls st" and ?c' = "calls (ws_handle lower e st)"
  have g: "grows (target e) ?c ?c'" by (rule grows_handle)
  have b: "map_of (w_pending st) k = Some p \<Longrightarrow> k < w_next st \<and> poll_bound p" for k p
    using assms by (auto simp: upheld_def backed_def reqs_select)
  consider (new) "snd ?c \<le> n" | (poll) r where "n < snd ?c" "e = Reply n r" "is_poll (map_of (w_pending st) n)"
    | (same) "n < snd ?c" "fst ?c' n = fst ?c n" "\<And>r. e = Reply n r \<Longrightarrow> \<not> is_poll (map_of (w_pending st) n)"
    | (gone) "n < snd ?c" "fst ?c' n = None" "\<not> is_poll (map_of (w_pending st) n)"
    using answered_call [of e n st lower] g unfolding grows_def by (metis not_less)
  then show ?thesis
  proof cases
    case new
    then have "map_of (w_pending st) n = None" using b [of n] by (cases "map_of (w_pending st) n") (auto simp: calls_def)
    then show ?thesis using new attempts_le [of n ?c'] by (simp add: attempts_left_def [of n ?c] counted_0)
  next
    case poll
    then obtain pid sid gid a er where p: "map_of (w_pending st) n = Some (P_poll pid sid gid a er)"
      by (auto elim: is_poll.elims)
    have "?c' = end_call n ?c \<or> (\<exists>e'. a + 1 < maxAttempts \<and> ?c' = set_call n (P_poll pid sid gid (a + 1) e') ?c)"
      using p poll(2) calls_poll [of st n pid sid gid a er r] by (simp add: ws_reply_def)
    moreover have "fst ?c n = Some (P_poll pid sid gid a er)" using p by (simp add: calls_def)
    ultimately show ?thesis using poll b [OF p]
      by (auto simp: counted_def attempts_left_def end_call_def set_call_def)
  next
    case same
    then have "attempts_left n ?c' = attempts_left n ?c" using g by (simp add: attempts_left_def grows_def)
    then show ?thesis using counted_0 [OF same(3)] by simp
  next
    case gone
    then show ?thesis using g by (auto simp: attempts_left_def grows_def counted_0)
  qed
qed

lemma polled_bound: "settled st \<Longrightarrow> polled lower n es st \<le> attempts_left n (calls st)"
proof (induction es arbitrary: st)
  case (Cons e es)
  have "settled (ws_step lower e st)" using Cons.prems by (rule ws_requests.step_inv)
  from Cons.IH [OF this] attempts_step [OF Cons.prems, of n e lower] show ?case by simp
qed simp

end
