(* ===== verification/Workspace_Protocol.thy ===== *)
theory Workspace_Protocol
  imports Workspace_Locks
begin

text \<open>
  What the refs of the workspace are for, as a specification: a set of locks, of which one may be taken
  when it conflicts with none that is held, and any may be given back. \<open>lockset\<close> reads the locks held
  off the state; every event of the page is a sequence of such steps.
\<close>

datatype ws_lock = Session_lock | Agent_lock | Image_lock | Reading_lock | Action_lock jstring

fun conflicts :: "ws_lock \<Rightarrow> ws_lock \<Rightarrow> bool" where
  "conflicts Session_lock l = True"
| "conflicts l Session_lock = True"
| "conflicts Agent_lock l = (l \<in> {Agent_lock, Image_lock, Reading_lock})"
| "conflicts l Agent_lock = (l \<in> {Image_lock, Reading_lock})"
| "conflicts l l' = (l = l')"

inductive lock_step :: "ws_lock set \<Rightarrow> ws_lock set \<Rightarrow> bool" where
  acquire: "\<forall>h \<in> H. \<not> conflicts l h \<Longrightarrow> lock_step H (insert l H)"
| release: "H' \<subseteq> H \<Longrightarrow> lock_step H H'"

definition compatible :: "ws_lock set \<Rightarrow> bool" where
  "compatible H \<longleftrightarrow> (\<forall>a \<in> H. \<forall>b \<in> H. a \<noteq> b \<longrightarrow> \<not> conflicts a b)"

lemma conflicts_sym: "conflicts a b = conflicts b a"
  by (cases a; cases b) auto

lemma lock_step_compatible: "lock_step H H' \<Longrightarrow> compatible H \<Longrightarrow> compatible H'"
  by (induction rule: lock_step.induct) (auto simp: compatible_def conflicts_sym)

definition lockset :: "lock_view \<Rightarrow> ws_lock set" where
  "lockset l = (if l_session l \<noteq> None then {Session_lock} else {}) \<union> (if l_agent l \<noteq> None then {Agent_lock} else {}) \<union>
     (if l_image l \<noteq> None then {Image_lock} else {}) \<union> (if l_readingRef l then {Reading_lock} else {}) \<union>
     Action_lock ` fst ` set (l_actions l)"

lemma lockset_flags [simp]:
  "lockset (l\<lparr>l_sending := b\<rparr>) = lockset l" "lockset (l\<lparr>l_submitting := b\<rparr>) = lockset l"
  "lockset (l\<lparr>l_reading := b\<rparr>) = lockset l" "lockset (l\<lparr>l_changing := c\<rparr>) = lockset l"
  by (simp_all add: lockset_def)

lemma lockset_clear [simp]:
  "lockset (l\<lparr>l_session := None\<rparr>) \<subseteq> lockset l" "lockset (l\<lparr>l_agent := None\<rparr>) \<subseteq> lockset l"
  "lockset (l\<lparr>l_image := None\<rparr>) \<subseteq> lockset l" "lockset (l\<lparr>l_readingRef := False\<rparr>) \<subseteq> lockset l"
  "lockset (l\<lparr>l_actions := obj_delete k (l_actions l)\<rparr>) \<subseteq> lockset l"
  by (auto simp: lockset_def obj_delete_def)

abbreviation sim :: "ws_state \<Rightarrow> ws_state \<Rightarrow> bool" where
  "sim st st' \<equiv> lock_step\<^sup>*\<^sup>* (lockset (locks st)) (lockset (locks st'))"

lemma sim_same: "locks st' = locks st \<Longrightarrow> sim st st'"
  by simp

lemma sim_release: "lockset (locks st') \<subseteq> lockset (locks st) \<Longrightarrow> sim st st'"
  by (rule r_into_rtranclp) (rule release)

lemma sim_acquire:
  "lockset (locks st') = insert l (lockset (locks st)) \<Longrightarrow> \<forall>h \<in> lockset (locks st). \<not> conflicts l h \<Longrightarrow> sim st st'"
  using acquire [of "lockset (locks st)" l] by simp

lemma sim_take:
  "l_session l = None \<Longrightarrow> l_agent l = None \<Longrightarrow> \<not> l_readingRef l \<Longrightarrow>
     lock_step\<^sup>*\<^sup>* (lockset l) (lockset (l\<lparr>l_readingRef := True\<rparr>))"
  "l_session l = None \<Longrightarrow> l_agent l = None \<Longrightarrow> l_image l = None \<Longrightarrow> \<not> l_readingRef l \<Longrightarrow>
     lock_step\<^sup>*\<^sup>* (lockset l) (lockset (l\<lparr>l_agent := Some n\<rparr>))"
  "l_session l = None \<Longrightarrow> l_agent l = None \<Longrightarrow> l_image l = None \<Longrightarrow>
     lock_step\<^sup>*\<^sup>* (lockset l) (lockset (l\<lparr>l_image := Some n\<rparr>))"
  "l_session l = None \<Longrightarrow> k \<notin> fst ` set (l_actions l) \<Longrightarrow>
     lock_step\<^sup>*\<^sup>* (lockset l) (lockset (l\<lparr>l_actions := obj_set k n (l_actions l)\<rparr>))"
proof -
  have *: "lock_step\<^sup>*\<^sup>* H H'" if "H' = insert x H" "\<forall>h \<in> H. \<not> conflicts x h" for x H H'
    using acquire [of H x] that by simp
  show "l_session l = None \<Longrightarrow> l_agent l = None \<Longrightarrow> \<not> l_readingRef l \<Longrightarrow>
     lock_step\<^sup>*\<^sup>* (lockset l) (lockset (l\<lparr>l_readingRef := True\<rparr>))"
    by (rule * [of _ Reading_lock]) (auto simp: lockset_def)
  show "l_session l = None \<Longrightarrow> l_agent l = None \<Longrightarrow> l_image l = None \<Longrightarrow> \<not> l_readingRef l \<Longrightarrow>
     lock_step\<^sup>*\<^sup>* (lockset l) (lockset (l\<lparr>l_agent := Some n\<rparr>))"
    by (rule * [of _ Agent_lock]) (auto simp: lockset_def)
  show "l_session l = None \<Longrightarrow> l_agent l = None \<Longrightarrow> l_image l = None \<Longrightarrow>
     lock_step\<^sup>*\<^sup>* (lockset l) (lockset (l\<lparr>l_image := Some n\<rparr>))"
    by (rule * [of _ Image_lock]) (auto simp: lockset_def)
  show "l_session l = None \<Longrightarrow> k \<notin> fst ` set (l_actions l) \<Longrightarrow>
     lock_step\<^sup>*\<^sup>* (lockset l) (lockset (l\<lparr>l_actions := obj_set k n (l_actions l)\<rparr>))"
    by (rule * [of _ "Action_lock k"]) (auto simp: lockset_def keys_obj_set)
qed

section \<open>Operations\<close>

lemma sim_project: "sim st (project_effect (st\<lparr>w_projectId := p, w_requestedSessionId := s\<rparr>))"
  by (rule sim_release) (auto simp: project_effect_def Let_def locks_update locks_abort lockset_def)

lemma sim_unmount: "sim st (unmount st)"
  by (rule sim_release) (auto simp: unmount_def Let_def locks_update locks_abort lockset_def)

lemma sim_begin: "\<not> session_blocked st \<Longrightarrow> sim st (begin_session p c st)"
  by (rule sim_acquire [of _ Session_lock])
    (auto simp: begin_session_def locks_start lock_simps session_blocked_def lockset_def)

lemma sim_session_start: "sim st (switchSession s u st)" "sim st (createSession st)" "sim st (clearSession st)"
  using sim_begin by (auto simp: switchSession_def createSession_def clearSession_def locks_update)

lemma sim_confirmed: "sim st (run_confirmed c st)" "sim st (confirmDraftDiscard c st)"
  by (auto simp: run_confirmed_def confirmDraftDiscard_def locks_update sim_session_start split: confirm.split)

lemma sim_requests: "sim st (requestSessionSwitch s st)" "sim st (requestNewSession st)" "sim st (requestClearSession st)"
  "sim st (confirm_ok st)" "sim st (confirm_cancel st)"
  by (auto simp: requestSessionSwitch_def requestNewSession_def requestClearSession_def confirm_ok_def
      confirm_cancel_def Let_def locks_update sim_confirmed split: option.split confirm.split)

lemma sim_url: "sim st (url_effect st)"
proof -
  define st1 where "st1 = (if w_pendingUrlSession st \<noteq> [] \<and> w_pendingUrlSession st \<noteq> w_requestedSessionId st
    then (ws_emits (abort_opt (w_sessionRequest st)) st)\<lparr>w_sessionConfirm := None, w_sessionRequest := None,
           w_pendingUrlSession := [], w_sessionChanging := None\<rparr> else st)"
  have i: "sim st st1" by (rule sim_release) (auto simp: st1_def locks_update lockset_def)
  have "sim st1 (confirmDraftDiscard c (st1\<lparr>w_pendingUrlSession := q\<rparr>))" for c q
    using sim_confirmed(2) [of "st1\<lparr>w_pendingUrlSession := q\<rparr>"] by (simp add: locks_update)
  with i have "sim st (confirmDraftDiscard c (st1\<lparr>w_pendingUrlSession := q\<rparr>))" for c q by (rule rtranclp_trans)
  then show ?thesis using i unfolding url_effect_def Let_def st1_def [symmetric] by simp
qed

lemma lockset_finish: "lockset (locks (finish_session n st)) \<subseteq> lockset (locks st)"
  by (auto simp: finish_session_def lock_simps lockset_def)

lemma lockset_enter: "lockset (locks (enter_session s x st)) \<subseteq> lockset (locks st)"
  by (auto simp: locks_enter lockset_def)

lemma sim_session_replies: "sim st (switch_reply n p s u r st)" "sim st (create_reply n p r st)" "sim st (clear_reply n p s r st)"
proof -
  have e: "lockset (locks (enter_session q x (end_request n st))) \<subseteq> lockset (locks st)" for q x
    using lockset_enter [of q x "end_request n st"] by simp
  have f: "lockset (locks st') \<subseteq> lockset (locks st) \<Longrightarrow> lockset (locks (finish_session n st')) \<subseteq> lockset (locks st)" for st'
    using lockset_finish [of n st'] by (rule subset_trans)
  show "sim st (switch_reply n p s u r st)" "sim st (create_reply n p r st)" "sim st (clear_reply n p s r st)"
    by (rule sim_release; simp add: switch_reply_def create_reply_def clear_reply_def Let_def locks_update e f split: sum.split)+
qed

lemma sim_attachments_reply: "sim st (attachments_reply lower n p e fs rs st)"
  by (rule sim_release) (simp add: attachments_reply_def Let_def locks_update split: sum.split)

lemma sim_attachments: "sim st (addAttachments fs st)"
  by (simp add: addAttachments_def Let_def lock_simps sim_take)

lemma sim_send: "sim st (sendMessage k t st)"
  by (simp add: sendMessage_def Let_def locks_start lock_simps sim_take)

lemma sim_agent_end: "sim st (agent_end n p s k c as f a st)"
  by (rule sim_release) (simp add: agent_end_def Let_def locks_update split: option.split)

lemma sim_submit: "sim st (submitImageGeneration lower st)"
  by (simp add: submitImageGeneration_def locks_start lock_simps sim_take)

lemma sim_image_reply: "sim st (image_reply n p s refs r st)"
  by (rule sim_release) (simp add: image_reply_def Let_def locks_update split: sum.split)

lemma sim_regenerate: "sim st (regenerateGeneration g st)"
  by (simp add: regenerateGeneration_def Let_def locks_start lock_simps sim_take)

lemma sim_regenerate_reply: "sim st (regenerate_reply n p s g r st)"
  by (rule sim_release) (simp add: regenerate_reply_def Let_def lock_simps split: sum.split)

lemma sim_reply: "sim st (ws_reply n r st)"
  by (simp add: ws_reply_def sim_session_replies sim_image_reply sim_regenerate_reply split: option.split pending.split)

lemma sim_handle: "sim st (ws_handle lower e st)"
  by (cases e) (simp_all add: locks_update sim_project sim_unmount sim_url sim_requests sim_attachments sim_attachments_reply
      sim_send sim_agent_end sim_submit sim_regenerate sim_reply split: option.split pending.split)

interpretation ws_protocol: simulation "ws_step lower" "\<lambda>st. lockset (locks st)" lock_step for lower
  by unfold_locales (simp add: ws_step_def sim_handle)

end
