(* ===== verification/Workspace_Scope.thy ===== *)
theory Workspace_Scope
  imports Workspace_Actions
begin

text \<open>
  What the workspace value of the page looks like, and whose answers may change it: it is absent or an object
  of the project in the route with an active session, and answers to requests made for another project
  or session change nothing that the page shows.
\<close>

section \<open>The workspace value\<close>

definition typed :: "jstring \<Rightarrow> jsv \<Rightarrow> bool" where
  "typed pid ws \<longleftrightarrow> ws = JNull \<or> is_plain_object ws \<and> project_id_of ws = JStr pid \<and> truthy (active_session_of ws)"

definition keeps_type :: "(jsv \<Rightarrow> jsv option) \<Rightarrow> bool" where
  "keeps_type f \<longleftrightarrow> (\<forall>pid ws v. typed pid ws \<longrightarrow> f ws = Some v \<longrightarrow> typed pid v)"

abbreviation scoped :: "ws_state \<Rightarrow> bool" where
  "scoped st \<equiv> typed (w_projectId st) (w_workspace st)"

lemma get_prop_spread: "is_plain_object ws \<Longrightarrow> get_prop k (spread ws qs) = (case map_of (rev qs) k of Some v \<Rightarrow> v | None \<Rightarrow> get_prop k ws)"
  by (auto simp: is_plain_object_iff spread_def obj_get_def map_of_obj_assign map_add_def split: option.split)

lemma typed_spread:
  assumes "typed pid ws" "ws \<noteq> JNull" "lit ''project'' \<notin> fst ` set qs"
    and "\<And>v. map_of (rev qs) (lit ''active_session_id'') = Some v \<Longrightarrow> truthy v"
  shows "typed pid (spread ws qs)"
proof -
  have p: "is_plain_object ws" using assms(1,2) by (simp add: typed_def)
  have "map_of (rev qs) (lit ''project'') = None" using assms(3) by (simp add: map_of_eq_None_iff)
  moreover have "is_plain_object (spread ws qs)" by (simp add: spread_def)
  ultimately show ?thesis using assms(1,2,4)
    by (auto simp: typed_def get_prop_spread [OF p] split: option.split)
qed

lemma typed_active: "typed pid ws \<Longrightarrow> JStr s = active_session_of ws \<Longrightarrow> truthy (active_session_of ws)"
  by (auto simp: typed_def)

lemma keeps_messages: "keeps_type (append_messages sid ms)" "keeps_type (change_messages sid f)"
  by (auto simp: keeps_type_def append_messages_def change_messages_def split: if_splits jsv.splits intro!: typed_spread)

lemma keeps_generation: "keeps_type (\<lambda>ws. if project_id_of ws \<noteq> JStr pid \<or> active_session_of ws \<noteq> JStr sid then Some ws
     else case or_else (get_prop (lit ''image_generations'') ws) (JArr []) of
       JArr gs \<Rightarrow> if JNull \<in> set gs then None else Some (spread ws [(lit ''image_generations'', h gs)])
     | _ \<Rightarrow> None)"
  by (auto simp: keeps_type_def split: if_splits jsv.splits intro!: typed_spread)

lemma keeps_merge:
  assumes "project_id_of nxt = JStr q" "truthy (active_session_of nxt)"
  shows "keeps_type (\<lambda>cur. Some (mergeAgentSessionWorkspace cur nxt))"
  using assms by (auto simp: keeps_type_def mergeAgentSessionWorkspace_def intro!: typed_spread split: if_splits)

lemma keeps_metadata: "keeps_type (\<lambda>cur. mergeAuthoritativeSessionMetadata cur auth pid sid)"
  by (auto simp: keeps_type_def mergeAuthoritativeSessionMetadata_def intro!: typed_spread
      intro: typed_active split: if_splits jsv.splits option.splits)

section \<open>Frame\<close>

lemma scope_fields [simp]:
  "w_projectId (ws_emit e st) = w_projectId st" "w_workspace (ws_emit e st) = w_workspace st"
  "w_projectId (ws_emits es st) = w_projectId st" "w_workspace (ws_emits es st) = w_workspace st"
  "w_projectId (setSessionInUrl s b st) = w_projectId st" "w_workspace (setSessionInUrl s b st) = w_workspace st"
  "w_projectId (release_references st) = w_projectId st" "w_workspace (release_references st) = w_workspace st"
  "w_projectId (snd (start_request p st)) = w_projectId st" "w_workspace (snd (start_request p st)) = w_workspace st"
  "w_projectId (end_request n st) = w_projectId st" "w_workspace (end_request n st) = w_workspace st"
  "w_projectId (abortSessionImageRequests st) = w_projectId st" "w_workspace (abortSessionImageRequests st) = w_workspace st"
  "w_projectId (abortProjectRequests st) = w_projectId st" "w_workspace (abortProjectRequests st) = w_workspace st"
  "w_projectId (discardWorkspaceDraft st) = w_projectId st" "w_workspace (discardWorkspaceDraft st) = w_workspace st"
  "w_projectId (finish_session n st) = w_projectId st" "w_workspace (finish_session n st) = w_workspace st"
  "w_projectId (update_workspace f st) = w_projectId st"
  by (simp_all add: ws_emit_def ws_emits_def setSessionInUrl_def release_references_def start_request_def end_request_def
      abortSessionImageRequests_def abortProjectRequests_def discardWorkspaceDraft_def finish_session_def update_workspace_def
      Let_def split: option.split)

lemma typed_update: "typed pid (w_workspace st) \<Longrightarrow> keeps_type f \<Longrightarrow> typed pid (w_workspace (update_workspace f st))"
  by (auto simp: update_workspace_def keeps_type_def split: option.split)

lemma scoped_update: "scoped st \<Longrightarrow> keeps_type f \<Longrightarrow> scoped (update_workspace f st)"
  by (simp add: typed_update)

lemma scoped_generation: "scoped st \<Longrightarrow> scoped (updateGeneration g p s st)"
  unfolding updateGeneration_def by (rule scoped_update) (assumption, rule keeps_generation)

lemma scope_generation [simp]: "w_projectId (updateGeneration g p s st) = w_projectId st"
  by (simp add: updateGeneration_def)

lemma scope_metadata [simp]: "w_projectId (refreshAgentSessionMetadata p s st) = w_projectId st"
  "w_workspace (refreshAgentSessionMetadata p s st) = w_workspace st"
  by (simp_all add: refreshAgentSessionMetadata_def case_prod_unfold)

lemma scope_failed [simp]:
  "w_projectId (load_failed p e st) = w_projectId st" "w_workspace (load_failed p e st) = w_workspace st"
  "w_projectId (session_failed n p fb e st) = w_projectId st" "w_workspace (session_failed n p fb e st) = w_workspace st"
  "w_projectId (image_failed p s e st) = w_projectId st" "w_workspace (image_failed p s e st) = w_workspace st"
  "w_projectId (regenerate_failed n p s g e st) = w_projectId st" "w_workspace (regenerate_failed n p s g e st) = w_workspace st"
  by (simp_all add: load_failed_def session_failed_def image_failed_def regenerate_failed_def Let_def)

section \<open>Handlers\<close>

lemma scoped_enter: "scoped st \<Longrightarrow> assertWorkspaceScope nxt q s \<Longrightarrow> scoped (enter_session sid nxt st)"
  using scoped_update [of "(abortSessionImageRequests (st\<lparr>w_activeSessionIdRef := sid\<rparr>))\<lparr>w_selectedGenerationId := JNull\<rparr>"
      "\<lambda>cur. Some (mergeAgentSessionWorkspace cur nxt)"] keeps_merge [of nxt q]
  by (simp add: enter_session_def assertWorkspaceScope_def)

lemma scope_enter [simp]: "w_projectId (enter_session sid nxt st) = w_projectId st"
  by (simp add: enter_session_def)

lemma scoped_session_replies:
  assumes "scoped st"
  shows "scoped (switch_reply n p s u r st)" "scoped (create_reply n p r st)" "scoped (clear_reply n p s r st)"
proof -
  have s: "scoped (end_request n st)" using assms by simp
  have e: "assertWorkspaceScope x q k \<Longrightarrow> typed (w_projectId st) (w_workspace (enter_session sid x (end_request n st)))" for x q k sid
    using scoped_enter [OF s] by simp
  have m: "assertWorkspaceScope x q k \<Longrightarrow>
      typed (w_projectId st) (w_workspace (update_workspace (\<lambda>cur. Some (mergeAgentSessionWorkspace cur x)) (end_request n st)))" for x q k
    using scoped_update [OF s keeps_merge [of x q]] by (simp add: assertWorkspaceScope_def)
  show "scoped (switch_reply n p s u r st)" "scoped (create_reply n p r st)" "scoped (clear_reply n p s r st)"
    using assms e m by (auto simp: switch_reply_def create_reply_def clear_reply_def Let_def split: sum.split)
qed

lemma project_object: "project_id_of ws = JStr pid \<Longrightarrow> is_plain_object ws"
proof (cases ws)
  case (JArr vs)
  assume "project_id_of ws = JStr pid"
  then show ?thesis by (simp add: JArr array_index_def all_digits_def is_digit_def lit_def)
next
  case (JStr s)
  assume "project_id_of ws = JStr pid"
  then show ?thesis by (simp add: JStr array_index_def all_digits_def is_digit_def lit_def)
qed simp_all

lemma scoped_load: "scoped st \<Longrightarrow> scoped (load_reply n p i r st)"
  by (auto simp: load_reply_def Let_def same_project_def assertWorkspaceScope_def typed_def project_object
      split: load_result.split sum.split)

lemma scoped_metadata: "scoped st \<Longrightarrow> scoped (metadata_reply n p s r st)"
  using scoped_update [of "end_request n st", OF _ keeps_metadata]
  by (auto simp: metadata_reply_def Let_def split: sum.split)

lemma scoped_image_replies:
  assumes "scoped st"
  shows "scoped (image_reply n p s refs r st)" "scoped (regenerate_reply n p s g r st)"
  using assms scoped_generation [of "end_request n st"]
  by (auto simp: image_reply_def regenerate_reply_def Let_def split: sum.split)

lemma scope_poll_end [simp]: "w_projectId (poll_end n p s g r st) = w_projectId st" "w_workspace (poll_end n p s g r st) = w_workspace st"
  by (simp_all add: poll_end_def Let_def split: sum.split)

lemma scope_poll_again [simp]:
  "w_projectId (poll_again n p s g a e st) = w_projectId st" "w_workspace (poll_again n p s g a e st) = w_workspace st"
  by (simp_all add: poll_again_def)

lemma scoped_poll: "scoped st \<Longrightarrow> scoped (poll_reply n p s g a e r st)"
  using scoped_generation [of st] by (auto simp: poll_reply_def Let_def split: sum.split)

lemma scoped_reply: "scoped st \<Longrightarrow> scoped (ws_reply n r st)"
  by (simp add: ws_reply_def scoped_session_replies scoped_metadata scoped_image_replies scoped_poll split: option.split pending.split)

lemma scope_session_start [simp]:
  "w_projectId (switchSession s u st) = w_projectId st" "w_workspace (switchSession s u st) = w_workspace st"
  "w_projectId (createSession st) = w_projectId st" "w_workspace (createSession st) = w_workspace st"
  "w_projectId (clearSession st) = w_projectId st" "w_workspace (clearSession st) = w_workspace st"
  by (simp_all add: switchSession_def createSession_def clearSession_def begin_session_def case_prod_unfold)

lemma scope_confirmed [simp]:
  "w_projectId (run_confirmed c st) = w_projectId st" "w_workspace (run_confirmed c st) = w_workspace st"
  "w_projectId (confirmDraftDiscard c st) = w_projectId st" "w_workspace (confirmDraftDiscard c st) = w_workspace st"
  by (simp_all add: run_confirmed_def confirmDraftDiscard_def split: confirm.split)

lemma scope_requests [simp]:
  "w_projectId (requestSessionSwitch s st) = w_projectId st" "w_workspace (requestSessionSwitch s st) = w_workspace st"
  "w_projectId (requestNewSession st) = w_projectId st" "w_workspace (requestNewSession st) = w_workspace st"
  "w_projectId (requestClearSession st) = w_projectId st" "w_workspace (requestClearSession st) = w_workspace st"
  "w_projectId (confirm_ok st) = w_projectId st" "w_workspace (confirm_ok st) = w_workspace st"
  "w_projectId (confirm_cancel st) = w_projectId st" "w_workspace (confirm_cancel st) = w_workspace st"
  "w_projectId (url_effect st) = w_projectId st" "w_workspace (url_effect st) = w_workspace st"
  by (simp_all add: requestSessionSwitch_def requestNewSession_def requestClearSession_def confirm_ok_def confirm_cancel_def
      url_effect_def Let_def split: option.split confirm.split)

lemma scope_poll_effect [simp]: "w_projectId (poll_effect st) = w_projectId st" "w_workspace (poll_effect st) = w_workspace st"
proof -
  have "w_projectId (foldl (\<lambda>s g. poll_effect_step g s) x gs) = w_projectId x \<and>
      w_workspace (foldl (\<lambda>s g. poll_effect_step g s) x gs) = w_workspace x" for x gs
    by (induction gs arbitrary: x) (simp_all add: poll_effect_step_def Let_def case_prod_unfold)
  then show "w_projectId (poll_effect st) = w_projectId st" "w_workspace (poll_effect st) = w_workspace st"
    by (simp_all add: poll_effect_def)
qed

lemma scope_operations [simp]:
  "w_projectId (unmount st) = w_projectId st" "w_workspace (unmount st) = w_workspace st"
  "w_projectId (breakpoint_change b st) = w_projectId st" "w_workspace (breakpoint_change b st) = w_workspace st"
  "w_projectId (selection_effect st) = w_projectId st" "w_workspace (selection_effect st) = w_workspace st"
  "w_projectId (models_effect lower st) = w_projectId st" "w_workspace (models_effect lower st) = w_workspace st"
  "w_projectId (changeImageEngine lower e st) = w_projectId st" "w_workspace (changeImageEngine lower e st) = w_workspace st"
  "w_projectId (updateDefault f st) = w_projectId st" "w_workspace (updateDefault f st) = w_workspace st"
  "w_projectId (default_reply n f dr st) = w_projectId st" "w_workspace (default_reply n f dr st) = w_workspace st"
  "w_projectId (addAttachments fs st) = w_projectId st" "w_workspace (addAttachments fs st) = w_workspace st"
  "w_projectId (attachments_reply lower n p ep fs rs st) = w_projectId st"
  "w_workspace (attachments_reply lower n p ep fs rs st) = w_workspace st"
  "w_projectId (removeAttachment i st) = w_projectId st" "w_workspace (removeAttachment i st) = w_workspace st"
  "w_projectId (addImageReferences lower irs st) = w_projectId st" "w_workspace (addImageReferences lower irs st) = w_workspace st"
  "w_projectId (removeImageReference i st) = w_projectId st" "w_workspace (removeImageReference i st) = w_workspace st"
  "w_projectId (closeResults st) = w_projectId st" "w_workspace (closeResults st) = w_workspace st"
  "w_projectId (toggleResults st) = w_projectId st" "w_workspace (toggleResults st) = w_workspace st"
  "w_projectId (submitImageGeneration lower st) = w_projectId st" "w_workspace (submitImageGeneration lower st) = w_workspace st"
  "w_projectId (regenerateGeneration g st) = w_projectId st" "w_workspace (regenerateGeneration g st) = w_workspace st"
  by (simp_all add: unmount_def breakpoint_change_def selection_effect_def models_effect_def changeImageEngine_def
      updateDefault_def default_reply_def addAttachments_def attachments_reply_def removeAttachment_def addImageReferences_def
      removeImageReference_def closeResults_def toggleResults_def submitImageGeneration_def regenerateGeneration_def
      Let_def case_prod_unfold split: list.split sum.split option.split)

lemma scoped_send: "scoped st \<Longrightarrow> scoped (sendMessage key now st)"
  by (simp add: sendMessage_def Let_def case_prod_unfold typed_update keeps_messages)

lemma scoped_agent:
  assumes "scoped st"
  shows "scoped (agent_event n p s key ev st)" "scoped (agent_end n p s key c as f a st)"
  using assms scoped_update [OF _ keeps_messages(2), of st] scoped_update [OF _ keeps_messages(2), of "end_request n st"]
  by (auto simp: agent_event_def agent_end_def Let_def split: option.split)

lemma scoped_project: "scoped (load_start (project_effect st))"
  by (simp add: load_start_def project_effect_def Let_def case_prod_unfold typed_def)

lemma scoped_handle: "scoped st \<Longrightarrow> scoped (ws_handle lower e st)"
  by (cases e) (simp_all add: scoped_project scoped_load scoped_reply scoped_send scoped_agent split: option.split pending.split)

interpretation ws_scope: state_machine "ws_step lower" scoped for lower
  by unfold_locales (simp add: ws_step_def render_def scoped_handle)

section \<open>Answers to requests made elsewhere\<close>

text \<open>What the page shows: its data, its inputs and the messages and URL changes it caused.\<close>

record ws_shown =
  sh_workspace :: jsv
  sh_preference :: jsv
  sh_message :: jstring
  sh_attachments :: "attachment list"
  sh_imagePrompt :: jstring
  sh_imageReferences :: "image_reference list"
  sh_selected :: jsv
  sh_resultsOpen :: bool
  sh_session :: jstring
  sh_out :: "ws_out list"

definition shown :: "ws_state \<Rightarrow> ws_shown" where
  "shown st = \<lparr>sh_workspace = w_workspace st, sh_preference = w_preference st, sh_message = w_message st,
     sh_attachments = w_attachments st, sh_imagePrompt = w_imagePrompt st, sh_imageReferences = w_imageReferences st,
     sh_selected = w_selectedGenerationId st, sh_resultsOpen = w_resultsOpen st, sh_session = w_requestedSessionId st,
     sh_out = w_out st\<rparr>"

text \<open>A request made for another project, or for a session that is not the active one.\<close>

fun stale :: "pending \<Rightarrow> ws_state \<Rightarrow> bool" where
  "stale (P_load pid i) st = (w_projectId st \<noteq> pid)"
| "stale (P_switch pid sid u) st = (w_projectId st \<noteq> pid)"
| "stale (P_create pid) st = (w_projectId st \<noteq> pid)"
| "stale (P_clear pid sid) st = (w_projectId st \<noteq> pid)"
| "stale (P_attachments pid e fs) st = (w_projectId st \<noteq> pid)"
| "stale (P_metadata pid sid) st = (w_projectId st \<noteq> pid \<or> w_activeSessionIdRef st \<noteq> sid)"
| "stale (P_agent pid sid key c as) st = (w_projectId st \<noteq> pid \<or> w_activeSessionIdRef st \<noteq> sid)"
| "stale (P_image pid sid refs) st = (w_projectId st \<noteq> pid \<or> w_activeSessionIdRef st \<noteq> sid)"
| "stale (P_regenerate pid sid gid) st = (w_projectId st \<noteq> pid \<or> w_activeSessionIdRef st \<noteq> sid)"
| "stale (P_poll pid sid gid a e) st = (w_projectId st \<noteq> pid \<or> w_activeSessionIdRef st \<noteq> sid)"
| "stale (P_default f) st = False"

lemma shown_same [simp]:
  "shown (st\<lparr>w_loading := v1\<rparr>) = shown st" "shown (st\<lparr>w_pendingUrlSession := v2\<rparr>) = shown st"
  "shown (st\<lparr>w_sessionMetadataRequest := v3\<rparr>) = shown st" "shown (st\<lparr>w_agentRequest := v4\<rparr>) = shown st"
  "shown (st\<lparr>w_sending := v5\<rparr>) = shown st" "shown (st\<lparr>w_imageCreateRequest := v6\<rparr>) = shown st"
  "shown (st\<lparr>w_imageSubmitting := v7\<rparr>) = shown st" "shown (st\<lparr>w_generationActionRequests := v8\<rparr>) = shown st"
  "shown (st\<lparr>w_regeneratingIds := v9\<rparr>) = shown st" "shown (st\<lparr>w_generationRequests := v10\<rparr>) = shown st"
  "shown (st\<lparr>w_readingRef := v11\<rparr>) = shown st" "shown (st\<lparr>w_readingAttachments := v12\<rparr>) = shown st"
  "shown (st\<lparr>w_pending := v13\<rparr>) = shown st" "shown (st\<lparr>w_activeSessionIdRef := v14\<rparr>) = shown st"
  "shown (end_request n st) = shown st" "shown (snd (start_request p st)) = shown st" "shown (finish_session n st) = shown st"
  by (simp_all add: shown_def end_request_def start_request_def finish_session_def)

lemma route_end [simp]: "w_activeSessionIdRef (end_request n st) = w_activeSessionIdRef st" "w_mounted (end_request n st) = w_mounted st"
  by (simp_all add: end_request_def)

lemma stale_generation:
  assumes "scoped st" "w_activeSessionIdRef st = activeSessionId st" "w_projectId st \<noteq> pid \<or> w_activeSessionIdRef st \<noteq> sid"
  shows "updateGeneration g pid sid st = st"
proof -
  have "project_id_of (w_workspace st) \<noteq> JStr pid \<or> active_session_of (w_workspace st) \<noteq> JStr sid"
    using assms by (auto simp: typed_def activeSessionId_def visibleWorkspace_def)
  then show ?thesis by (simp add: updateGeneration_def update_workspace_def)
qed

lemmas scope_guards = same_project_def own_session_def own_agent_def own_session_scope_def own_action_def

lemma stale_poll:
  assumes "scoped st" "w_activeSessionIdRef st = activeSessionId st" "stale (P_poll pid sid gid a e) st"
  shows "shown (poll_reply n pid sid gid a e r st) = shown st"
proof -
  have p: "shown (poll_end n pid sid gid pr st) = shown st" for pr
    using assms(3) by (auto simp: poll_end_def Let_def scope_guards split: sum.split)
  then have "shown (poll_again n pid sid gid a e' st) = shown st" for e'
    by (simp add: poll_again_def)
  with p stale_generation [OF assms(1,2)] assms(3) show ?thesis
    by (simp add: poll_reply_def Let_def split: sum.split)
qed

lemma stale_reply:
  assumes "scoped st" "w_activeSessionIdRef st = activeSessionId st" "map_of (w_pending st) n = Some p" "stale p st"
  shows "shown (ws_reply n r st) = shown st"
  using assms stale_poll [OF assms(1,2)]
  by (cases p) (auto simp: ws_reply_def switch_reply_def create_reply_def clear_reply_def metadata_reply_def image_reply_def
      regenerate_reply_def session_failed_def image_failed_def regenerate_failed_def Let_def scope_guards split: sum.split)

lemma stale_answer:
  assumes "scoped st" "w_activeSessionIdRef st = activeSessionId st" "map_of (w_pending st) n = Some p" "stale p st"
  shows "shown (ws_handle lower (Reply n r) st) = shown st" "shown (ws_handle lower (Load_reply n lr) st) = shown st"
    "shown (ws_handle lower (Attachments_reply n rs) st) = shown st" "shown (ws_handle lower (Stream_event n ev) st) = shown st"
    "shown (ws_handle lower (Stream_end n failed aborted) st) = shown st"
  using assms stale_reply [OF assms]
  by (cases p; auto simp: load_reply_def load_failed_def attachments_reply_def agent_event_def agent_end_def Let_def scope_guards
      split: load_result.split sum.split option.split)+

end
