(* ===== verification/Workspace_Limits.thy ===== *)
theory Workspace_Limits
  imports Workspace_Requests Workspace_Locks
begin

text \<open>
  The limits of a draft: how many attachments and reference images it holds and how large they are. Files that
  are still being read count: the invariant bounds the attachments together with the files of the read
  that is current, and the attachments that a failed message gives back.
\<close>

record draft_view =
  d_attachments :: "attachment list"
  d_references :: "image_reference list"
  d_epoch :: nat
  d_reading :: bool
  d_pending :: "nat \<Rightarrow> pending option"

definition drafts :: "ws_state \<Rightarrow> draft_view" where
  "drafts st = \<lparr>d_attachments = w_attachments st, d_references = w_imageReferences st, d_epoch = w_attachmentReadEpoch st,
     d_reading = w_readingRef st, d_pending = map_of (w_pending st)\<rparr>"

definition attachments_fit :: "attachment list \<Rightarrow> ws_file list \<Rightarrow> bool" where
  "attachments_fit as fs \<longleftrightarrow> length as + length fs \<le> maxAgentAttachments \<and>
     sum_list (map at_size as) + sum_list (map f_size fs) \<le> maxAgentAttachmentTotalBytes"

definition references_fit :: "image_reference list \<Rightarrow> bool" where
  "references_fit rs \<longleftrightarrow> length rs \<le> maxImageReferences \<and> sum_list (map ref_size rs) \<le> maxImageReferenceTotalBytes"

fun request_fits :: "draft_view \<Rightarrow> pending \<Rightarrow> bool" where
  "request_fits d (P_agent pid sid key c as) = attachments_fit as []"
| "request_fits d (P_attachments pid e fs) =
     (e \<le> d_epoch d \<and> (e = d_epoch d \<longrightarrow> d_reading d \<and> attachments_fit (d_attachments d) fs))"
| "request_fits d p = True"

text \<open>No two reads have the same epoch.\<close>

definition reads_apart :: "(nat \<Rightarrow> pending option) \<Rightarrow> bool" where
  "reads_apart m \<longleftrightarrow> (\<forall>n n' pid pid' e fs fs'. m n = Some (P_attachments pid e fs) \<longrightarrow> m n' = Some (P_attachments pid' e fs') \<longrightarrow> n = n')"

definition draft_inv :: "draft_view \<Rightarrow> bool" where
  "draft_inv d \<longleftrightarrow> attachments_fit (d_attachments d) [] \<and> references_fit (d_references d) \<and>
     (\<forall>n p. d_pending d n = Some p \<longrightarrow> request_fits d p) \<and> reads_apart (d_pending d)"

section \<open>Frame\<close>

lemma drafts_update [simp]:
  "drafts (st\<lparr>w_projectId := v_projectId\<rparr>) = drafts st"
  "drafts (st\<lparr>w_requestedSessionId := v_requestedSessionId\<rparr>) = drafts st"
  "drafts (st\<lparr>w_workspace := v_workspace\<rparr>) = drafts st"
  "drafts (st\<lparr>w_crashed := v_crashed\<rparr>) = drafts st"
  "drafts (st\<lparr>w_preference := v_preference\<rparr>) = drafts st"
  "drafts (st\<lparr>w_models := v_models\<rparr>) = drafts st"
  "drafts (st\<lparr>w_creationMode := v_creationMode\<rparr>) = drafts st"
  "drafts (st\<lparr>w_currentSkill := v_currentSkill\<rparr>) = drafts st"
  "drafts (st\<lparr>w_compactWorkspace := v_compactWorkspace\<rparr>) = drafts st"
  "drafts (st\<lparr>w_resultsOpen := v_resultsOpen\<rparr>) = drafts st"
  "drafts (st\<lparr>w_selectedGenerationId := v_selectedGenerationId\<rparr>) = drafts st"
  "drafts (st\<lparr>w_message := v_message\<rparr>) = drafts st"
  "drafts (st\<lparr>w_imagePrompt := v_imagePrompt\<rparr>) = drafts st"
  "drafts (st\<lparr>w_imageEngine := v_imageEngine\<rparr>) = drafts st"
  "drafts (st\<lparr>w_imageAspectRatio := v_imageAspectRatio\<rparr>) = drafts st"
  "drafts (st\<lparr>w_selectedImageModels := v_selectedImageModels\<rparr>) = drafts st"
  "drafts (st\<lparr>w_loading := v_loading\<rparr>) = drafts st"
  "drafts (st\<lparr>w_sending := v_sending\<rparr>) = drafts st"
  "drafts (st\<lparr>w_imageSubmitting := v_imageSubmitting\<rparr>) = drafts st"
  "drafts (st\<lparr>w_regeneratingIds := v_regeneratingIds\<rparr>) = drafts st"
  "drafts (st\<lparr>w_readingAttachments := v_readingAttachments\<rparr>) = drafts st"
  "drafts (st\<lparr>w_savingDefaults := v_savingDefaults\<rparr>) = drafts st"
  "drafts (st\<lparr>w_sessionChanging := v_sessionChanging\<rparr>) = drafts st"
  "drafts (st\<lparr>w_mounted := v_mounted\<rparr>) = drafts st"
  "drafts (st\<lparr>w_generationRequests := v_generationRequests\<rparr>) = drafts st"
  "drafts (st\<lparr>w_generationActionRequests := v_generationActionRequests\<rparr>) = drafts st"
  "drafts (st\<lparr>w_imageCreateRequest := v_imageCreateRequest\<rparr>) = drafts st"
  "drafts (st\<lparr>w_agentRequest := v_agentRequest\<rparr>) = drafts st"
  "drafts (st\<lparr>w_sessionRequest := v_sessionRequest\<rparr>) = drafts st"
  "drafts (st\<lparr>w_sessionMetadataRequest := v_sessionMetadataRequest\<rparr>) = drafts st"
  "drafts (st\<lparr>w_sessionConfirm := v_sessionConfirm\<rparr>) = drafts st"
  "drafts (st\<lparr>w_pendingUrlSession := v_pendingUrlSession\<rparr>) = drafts st"
  "drafts (st\<lparr>w_preferenceUpdates := v_preferenceUpdates\<rparr>) = drafts st"
  "drafts (st\<lparr>w_activeSessionIdRef := v_activeSessionIdRef\<rparr>) = drafts st"
  "drafts (st\<lparr>w_next := v_next\<rparr>) = drafts st"
  "drafts (st\<lparr>w_out := v_out\<rparr>) = drafts st"
  "drafts (st\<lparr>w_attachments := v_attachments\<rparr>) = (drafts st)\<lparr>d_attachments := v_attachments\<rparr>"
  "drafts (st\<lparr>w_imageReferences := v_references\<rparr>) = (drafts st)\<lparr>d_references := v_references\<rparr>"
  "drafts (st\<lparr>w_attachmentReadEpoch := v_epoch\<rparr>) = (drafts st)\<lparr>d_epoch := v_epoch\<rparr>"
  "drafts (st\<lparr>w_readingRef := v_reading\<rparr>) = (drafts st)\<lparr>d_reading := v_reading\<rparr>"
  "drafts (st\<lparr>w_pending := v_pending\<rparr>) = (drafts st)\<lparr>d_pending := map_of v_pending\<rparr>"
  by (simp_all add: drafts_def)

lemma drafts_select:
  "w_attachments st = d_attachments (drafts st)" "w_imageReferences st = d_references (drafts st)"
  "w_attachmentReadEpoch st = d_epoch (drafts st)" "w_readingRef st = d_reading (drafts st)"
  "map_of (w_pending st) = d_pending (drafts st)"
  by (simp_all add: drafts_def)

lemma drafts_emit [simp]: "drafts (ws_emit e st) = drafts st" "drafts (ws_emits es st) = drafts st"
  "drafts (update_workspace f st) = drafts st" "drafts (setSessionInUrl s b st) = drafts st"
  "drafts (release_references st) = drafts st" "drafts (updateGeneration g p s st) = drafts st"
  by (simp_all add: ws_emit_def ws_emits_def update_workspace_def setSessionInUrl_def release_references_def
      updateGeneration_def split: option.split)

lemma drafts_start [simp]: "drafts (snd (start_request p st)) = (drafts st)\<lparr>d_pending := (d_pending (drafts st))(w_next st \<mapsto> p)\<rparr>"
  by (simp add: start_request_def drafts_def)

lemma drafts_start_pair [simp]: "(\<And>n y. drafts (f n y) = drafts y) \<Longrightarrow>
    drafts (case start_request p st of (n, y) \<Rightarrow> f n y) = (drafts st)\<lparr>d_pending := (d_pending (drafts st))(w_next st \<mapsto> p)\<rparr>"
  by (simp add: case_prod_unfold)

lemma drafts_end [simp]: "drafts (end_request n st) = (drafts st)\<lparr>d_pending := (d_pending (drafts st))(n := None)\<rparr>"
proof -
  have "map_of (w_pending (end_request n st)) = (map_of (w_pending st))(n := None)"
    using reqs_end [of n st] by (simp add: reqs_select)
  then show ?thesis by (simp add: drafts_def end_request_def)
qed

lemma drafts_aborts [simp]:
  "drafts (abortSessionImageRequests st) = drafts st" "drafts (abortProjectRequests st) = drafts st"
  "drafts (finish_session n st) = drafts st" "drafts (session_failed n p fb e st) = drafts st"
  "drafts (load_failed p e st) = drafts st" "drafts (image_failed p s e st) = drafts st"
  "drafts (regenerate_failed n p s g e st) = drafts st"
  by (simp_all add: abortSessionImageRequests_def abortProjectRequests_def
      finish_session_def session_failed_def load_failed_def image_failed_def regenerate_failed_def Let_def)

lemma drafts_discard [simp]: "drafts (discardWorkspaceDraft st) =
    (drafts st)\<lparr>d_epoch := d_epoch (drafts st) + 1, d_reading := False, d_attachments := [], d_references := []\<rparr>"
  by (simp add: discardWorkspaceDraft_def Let_def drafts_select)

lemma drafts_enter [simp]: "drafts (enter_session s x st) =
    (drafts st)\<lparr>d_epoch := d_epoch (drafts st) + 1, d_reading := False, d_attachments := [], d_references := []\<rparr>"
  by (simp add: enter_session_def)

lemma drafts_metadata [simp]: "drafts (refreshAgentSessionMetadata p s st) =
    (drafts st)\<lparr>d_pending := (d_pending (drafts st))(w_next st \<mapsto> P_metadata p s)\<rparr>"
  by (simp add: refreshAgentSessionMetadata_def ws_emits_def)

section \<open>Steps on the view\<close>

lemma fit_subset: "attachments_fit as fs \<Longrightarrow> attachments_fit as []"
  by (simp add: attachments_fit_def)

lemma request_fits_other: "\<forall>pid e fs. p \<noteq> P_attachments pid e fs \<Longrightarrow> request_fits d' p = request_fits d p"
  by (cases p) auto

lemma inv_end: "draft_inv d \<Longrightarrow> draft_inv (d\<lparr>d_pending := (d_pending d)(n := None)\<rparr>)"
proof -
  have "request_fits (d\<lparr>d_pending := m\<rparr>) p = request_fits d p" for m p by (cases p) simp_all
  then show "draft_inv d \<Longrightarrow> draft_inv (d\<lparr>d_pending := (d_pending d)(n := None)\<rparr>)"
    by (simp add: draft_inv_def reads_apart_def)
qed

lemma inv_set:
  assumes "draft_inv d" "\<And>pid e fs. p \<noteq> P_attachments pid e fs" "request_fits d p"
  shows "draft_inv (d\<lparr>d_pending := (d_pending d)(n \<mapsto> p)\<rparr>)"
proof -
  have "request_fits (d\<lparr>d_pending := m\<rparr>) q = request_fits d q" for m q by (cases q) simp_all
  then show ?thesis using assms by (simp add: draft_inv_def reads_apart_def)
qed

lemma inv_discard: "draft_inv d \<Longrightarrow> e > d_epoch d \<Longrightarrow> draft_inv (d\<lparr>d_epoch := e, d_reading := b, d_attachments := [], d_references := []\<rparr>)"
  unfolding draft_inv_def
proof (elim conjE, intro conjI allI impI)
  fix n p
  assume "d_epoch d < e" "\<forall>n p. d_pending d n = Some p \<longrightarrow> request_fits d p"
    "d_pending (d\<lparr>d_epoch := e, d_reading := b, d_attachments := [], d_references := []\<rparr>) n = Some p"
  then show "request_fits (d\<lparr>d_epoch := e, d_reading := b, d_attachments := [], d_references := []\<rparr>) p"
    by (cases p) fastforce+
qed (simp_all add: attachments_fit_def references_fit_def)

lemma inv_references: "draft_inv d \<Longrightarrow> references_fit rs \<Longrightarrow> draft_inv (d\<lparr>d_references := rs\<rparr>)"
proof -
  have "request_fits (d\<lparr>d_references := rs\<rparr>) q = request_fits d q" for q by (cases q) simp_all
  then show "draft_inv d \<Longrightarrow> references_fit rs \<Longrightarrow> draft_inv (d\<lparr>d_references := rs\<rparr>)" by (simp add: draft_inv_def)
qed

lemma inv_shrink:
  assumes "draft_inv d" "length as \<le> length (d_attachments d)" "sum_list (map at_size as) \<le> sum_list (map at_size (d_attachments d))"
  shows "draft_inv (d\<lparr>d_attachments := as\<rparr>)"
proof -
  have f: "attachments_fit (d_attachments d) fs \<Longrightarrow> attachments_fit as fs" for fs using assms(2,3) by (simp add: attachments_fit_def)
  have "request_fits d p \<Longrightarrow> request_fits (d\<lparr>d_attachments := as\<rparr>) p" for p by (cases p) (simp_all add: f)
  then show ?thesis using assms(1) f by (simp add: draft_inv_def)
qed

text \<open>Attachments may be given back while no file is being read.\<close>

lemma inv_restore:
  assumes "draft_inv d" "\<not> d_reading d" "attachments_fit as []"
  shows "draft_inv (d\<lparr>d_attachments := as\<rparr>)"
proof -
  have "request_fits d p \<Longrightarrow> request_fits (d\<lparr>d_attachments := as\<rparr>) p" for p using assms(2) by (cases p) simp_all
  then show ?thesis using assms(1,3) by (simp add: draft_inv_def)
qed

text \<open>A new read: its epoch is new.\<close>

lemma inv_read:
  assumes "draft_inv d" "attachments_fit (d_attachments d) fs"
  shows "draft_inv (d\<lparr>d_epoch := Suc (d_epoch d), d_reading := True,
    d_pending := (d_pending d)(n \<mapsto> P_attachments pid (Suc (d_epoch d)) fs)\<rparr>)"
proof -
  let ?d = "d\<lparr>d_epoch := Suc (d_epoch d), d_reading := True, d_pending := (d_pending d)(n \<mapsto> P_attachments pid (Suc (d_epoch d)) fs)\<rparr>"
  have old: "d_pending d k = Some (P_attachments pid' e' fs') \<Longrightarrow> e' \<le> d_epoch d" for k pid' e' fs'
    using assms(1) unfolding draft_inv_def by (metis request_fits.simps(2))
  have fresh: "d_pending d k \<noteq> Some (P_attachments pid' (Suc (d_epoch d)) fs')" for k pid' fs' using old by fastforce
  have "request_fits d p \<Longrightarrow> request_fits ?d p" for p by (cases p) auto
  moreover have "reads_apart (d_pending ?d)"
    using assms(1) fresh unfolding draft_inv_def reads_apart_def by (auto split: if_splits)
  ultimately show ?thesis using assms by (simp add: draft_inv_def)
qed

text \<open>The end of the current read: what it has read is added and nothing else is being read.\<close>

lemma inv_read_done:
  assumes "draft_inv d" "d_pending d n = Some (P_attachments pid (d_epoch d) fs)" "attachments_fit as []"
  shows "draft_inv (d\<lparr>d_pending := (d_pending d)(n := None), d_attachments := as, d_reading := False\<rparr>)"
proof -
  let ?d = "d\<lparr>d_pending := (d_pending d)(n := None), d_attachments := as, d_reading := False\<rparr>"
  have o: "k \<noteq> n \<Longrightarrow> d_pending d k \<noteq> Some (P_attachments pid' (d_epoch d) fs')" for k pid' fs'
    using assms(1,2) by (auto simp: draft_inv_def reads_apart_def)
  have "request_fits ?d p" if "k \<noteq> n" "d_pending d k = Some p" for k p
    using o [OF that(1)] that(2) assms(1) by (cases p) (auto simp: draft_inv_def dest!: spec [of _ k])
  then show ?thesis using assms(1,3) by (auto simp: draft_inv_def reads_apart_def)
qed

section \<open>Handlers\<close>

abbreviation dinv :: "ws_state \<Rightarrow> bool" where
  "dinv st \<equiv> draft_inv (drafts st)"

lemma dinv_session_start:
  assumes "dinv st"
  shows "dinv (switchSession s u st)" "dinv (createSession st)" "dinv (clearSession st)"
  using assms by (simp_all add: switchSession_def createSession_def clearSession_def begin_session_def inv_set)

lemma dinv_confirmed:
  assumes "dinv st"
  shows "dinv (run_confirmed c st)" "dinv (confirmDraftDiscard c st)"
  using assms by (auto simp: run_confirmed_def confirmDraftDiscard_def dinv_session_start split: confirm.split)

lemma dinv_requests:
  assumes "dinv st"
  shows "dinv (requestSessionSwitch s st)" "dinv (requestNewSession st)" "dinv (requestClearSession st)"
    "dinv (confirm_ok st)" "dinv (confirm_cancel st)"
  using assms by (auto simp: requestSessionSwitch_def requestNewSession_def requestClearSession_def confirm_ok_def
      confirm_cancel_def Let_def dinv_confirmed split: option.split confirm.split)

lemma dinv_url:
  assumes "dinv st"
  shows "dinv (url_effect st)"
proof -
  have "dinv (confirmDraftDiscard c (st'\<lparr>w_pendingUrlSession := q\<rparr>))" if "drafts st' = drafts st" for c q st'
    using assms that by (intro dinv_confirmed) simp
  then show ?thesis using assms by (simp add: url_effect_def Let_def)
qed

lemma dinv_project: "dinv st \<Longrightarrow> dinv (load_start (project_effect st))"
  using inv_discard [of "drafts st"] by (simp add: load_start_def project_effect_def Let_def drafts_select inv_set)

lemma inv_epoch: "draft_inv d \<Longrightarrow> e > d_epoch d \<Longrightarrow> draft_inv (d\<lparr>d_epoch := e\<rparr>)"
  unfolding draft_inv_def
proof (elim conjE, intro conjI allI impI)
  fix n p
  assume "d_epoch d < e" "\<forall>n p. d_pending d n = Some p \<longrightarrow> request_fits d p" "d_pending (d\<lparr>d_epoch := e\<rparr>) n = Some p"
  then show "request_fits (d\<lparr>d_epoch := e\<rparr>) p" by (cases p) fastforce+
qed simp_all

lemma dinv_unmount: "dinv st \<Longrightarrow> dinv (unmount st)"
  by (simp add: unmount_def Let_def drafts_select inv_epoch)

lemma dinv_poll_effect: "dinv st \<Longrightarrow> dinv (poll_effect st)"
proof -
  have s: "dinv x \<Longrightarrow> dinv (poll_effect_step g x)" for g x
    by (simp add: poll_effect_step_def Let_def inv_set)
  have "dinv x \<Longrightarrow> dinv (foldl (\<lambda>s g. poll_effect_step g s) x gs)" for gs x
    by (induction gs arbitrary: x) (simp_all add: s)
  then show "dinv st \<Longrightarrow> dinv (poll_effect st)" by (simp add: poll_effect_def)
qed

lemma sum_filter_le: "sum_list (map f (filter P xs)) \<le> sum_list (map f xs)" for f :: "'a \<Rightarrow> nat"
  by (induction xs) auto

lemma references_filter: "references_fit rs \<Longrightarrow> references_fit (filter P rs)"
  unfolding references_fit_def using sum_filter_le [of ref_size P rs] length_filter_le [of P rs] by linarith

lemma dinv_plain:
  assumes "dinv st"
  shows "dinv (breakpoint_change b st)" "dinv (selection_effect st)" "dinv (models_effect lower st)" "dinv (changeImageEngine lower e st)"
    "dinv (updateDefault f st)" "dinv (closeResults st)" "dinv (toggleResults st)" "dinv (submitImageGeneration lower st)"
    "dinv (regenerateGeneration g st)" "dinv (agent_event n p s key ev st)" "dinv (removeAttachment i st)" "dinv (removeImageReference i st)"
proof -
  have r: "references_fit (d_references (drafts st))" using assms by (simp add: draft_inv_def)
  show "dinv (removeAttachment i st)"
    using assms by (simp add: removeAttachment_def drafts_select inv_shrink sum_filter_le)
  show "dinv (removeImageReference i st)"
    using assms r by (simp add: removeImageReference_def drafts_select inv_references references_filter)
qed (use assms in \<open>simp_all add: breakpoint_change_def selection_effect_def models_effect_def changeImageEngine_def
      updateDefault_def closeResults_def toggleResults_def submitImageGeneration_def regenerateGeneration_def agent_event_def
      Let_def inv_set split: list.split\<close>)

lemma made_references:
  "make_references lower fs acc = Inr rs \<Longrightarrow>
     length rs = length acc + length fs \<and> sum_list (map ref_size rs) = sum_list (map ref_size acc) + sum_list (map (f_size \<circ> fst) fs)"
  by (induction lower fs acc rule: make_references.induct) (auto simp: createImageReference_def split: if_splits)

lemma dinv_add_references:
  assumes "dinv st"
  shows "dinv (addImageReferences lower fs st)"
proof (cases "make_references lower fs []")
  case (Inr rs)
  have "draft_inv ((drafts st)\<lparr>d_references := w_imageReferences st @ rs\<rparr>)" if "length (w_imageReferences st) + length fs \<le> maxImageReferences"
    "sum_list (map ref_size (w_imageReferences st)) + sum_list (map (f_size \<circ> fst) fs) \<le> maxImageReferenceTotalBytes"
    using made_references [OF Inr] assms that by (simp add: inv_references references_fit_def)
  then show ?thesis using assms by (simp add: addImageReferences_def Inr Let_def split: list.split)
qed (use assms in \<open>simp add: addImageReferences_def split: prod.split\<close>)

lemma dinv_attachments: "dinv st \<Longrightarrow> dinv (addAttachments fs st)"
  using inv_read [of "drafts st" fs] by (simp add: addAttachments_def Let_def drafts_select attachments_fit_def)

lemma dinv_send:
  assumes "dinv st"
  shows "dinv (sendMessage key now st)"
proof -
  have "attachments_fit (d_attachments (drafts st)) []" using assms by (simp add: draft_inv_def)
  then have "draft_inv ((drafts st)\<lparr>d_pending := (d_pending (drafts st))(k \<mapsto> P_agent pid sid key c (w_attachments st)), d_attachments := []\<rparr>)"
    for k pid sid c
    using assms by (intro inv_shrink inv_set) (simp_all add: drafts_select)
  then show ?thesis using assms by (simp add: sendMessage_def Let_def case_prod_unfold)
qed

lemma read_all_sizes:
  "read_all lower fs reads = Inr as \<Longrightarrow> length as = length fs \<and> sum_list (map at_size as) = sum_list (map f_size fs)"
proof (induction fs arbitrary: reads as)
  case (Cons f fs)
  then show ?case
    by (fastforce simp: Let_def readAgentAttachment_def split: sum.splits if_splits option.splits)
qed simp

lemma dinv_attachments_reply:
  assumes "dinv st" "map_of (w_pending st) n = Some (P_attachments pid e fs)"
  shows "dinv (attachments_reply lower n pid e fs reads st)"
proof -
  let ?d = "drafts st"
  have p: "d_pending ?d n = Some (P_attachments pid e fs)" using assms(2) by (simp add: drafts_select)
  have old: "draft_inv (?d\<lparr>d_pending := (d_pending ?d)(n := None)\<rparr>)" using assms(1) by (rule inv_end)
  have fin: "draft_inv (?d\<lparr>d_pending := (d_pending ?d)(n := None), d_attachments := as, d_reading := False\<rparr>)"
    if "e = d_epoch ?d" "attachments_fit as []" for as
    using inv_read_done [OF assms(1), of n pid fs] p that by simp
  have fit: "attachments_fit (d_attachments ?d) []" "e = d_epoch ?d \<Longrightarrow> attachments_fit (d_attachments ?d) fs"
    using assms(1) p unfolding draft_inv_def by (blast, metis request_fits.simps(2))
  have same: "?d\<lparr>d_pending := m, d_reading := False\<rparr> = ?d\<lparr>d_pending := m, d_attachments := d_attachments ?d, d_reading := False\<rparr>" for m
    by simp
  show ?thesis
  proof (cases "e = d_epoch ?d")
    case True
    have keep: "draft_inv (?d\<lparr>d_pending := (d_pending ?d)(n := None), d_reading := False\<rparr>)"
      unfolding same by (rule fin [OF True fit(1)])
    have more: "draft_inv (?d\<lparr>d_pending := (d_pending ?d)(n := None), d_attachments := d_attachments ?d @ as, d_reading := False\<rparr>)"
      if "read_all lower fs reads = Inr as" for as
      using fit(2) [OF True] read_all_sizes [OF that] by (intro fin [OF True]) (simp add: attachments_fit_def)
    show ?thesis using True keep more by (simp add: attachments_reply_def Let_def drafts_select split: sum.split)
  next
    case False
    then show ?thesis using old by (simp add: attachments_reply_def Let_def drafts_select split: sum.split)
  qed
qed

lemma dinv_agent_end:
  assumes "dinv st" "lock_inv (locks st)" "map_of (w_pending st) n = Some (P_agent pid sid key c as)"
  shows "dinv (agent_end n pid sid key c as failed aborted st)"
proof -
  let ?d = "(drafts st)\<lparr>d_pending := (d_pending (drafts st))(n := None)\<rparr>"
  have e: "draft_inv ?d" using assms(1) by (rule inv_end)
  have f: "attachments_fit as []" using assms(1,3) unfolding draft_inv_def drafts_select by (metis request_fits.simps(1))
  have "draft_inv (?d\<lparr>d_attachments := as\<rparr>)" if "w_agentRequest st \<noteq> None"
    using assms(2) that by (intro inv_restore e f) (auto simp: lock_inv_defs locks_def drafts_def)
  then show ?thesis using e
    by (auto simp: agent_end_def own_agent_def Let_def end_request_def [THEN arg_cong [where f = w_agentRequest]] split: option.split)
qed

lemma dinv_session_replies:
  assumes "dinv st"
  shows "dinv (switch_reply n p s u r st)" "dinv (create_reply n p r st)" "dinv (clear_reply n p s r st)"
    "dinv (metadata_reply n p s r st)" "dinv (default_reply n f dr st)"
  using inv_end [OF assms, of n] inv_discard [OF inv_end [OF assms, of n]]
  by (simp_all add: switch_reply_def create_reply_def clear_reply_def metadata_reply_def default_reply_def Let_def split: sum.split)

lemma dinv_load_reply: "dinv st \<Longrightarrow> dinv (load_reply n p i r st)"
  using inv_end [of "drafts st" n] inv_set [of "(drafts st)\<lparr>d_pending := (d_pending (drafts st))(n := None)\<rparr>"]
  by (auto simp: load_reply_def Let_def split: load_result.split sum.split)

lemma dinv_image_replies:
  assumes "dinv st"
  shows "dinv (image_reply n p s refs r st)" "dinv (regenerate_reply n p s g r st)"
proof -
  let ?d = "(drafts st)\<lparr>d_pending := (d_pending (drafts st))(n := None)\<rparr>"
  have e: "draft_inv ?d" using assms by (rule inv_end)
  then have m: "draft_inv (?d\<lparr>d_pending := (d_pending ?d)(k \<mapsto> P_metadata p s)\<rparr>)" for k by (rule inv_set) simp_all
  have "references_fit (d_references (drafts st))" using assms by (simp add: draft_inv_def)
  then have "draft_inv ((?d\<lparr>d_pending := (d_pending ?d)(k \<mapsto> P_metadata p s)\<rparr>)\<lparr>d_references := filter P (d_references (drafts st))\<rparr>)" for k P
    by (intro inv_references m references_filter)
  then show "dinv (image_reply n p s refs r st)" "dinv (regenerate_reply n p s g r st)"
    using e m by (auto simp: image_reply_def regenerate_reply_def Let_def drafts_select split: sum.split)
qed

lemma dinv_poll_reply:
  assumes "dinv st" "map_of (w_pending st) n \<noteq> None"
  shows "dinv (poll_reply n p s g a e r st)"
proof -
  have e: "dinv (poll_end n p s g pr st')" if "drafts st' = drafts st" for pr st'
    using inv_end [OF assms(1), of n] that by (simp add: poll_end_def Let_def split: sum.split)
  have t: "dinv (next_attempt n (P_poll p s g k e') st')" if "drafts st' = drafts st" for k e' st'
  proof -
    have "map_of (w_pending st') n \<noteq> None" using that assms(2) by (simp add: drafts_select)
    then have "map_of (w_pending (next_attempt n (P_poll p s g k e') st')) = (map_of (w_pending st'))(n \<mapsto> P_poll p s g k e')"
      by (auto simp: fun_eq_iff map_of_next_attempt)
    then have "drafts (next_attempt n (P_poll p s g k e') st') = (drafts st)\<lparr>d_pending := (d_pending (drafts st))(n \<mapsto> P_poll p s g k e')\<rparr>"
      using that by (simp add: next_attempt_def drafts_select)
    then show ?thesis using inv_set [OF assms(1)] by simp
  qed
  have "dinv (poll_again n p s g a e' st')" if "drafts st' = drafts st" for e' st'
    using t [OF that] e [OF that] unfolding poll_again_def next_attempt_def by (simp only: split: if_split) simp
  then show ?thesis using e by (simp add: poll_reply_def Let_def split: sum.split)
qed

lemma dinv_reply: "dinv st \<Longrightarrow> dinv (ws_reply n r st)"
  by (auto simp: ws_reply_def dinv_session_replies dinv_image_replies dinv_poll_reply split: option.split pending.split)

lemma dinv_handle: "dinv st \<Longrightarrow> lock_inv (locks st) \<Longrightarrow> dinv (ws_handle lower e st)"
  by (cases e) (simp_all add: dinv_project dinv_unmount dinv_url dinv_poll_effect dinv_requests dinv_plain dinv_add_references
      dinv_attachments dinv_send dinv_load_reply dinv_reply dinv_session_replies dinv_attachments_reply dinv_agent_end
      split: option.split pending.split)

interpretation ws_limits: state_machine "ws_step lower" "\<lambda>st. dinv st \<and> lock_inv (locks st)" for lower
  using ws_locks.step_inv by unfold_locales (simp add: ws_step_def render_def dinv_handle)

end
