(* ===== verification/Workspace_Properties.thy ===== *)
theory Workspace_Properties
  imports Workspace_Answers Workspace_Protocol Workspace_Scope Workspace_Limits
begin

text \<open>
  The properties of the workspace page, over every run from the mounted page: what its requests may do at
  the same time, that they refine the lock protocol, that answers give every lock back, that polling ends, what
  the workspace value looks like and that late answers change nothing.
\<close>

section \<open>The mounted page\<close>

lemma mount_settled: "settled (ws_mount pid sid c)"
proof -
  define st where "st = (ws_initial pid sid c)\<lparr>w_loading := False\<rparr>"
  have "settled st"
    by (simp add: upheld_def backed_def reqs_def ws_initial_def held_def waits_for_def st_def)
  then have "settled (load_start (project_effect (st\<lparr>w_projectId := pid, w_requestedSessionId := sid\<rparr>)))"
    by (rule upheld_navigate)
  moreover have "project_effect (st\<lparr>w_projectId := pid, w_requestedSessionId := sid\<rparr>) = project_effect (ws_initial pid sid c)"
    by (simp add: project_effect_def release_references_def abortProjectRequests_def abortSessionImageRequests_def
        ws_emits_def ws_initial_def st_def Let_def)
  ultimately show ?thesis by (simp only: ws_mount_def render_def upheld_same)
qed

lemma mount_locks: "lock_inv (locks (ws_mount pid sid c))" "lockset (locks (ws_mount pid sid c)) = {}"
  by (simp_all add: ws_mount_def inv_project)
    (simp add: project_effect_def Let_def locks_update locks_abort lockset_def)


lemmas run_locks = ws_locks.run_inv [OF mount_locks(1), folded ws_run_def]

section \<open>Locks\<close>

text \<open>
  C36: In every run of the page, whatever the user does and whatever the server answers, a session
  operation runs alone: no message is being sent, no image submitted, no generation started again and no
  attachment read meanwhile; a message is never being sent while an image is submitted or an attachment
  is read; and as long as the page is mounted, its four busy flags say exactly what is under way.
\<close>

theorem workspace_exclusive: "lock_inv (locks (ws_run lower es (ws_mount pid sid c)))"
  by (rule run_locks)


section \<open>Answers\<close>


lemma mount_pending: "w_pending (ws_mount pid sid c) = [(0, P_load pid sid)]"
  by (simp add: ws_mount_def render_def load_start_def start_request_def project_effect_def release_references_def
      abortProjectRequests_def abortSessionImageRequests_def ws_emits_def ws_initial_def Let_def)


text \<open>
  C38: Polling ends: in every run, however the answers to a request that polls an image generation are mixed
  with other events, at most 300 of them are answers to that request.
\<close>

theorem poll_bounded: "polled lower n es (ws_mount pid sid c) \<le> maxAttempts"
  using polled_bound [OF mount_settled] attempts_le le_trans by blast

section \<open>Scope\<close>

lemma mount_scoped: "scoped (ws_mount pid sid c)"
  by (simp add: ws_mount_def render_def scoped_project)

lemmas run_scoped = ws_scope.run_inv [OF mount_scoped, folded ws_run_def]

lemma active_render: "w_activeSessionIdRef (render st) = activeSessionId (render st)"
  by (simp add: render_def activeSessionId_def visibleWorkspace_def)

lemma run_active: "w_activeSessionIdRef (ws_run lower es (ws_mount pid sid c)) = activeSessionId (ws_run lower es (ws_mount pid sid c))"
proof (cases es rule: rev_cases)
  case Nil
  then show ?thesis by (simp only: ws_run_def fold.simps id_apply ws_mount_def active_render)
next
  case (snoc es' e)
  then show ?thesis by (simp add: ws_run_def ws_step_def active_render)
qed

text \<open>
  C39: In every run the workspace value is absent, or an object whose project is the one in the route and which
  has an active session; the ref of the active session is always the session that the page shows.
\<close>

theorem workspace_typed:
  "typed (w_projectId (ws_run lower es (ws_mount pid sid c))) (w_workspace (ws_run lower es (ws_mount pid sid c))) \<and>
   w_activeSessionIdRef (ws_run lower es (ws_mount pid sid c)) = activeSessionId (ws_run lower es (ws_mount pid sid c))"
  by (simp add: run_scoped run_active)

text \<open>
  C10: An answer that arrives after the user has moved on changes nothing that the page shows. After any run, if
  the request it answers was made for another project than the one in the route, or for a message, an
  image, a poll or a refresh of another session than the active one, then the workspace, the preferences,
  the inputs, the selection, the session in the URL and the messages to the user are as before.
\<close>

theorem stale_answers_ignored:
  assumes "map_of (w_pending (ws_run lower es (ws_mount pid sid c))) n = Some p" "stale p (ws_run lower es (ws_mount pid sid c))"
    and "target e = Some n \<or> (\<exists>ev. e = Stream_event n ev)"
  shows "shown (ws_run lower (es @ [e]) (ws_mount pid sid c)) = shown (ws_run lower es (ws_mount pid sid c))"
proof -
  let ?st = "ws_run lower es (ws_mount pid sid c)"
  have "shown (ws_handle lower e ?st) = shown ?st"
    using stale_answer [OF run_scoped run_active assms(1,2), of lower] assms by (cases e) (auto split: pending.split)
  then show ?thesis by (simp add: ws_run_def ws_step_def render_def)
qed

lemma navigate_pending:
  "w_pending (ws_step lower (Navigate q s) st) = (w_next st, P_load q s) # w_pending st"
  "w_projectId (ws_step lower (Navigate q s) st) = q"
  by (simp_all add: ws_step_def render_def load_start_def start_request_def project_effect_def release_references_def
      abortProjectRequests_def abortSessionImageRequests_def ws_emits_def Let_def)

lemma mount_next: "w_next (ws_mount pid sid c) = 1"
  by (simp add: ws_mount_def render_def load_start_def start_request_def project_effect_def release_references_def
      abortProjectRequests_def abortSessionImageRequests_def ws_emits_def ws_initial_def Let_def)

theorem stale_answers_ignored_witness:
  "let st = ws_mount (lit ''p'') [] False; es = [Navigate (lit ''q'') []];
       e = Load_reply 0 (Load_answered (JObj [(lit ''project'', JObj [(lit ''id'', JStr (lit ''p''))])]) (Inl []))
   in stale (P_load (lit ''p'') []) (ws_run (\<lambda>u. [u]) es st) \<and>
      shown (ws_run (\<lambda>u. [u]) (es @ [e]) st) = shown (ws_run (\<lambda>u. [u]) es st)"
proof -
  let ?st = "ws_mount (lit ''p'') [] False" and ?es = "[Navigate (lit ''q'') []]"
  have "map_of (w_pending (ws_run (\<lambda>u. [u]) ?es ?st)) 0 = Some (P_load (lit ''p'') [])"
    "stale (P_load (lit ''p'') []) (ws_run (\<lambda>u. [u]) ?es ?st)"
    by (simp_all add: ws_run_def navigate_pending mount_pending mount_next)
  from stale_answers_ignored [OF this] this(2) show ?thesis by (simp add: Let_def)
qed

section \<open>Limits\<close>

lemma mount_drafts: "dinv (ws_mount pid sid c)"
proof -
  have "dinv (ws_initial pid sid c)"
    by (simp add: drafts_def ws_initial_def draft_inv_def attachments_fit_def references_fit_def reads_apart_def)
  then show ?thesis using dinv_project by (simp add: ws_mount_def render_def)
qed

text \<open>
  C37: In every run a draft holds at most four attachments of together at most 20 MB and at most three reference
  images of together at most 14 MB, also when several reads, failed messages and changes of the session
  overlap.
\<close>

theorem workspace_limits:
  "length (w_attachments (ws_run lower es (ws_mount pid sid c))) \<le> 4 \<and>
   sum_list (map at_size (w_attachments (ws_run lower es (ws_mount pid sid c)))) \<le> 20 * 1024 * 1024 \<and>
   length (w_imageReferences (ws_run lower es (ws_mount pid sid c))) \<le> 3 \<and>
   sum_list (map ref_size (w_imageReferences (ws_run lower es (ws_mount pid sid c)))) \<le> 14 * 1024 * 1024"
proof -
  have "dinv (ws_run lower es (ws_mount pid sid c))"
    using ws_limits.run_inv [of "ws_mount pid sid c" lower es] mount_drafts mount_locks(1) by (simp add: ws_run_def)
  then show ?thesis
    by (simp add: draft_inv_def attachments_fit_def references_fit_def drafts_select maxAgentAttachments_def
        maxAgentAttachmentTotalBytes_def maxImageReferences_def maxImageReferenceTotalBytes_def)
qed

section \<open>Session metadata\<close>

lemma some_session_False: "some_session p ss = Some False \<Longrightarrow> s \<in> set ss \<Longrightarrow> \<not> p s"
  by (induction ss) (auto split: if_splits)

lemma session_by_id_Some: "session_by_id ss k = Some s \<Longrightarrow> s \<in> set ss \<and> session_id s = k"
  by (auto simp: session_by_id_def dest!: map_of_SomeD)

text \<open>
  C40: Refreshing the sessions never loses newer data. Where the merge changes the workspace at all, it takes over
  the whole list of the server, in which every session known to the page is present and not older than the
  page knows it; the active session and everything else in the workspace stay.
\<close>

theorem metadata_merge:
  assumes "mergeAuthoritativeSessionMetadata cur auth pid sid = Some v" "is_plain_object cur" "v \<noteq> cur"
  shows "sessions_of v = sessions_of auth \<and> active_session_of v = active_session_of cur \<and>
    (\<forall>k. k \<noteq> lit ''agent_sessions'' \<longrightarrow> get_prop k v = get_prop k cur) \<and>
    (\<exists>cs as. sessions_of cur = JArr cs \<and> sessions_of auth = JArr as \<and>
       (\<forall>s \<in> set cs. \<exists>s' \<in> set as. session_id s' = session_id s \<and> \<not> num_less (sessionUpdatedAt s') (sessionUpdatedAt s)))"
proof -
  obtain cs as where m: "sessions_of cur = JArr cs" "sessions_of auth = JArr as" "some_session (newer_session as) cs = Some False"
    "active_session_of cur = JStr sid" "active_session_of auth = JStr sid"
    "v = spread cur [(lit ''agent_sessions'', JArr as), (lit ''active_session_id'', JStr sid)]"
    using assms(1,3) by (auto simp: mergeAuthoritativeSessionMetadata_def split: if_splits jsv.splits option.splits)
  have n: "\<exists>s' \<in> set as. session_id s' = session_id s \<and> \<not> num_less (sessionUpdatedAt s') (sessionUpdatedAt s)" if "s \<in> set cs" for s
    using some_session_False [OF m(3) that] by (auto simp: newer_session_def split: option.splits dest: session_by_id_Some)
  have "get_prop k v = (if k = lit ''agent_sessions'' then JArr as else if k = lit ''active_session_id'' then JStr sid else get_prop k cur)" for k
    using get_prop_spread [OF assms(2)] by (simp add: m(6))
  then show ?thesis using m(1,2,4) n by simp
qed

text \<open>Example data: a workspace with one session, by its time.\<close>

definition session_at :: "rat \<Rightarrow> jsv" where
  "session_at t = JObj [(lit ''id'', JStr (lit ''s'')), (lit ''updated_at'', JNum (Fin t))]"

definition workspace_at :: "rat \<Rightarrow> jsv" where
  "workspace_at t = JObj [(lit ''project'', JObj [(lit ''id'', JStr (lit ''p''))]), (lit ''active_session_id'', JStr (lit ''s'')),
     (lit ''agent_sessions'', JArr [session_at t])]"

lemma merge_example: "mergeAuthoritativeSessionMetadata (workspace_at 1) (workspace_at 2) (lit ''p'') (lit ''s'') = Some (spread (workspace_at 1)
     [(lit ''agent_sessions'', JArr [session_at 2]), (lit ''active_session_id'', JStr (lit ''s''))])"
  by (simp add: mergeAuthoritativeSessionMetadata_def workspace_at_def session_at_def session_by_id_def newer_session_def
     sessionUpdatedAt_def js_number.simps)

theorem metadata_merge_witness:
  "let v = spread (workspace_at 1) [(lit ''agent_sessions'', JArr [session_at 2]), (lit ''active_session_id'', JStr (lit ''s''))]
   in mergeAuthoritativeSessionMetadata (workspace_at 1) (workspace_at 2) (lit ''p'') (lit ''s'') = Some v \<and>
      sessions_of v = JArr [session_at 2]"
proof -
  let ?v = "spread (workspace_at 1) [(lit ''agent_sessions'', JArr [session_at 2]), (lit ''active_session_id'', JStr (lit ''s''))]"
  have p: "is_plain_object (workspace_at 1)" by (simp add: workspace_at_def)
  have g: "get_prop (lit ''agent_sessions'') ?v = JArr [session_at 2]"
    unfolding get_prop_spread [OF p] by simp
  have "get_prop (lit ''agent_sessions'') (workspace_at 1) \<noteq> JArr [session_at 2]"
    by (simp add: workspace_at_def session_at_def)
  with g have "?v \<noteq> workspace_at 1" by metis
  from metadata_merge [OF merge_example p this] have "sessions_of ?v = sessions_of (workspace_at 2)" by blast
  with merge_example show ?thesis by (simp add: Let_def workspace_at_def)
qed
end
