(* ===== verification/Workspace_Message.thy ===== *)
theory Workspace_Message
  imports Workspace_Scope
begin

text \<open>
  A message from end to end: the click on send, the events that the stream client delivers to the page and the
  end of the stream, with the callback of the page as the callback of the client. A failed message leaves the
  page as it was before the click, a completed one leaves the two messages of the server.
\<close>

section \<open>The whole operation\<close>

definition events_of :: "stream_effect list \<Rightarrow> agent_event list" where
  "events_of es = concat (map (\<lambda>x. case x of On_event ev \<Rightarrow> [ev] | _ \<Rightarrow> []) es)"

text \<open>\<open>error_text\<close> is the text of the error that the client throws.\<close>

definition send_message :: "unicode_map \<Rightarrow> (stream_error \<Rightarrow> jstring) \<Rightarrow> jstring \<Rightarrow> jsnum \<Rightarrow> agent_response \<Rightarrow> ws_state \<Rightarrow> ws_state" where
  "send_message lower error_text key now response st =
     (case streamAgentMessage (onEvent_error (w_projectId st) (w_activeSessionIdRef st)) response of (es, r) \<Rightarrow>
        ws_run lower ([Send key now] @ map (Stream_event (w_next st)) (events_of es) @
          [Stream_end (w_next st) (case r of Inl e \<Rightarrow> Some (error_text e) | Inr u \<Rightarrow> None) False]) st)"

text \<open>What the page needs for a message to be sent, and the messages it then has.\<close>

definition can_send :: "ws_state \<Rightarrow> bool" where
  "can_send st \<longleftrightarrow> w_mounted st \<and> (trim (w_message st) \<noteq> [] \<or> w_attachments st \<noteq> []) \<and> w_activeSessionIdRef st \<noteq> [] \<and>
     skillEnabled st \<and> \<not> w_readingRef st \<and> w_agentRequest st = None \<and> w_imageCreateRequest st = None \<and>
     w_sessionRequest st = None \<and> lit ''default_chat_model'' \<notin> set (w_preferenceUpdates st)"

definition has_messages :: "jstring \<Rightarrow> jsv list \<Rightarrow> ws_state \<Rightarrow> bool" where
  "has_messages key xs st \<longleftrightarrow> get_prop (lit ''messages'') (w_workspace st) = JArr xs \<and> JNull \<notin> set xs \<and>
     (\<forall>x \<in> set xs. item_id x \<notin> {user_message_id key, assistant_message_id key})"

section \<open>The message under way\<close>

definition in_flight :: "nat \<Rightarrow> ws_state \<Rightarrow> jstring \<Rightarrow> jsv list \<Rightarrow> ws_state \<Rightarrow> bool" where
  "in_flight n st0 key xs st \<longleftrightarrow>
     n < w_next st \<and> w_mounted st \<and> w_projectId st = w_projectId st0 \<and> w_activeSessionIdRef st = w_activeSessionIdRef st0 \<and> w_agentRequest st = Some n \<and>
     map_of (w_pending st) n =
       Some (P_agent (w_projectId st0) (w_activeSessionIdRef st0) key (trim (w_message st0)) (w_attachments st0)) \<and>
     is_plain_object (w_workspace st) \<and>
     (\<forall>k. k \<noteq> lit ''messages'' \<longrightarrow> get_prop k (w_workspace st) = get_prop k (w_workspace st0)) \<and>
     (\<exists>u a. get_prop (lit ''messages'') (w_workspace st) = JArr (xs @ [u, a]) \<and> u \<noteq> JNull \<and> is_plain_object a \<and>
        item_id u = user_message_id key \<and> item_id a = assistant_message_id key)"

lemma ids_differ: "user_message_id key \<noteq> assistant_message_id key'"
  by (simp add: user_message_id_def assistant_message_id_def lit_def)

lemma active_cong:
  "w_projectId st = w_projectId st' \<Longrightarrow> project_id_of (w_workspace st) = project_id_of (w_workspace st') \<Longrightarrow>
     active_session_of (w_workspace st) = active_session_of (w_workspace st') \<Longrightarrow> activeSessionId st = activeSessionId st'"
  by (simp add: activeSessionId_def visibleWorkspace_def)

lemma active_workspace:
  assumes "typed (w_projectId st) (w_workspace st)" "w_activeSessionIdRef st = activeSessionId st" "w_activeSessionIdRef st \<noteq> []"
  shows "is_plain_object (w_workspace st)" "active_session_of (w_workspace st) = JStr (w_activeSessionIdRef st)"
  using assms by (auto simp: typed_def activeSessionId_def visibleWorkspace_def split: jsv.splits)

lemma send_in_flight:
  assumes "can_send st" "typed (w_projectId st) (w_workspace st)" "w_activeSessionIdRef st = activeSessionId st" "has_messages key xs st"
  shows "in_flight (w_next st) st key xs (ws_step lower (Send key now) st)"
proof -
  let ?sid = "w_activeSessionIdRef st"
  define u where "u = user_placeholder key ?sid (agentAttachmentDisplayContent (trim (w_message st)) (w_attachments st)) (w_currentSkill st) now"
  define a where "a = assistant_placeholder key ?sid (w_currentSkill st) now"
  define ws where "ws = spread (w_workspace st) [(lit ''messages'', JArr (xs @ [u, a]))]"
  have o: "is_plain_object (w_workspace st)" "active_session_of (w_workspace st) = JStr ?sid"
    using active_workspace [OF assms(2,3)] assms(1) by (simp_all add: can_send_def)
  have m: "get_prop k ws = (if k = lit ''messages'' then JArr (xs @ [u, a]) else get_prop k (w_workspace st))" for k
    by (simp add: ws_def get_prop_spread [OF o(1)])
  have w: "append_messages ?sid [u, a] (w_workspace st) = Some ws"
    using o assms(4) by (simp add: append_messages_def has_messages_def ws_def or_else_def)
  define st1 where "st1 = (snd (start_request (P_agent (w_projectId st) ?sid key (trim (w_message st)) (w_attachments st)) st))
      \<lparr>w_agentRequest := Some (w_next st), w_sending := True, w_message := [], w_attachments := [], w_workspace := ws\<rparr>"
  have "ws_handle lower (Send key now) st = st1"
    using assms(1) w unfolding u_def a_def
    by (auto simp: sendMessage_def Let_def can_send_def start_request_def update_workspace_def st1_def)
  moreover have "activeSessionId st1 = activeSessionId st"
    by (rule active_cong) (simp_all add: st1_def m)
  moreover have "is_plain_object ws" by (simp add: ws_def spread_def)
  ultimately show ?thesis using assms(1,3) m
    by (simp add: in_flight_def ws_step_def render_def st1_def can_send_def start_request_def)
      (simp add: u_def a_def user_placeholder_def assistant_placeholder_def)
qed

text \<open>An event that does not complete the message, or that the page refuses, keeps it under way.\<close>

lemma spread_id: "is_plain_object a \<Longrightarrow> lit ''id'' \<notin> fst ` set qs \<Longrightarrow> item_id (spread a qs) = item_id a"
  using map_of_eq_None_iff [of "rev qs" "lit ''id''"] by (simp add: get_prop_spread)

lemma event_messages_flight:
  assumes "\<forall>x \<in> set xs. item_id x \<notin> {user_message_id key, assistant_message_id key}" "ev_type ev \<noteq> lit ''completed''" "event_handled ev"
    and "is_plain_object a" "item_id u = user_message_id key" "item_id a = assistant_message_id key"
  shows "\<exists>a'. event_messages key ev (xs @ [u, a]) = xs @ [u, a'] \<and> is_plain_object a' \<and> item_id a' = assistant_message_id key"
proof -
  have x: "map (\<lambda>i. if item_id i = assistant_message_id key then f i else i) xs = xs" for f
    using assms(1) by (auto intro: map_idI)
  have i: "lit ''id'' \<noteq> lit ''reasoning''" "lit ''id'' \<noteq> lit ''content''" by simp_all
  have "\<exists>k v. event_messages key ev (xs @ [u, a]) = xs @ [u, spread a [(lit k, v)]] \<and> k \<in> {''reasoning'', ''content''}"
    using assms(2,3,5,6) ids_differ [of key key] x by (auto simp: event_messages_def event_handled_def Let_def)
  then obtain k v where "event_messages key ev (xs @ [u, a]) = xs @ [u, spread a [(lit k, v)]]" "k \<in> {''reasoning'', ''content''}" by blast
  moreover from this(2) have "item_id (spread a [(lit k, v)]) = assistant_message_id key"
    using spread_id [OF assms(4), of "[(lit k, v)]"] assms(6) by auto
  ultimately show ?thesis by (auto simp: spread_def)
qed

lemma render_in_flight:
  assumes "in_flight n st0 key xs st" "w_activeSessionIdRef st0 = activeSessionId st0"
  shows "in_flight n st0 key xs (render st)"
proof -
  have "activeSessionId st = activeSessionId st0" by (rule active_cong) (use assms(1) in \<open>simp_all add: in_flight_def\<close>)
  then show ?thesis using assms by (simp add: in_flight_def render_def)
qed

lemma event_in_flight:
  assumes "in_flight n st0 key xs st" "has_messages key xs st0" "w_activeSessionIdRef st0 = activeSessionId st0"
    and "active_session_of (w_workspace st0) = JStr (w_activeSessionIdRef st0)"
    and "onEvent_error (w_projectId st0) (w_activeSessionIdRef st0) ev \<noteq> None \<or> ev_type ev \<noteq> lit ''completed''"
  shows "in_flight n st0 key xs (ws_step lower (Stream_event n ev) st)"
proof -
  let ?pid = "w_projectId st0" and ?sid = "w_activeSessionIdRef st0"
  note f = assms(1) [unfolded in_flight_def]
  have h: "ws_handle lower (Stream_event n ev) st = agent_event n ?pid ?sid key ev st" using f by simp
  have own: "own_agent n ?pid ?sid st" using f by (simp add: own_agent_def same_project_def)
  have "in_flight n st0 key xs (agent_event n ?pid ?sid key ev st)"
  proof (cases "onEvent_error ?pid ?sid ev \<noteq> None \<or> \<not> event_handled ev")
    case True
    then show ?thesis using assms(1) by (auto simp: agent_event_def)
  next
    case False
    then have c: "ev_type ev \<noteq> lit ''completed''" using assms(5) by blast
    obtain u a where ua: "get_prop (lit ''messages'') (w_workspace st) = JArr (xs @ [u, a])" "u \<noteq> JNull" "is_plain_object a"
      "item_id u = user_message_id key" "item_id a = assistant_message_id key" using f by blast
    obtain a' where a': "event_messages key ev (xs @ [u, a]) = xs @ [u, a']" "is_plain_object a'" "item_id a' = assistant_message_id key"
      using event_messages_flight [OF _ c _ ua(3,4,5)] False assms(2) unfolding has_messages_def by blast
    have "JNull \<notin> set (xs @ [u, a])" using ua(2,3) assms(2) by (auto simp: has_messages_def)
    moreover have "active_session_of (w_workspace st) = JStr ?sid" using f assms(4) by simp
    ultimately have "change_messages ?sid (event_messages key ev) (w_workspace st) =
        Some (spread (w_workspace st) [(lit ''messages'', JArr (xs @ [u, a']))])"
      using ua(1) a'(1) by (simp add: change_messages_def)
    then have "agent_event n ?pid ?sid key ev st = st\<lparr>w_workspace := spread (w_workspace st) [(lit ''messages'', JArr (xs @ [u, a']))]\<rparr>"
      using False own c by (simp add: agent_event_def update_workspace_def)
    then show ?thesis using f ua(2,4) a'(2,3) get_prop_spread [of "w_workspace st"]
      by (auto simp: in_flight_def spread_def [of "w_workspace st"])
  qed
  then show ?thesis using render_in_flight [OF _ assms(3)] h by (simp add: ws_step_def)
qed

lemma events_in_flight:
  assumes "in_flight n st0 key xs st" "has_messages key xs st0" "w_activeSessionIdRef st0 = activeSessionId st0"
    and "active_session_of (w_workspace st0) = JStr (w_activeSessionIdRef st0)"
    and "\<forall>ev \<in> set evs. onEvent_error (w_projectId st0) (w_activeSessionIdRef st0) ev \<noteq> None \<or> ev_type ev \<noteq> lit ''completed''"
  shows "in_flight n st0 key xs (ws_run lower (map (Stream_event n) evs) st)"
  using assms(1,5)
proof (induction evs arbitrary: st)
  case (Cons ev evs)
  then show ?case using event_in_flight [OF _ assms(2,3,4), of n st ev lower] by (simp add: ws_run_def)
qed (simp add: ws_run_def)

section \<open>The end of the stream\<close>

text \<open>The page after a message that failed: what it held before the click, with an error shown.\<close>

definition send_undone :: "ws_state \<Rightarrow> ws_state \<Rightarrow> bool" where
  "send_undone st st' \<longleftrightarrow> w_message st' = trim (w_message st) \<and> w_attachments st' = w_attachments st \<and>
     w_agentRequest st' = None \<and> \<not> w_sending st' \<and> (\<forall>k. get_prop k (w_workspace st') = get_prop k (w_workspace st))"

lemma end_failed:
  assumes "in_flight n st0 key xs st" "has_messages key xs st0"
    and "active_session_of (w_workspace st0) = JStr (w_activeSessionIdRef st0)"
  shows "send_undone st0 (ws_step lower (Stream_end n (Some msg) False) st)"
proof -
  note f = assms(1) [unfolded in_flight_def]
  let ?drop = "filter (\<lambda>i. item_id i \<noteq> user_message_id key \<and> item_id i \<noteq> assistant_message_id key)"
  obtain u a where ua: "get_prop (lit ''messages'') (w_workspace st) = JArr (xs @ [u, a])" "u \<noteq> JNull" "is_plain_object a"
    "item_id u = user_message_id key" "item_id a = assistant_message_id key" using f by blast
  have x: "get_prop (lit ''messages'') (w_workspace st0) = JArr xs" "JNull \<notin> set (xs @ [u, a])" "?drop (xs @ [u, a]) = xs"
    using assms(2) ua by (auto simp: has_messages_def filter_id_conv)
  have "active_session_of (w_workspace st) = JStr (w_activeSessionIdRef st0)" using f assms(3) by simp
  then have "change_messages (w_activeSessionIdRef st0) ?drop (w_workspace st) = Some (spread (w_workspace st) [(lit ''messages'', JArr xs)])"
    using ua(1) x(2,3) by (simp add: change_messages_def)
  then show ?thesis using f x(1)
    by (simp add: send_undone_def ws_step_def render_def agent_end_def own_agent_def same_project_def end_request_def
        update_workspace_def ws_emit_def get_prop_spread)
qed

text \<open>The page after a message that was completed by \<open>ev\<close>: the two messages of the server at the end.\<close>

definition send_completed :: "ws_state \<Rightarrow> agent_event \<Rightarrow> jsv list \<Rightarrow> ws_state \<Rightarrow> bool" where
  "send_completed st ev xs st' \<longleftrightarrow> w_agentRequest st' = None \<and> \<not> w_sending st' \<and>
     get_prop (lit ''messages'') (w_workspace st') =
       JArr (xs @ [get_prop (lit ''user_message'') (ev_data ev), get_prop (lit ''message'') (ev_data ev)]) \<and>
     (\<forall>k. k \<noteq> lit ''messages'' \<longrightarrow> get_prop k (w_workspace st') = get_prop k (w_workspace st))"

lemma end_completed:
  assumes "in_flight n st0 key xs st" "has_messages key xs st0"
    and "active_session_of (w_workspace st0) = JStr (w_activeSessionIdRef st0)"
    and "ev_type ev = lit ''completed''" "onEvent_error (w_projectId st0) (w_activeSessionIdRef st0) ev = None"
  shows "send_completed st0 ev xs (ws_run lower [Stream_event n ev, Stream_end n None False] st)"
proof -
  note f = assms(1) [unfolded in_flight_def]
  let ?pid = "w_projectId st0" and ?sid = "w_activeSessionIdRef st0"
  let ?ms = "xs @ [get_prop (lit ''user_message'') (ev_data ev), get_prop (lit ''message'') (ev_data ev)]"
  obtain u a where ua: "get_prop (lit ''messages'') (w_workspace st) = JArr (xs @ [u, a])" "u \<noteq> JNull" "is_plain_object a"
    "item_id u = user_message_id key" "item_id a = assistant_message_id key" using f by blast
  have x: "JNull \<notin> set (xs @ [u, a])" using assms(2) ua by (auto simp: has_messages_def)
  have "map (\<lambda>i. if item_id i = user_message_id key then p i else if item_id i = assistant_message_id key then q i else i) xs = xs" for p q
    using assms(2) by (auto simp: has_messages_def intro: map_idI)
  then have m: "event_messages key ev (xs @ [u, a]) = ?ms"
    using ua(4,5) assms(4) ids_differ [of key key] by (simp add: event_messages_def Let_def)
  have "active_session_of (w_workspace st) = JStr ?sid" using f assms(3) by simp
  then have "change_messages ?sid (event_messages key ev) (w_workspace st) = Some (spread (w_workspace st) [(lit ''messages'', JArr ?ms)])"
    using ua(1) x m by (simp add: change_messages_def)
  then have "agent_event n ?pid ?sid key ev st =
      refreshAgentSessionMetadata ?pid ?sid (st\<lparr>w_workspace := spread (w_workspace st) [(lit ''messages'', JArr ?ms)]\<rparr>)"
    using f assms(4,5) by (simp add: agent_event_def own_agent_def same_project_def update_workspace_def event_handled_def)
  then show ?thesis using f
    by (simp add: send_completed_def ws_run_def ws_step_def render_def agent_end_def end_request_def get_prop_spread
        refreshAgentSessionMetadata_def start_request_def ws_emits_def)
qed

lemma stream_shape:
  obtains evs where "events_of (fst (streamAgentMessage cb response)) = evs" "run_events cb evs"
    "snd (streamAgentMessage cb response) = Inr () \<longleftrightarrow> ends_well cb evs"
proof (cases "ar_ok response \<and> ar_body response \<noteq> None")
  case True
  then obtain chunks tl' where b: "ar_ok response" "ar_body response = Some (chunks, tl')" by auto
  obtain evs where e: "fst (read_loop cb chunks tl' []) = map On_event evs" "run_events cb evs"
    "snd (read_loop cb chunks tl' []) = Inr () \<longleftrightarrow> ends_well cb evs"
    using read_loop_ok [of cb chunks tl' "[]"] by (auto simp: block_ok_def)
  have "events_of (map On_event es @ [Cancel, Release]) = es" for es by (induction es) (simp_all add: events_of_def)
  then show ?thesis using b e that [of evs] by (simp add: streamAgentMessage_def read_stream_def case_prod_unfold)
next
  case False
  then have "streamAgentMessage cb response = ([], Inl (responseError response)) \<or> streamAgentMessage cb response = ([], Inl No_body)"
    by (cases "ar_body response") (auto simp: streamAgentMessage_def)
  then show ?thesis using that [of "[]"] by (auto simp: events_of_def run_events_def ends_well_def)
qed

section \<open>Property\<close>

text \<open>
  C8: A message sent from a page that may send ends in one of two ways, whatever the server answers and however
  its stream is cut. If the client throws, the text and the attachments are back in the input, the two
  placeholders are gone, nothing else in the workspace has changed and the page may send again; if it
  returns, the last event was a completion of this project and session, and its two messages stand at
  the end of the conversation.
\<close>

theorem send_outcome:
  assumes "can_send st" "typed (w_projectId st) (w_workspace st)" "w_activeSessionIdRef st = activeSessionId st" "has_messages key xs st"
  shows "case streamAgentMessage (onEvent_error (w_projectId st) (w_activeSessionIdRef st)) response of
     (es, Inl e) \<Rightarrow> send_undone st (send_message lower error_text key now response st)
   | (es, Inr u) \<Rightarrow> send_completed st (last (events_of es)) xs (send_message lower error_text key now response st)"
proof -
  let ?cb = "onEvent_error (w_projectId st) (w_activeSessionIdRef st)" and ?n = "w_next st"
  obtain es r where s: "streamAgentMessage ?cb response = (es, r)" by fastforce
  have a: "active_session_of (w_workspace st) = JStr (w_activeSessionIdRef st)"
    using active_workspace(2) [OF assms(2,3)] assms(1) by (simp add: can_send_def)
  obtain evs where e: "events_of es = evs" "run_events ?cb evs" "r = Inr () \<longleftrightarrow> ends_well ?cb evs"
    using stream_shape [of ?cb response] s by (metis fst_conv snd_conv)
  define st1 where "st1 = ws_step lower (Send key now) st"
  have f: "in_flight ?n st key xs st1" using send_in_flight [OF assms] by (simp add: st1_def)
  show ?thesis
  proof (cases r)
    case (Inl er)
    then have "\<forall>ev \<in> set evs. ?cb ev \<noteq> None \<or> ev_type ev \<noteq> lit ''completed''"
      using e(2,3) by (cases evs rule: rev_cases) (auto simp: run_events_def ends_well_def goes_on_def list_all_iff)
    from end_failed [OF events_in_flight [OF f assms(4,3) a this] assms(4) a] show ?thesis
      by (simp add: s Inl e(1) send_message_def ws_run_def st1_def)
  next
    case (Inr u)
    then obtain evs' ev where v: "evs = evs' @ [ev]" "ev_type ev = lit ''completed''" "?cb ev = None"
      using e(3) by (cases evs rule: rev_cases) (auto simp: ends_well_def)
    then have "\<forall>ev \<in> set evs'. ?cb ev \<noteq> None \<or> ev_type ev \<noteq> lit ''completed''"
      using e(2) by (auto simp: run_events_def goes_on_def list_all_iff)
    from end_completed [OF events_in_flight [OF f assms(4,3) a this] assms(4) a v(2,3)] show ?thesis
      by (simp add: s Inr e(1) v(1) send_message_def ws_run_def st1_def)
  qed
qed

text \<open>Example data: an empty conversation, a typed text, and a server that answers with an error.\<close>

definition example_page :: ws_state where
  "example_page = (ws_initial (lit ''p'') (lit ''s'') False)\<lparr>w_activeSessionIdRef := lit ''s'', w_message := lit ''hi'',
     w_preference := JObj [(lit ''enabled_skills'', JArr [JStr first_skill])],
     w_workspace := JObj [(lit ''project'', JObj [(lit ''id'', JStr (lit ''p''))]), (lit ''active_session_id'', JStr (lit ''s'')),
       (lit ''messages'', JArr [])]\<rparr>"

definition example_response :: agent_response where
  "example_response = \<lparr>ar_ok = False, ar_status = 500, ar_json = None, ar_body = None\<rparr>"

theorem send_outcome_witness:
  "send_undone example_page (send_message (\<lambda>u. [u]) (\<lambda>e. []) (lit ''k'') (Fin 0) example_response example_page)"
proof -
  have "can_send example_page"
    by (simp add: can_send_def example_page_def ws_initial_def skillEnabled_def parseEnabledSkills_def trim_eq_Nil lit_def is_ws_def ws_units_def)
  moreover have "typed (w_projectId example_page) (w_workspace example_page)"
    by (simp add: example_page_def ws_initial_def typed_def)
  moreover have "w_activeSessionIdRef example_page = activeSessionId example_page"
    by (simp add: example_page_def ws_initial_def activeSessionId_def visibleWorkspace_def)
  moreover have "has_messages (lit ''k'') [] example_page"
    by (simp add: example_page_def has_messages_def)
  ultimately show ?thesis
    using send_outcome [of example_page "lit ''k''" "[]", where response = example_response and lower = "\<lambda>u. [u]"
        and error_text = "\<lambda>e. []" and now = "Fin 0"]
    by (simp add: streamAgentMessage_def example_response_def)
qed

end
