(* ===== verification/Js_Uri.thy ===== *)
theory Js_Uri
  imports Json_Facts
begin

text \<open>
  The parts of the web platform that read and write URL query text:
  \<^verbatim>\<open>encodeURIComponent\<close> of the language and \<^verbatim>\<open>new URLSearchParams(s).get(name)\<close> of the browser
  (the \<^verbatim>\<open>application/x-www-form-urlencoded\<close> parser with its UTF-8 decoder), on strings of UTF-16
  code units.
\<close>

section \<open>UTF-8\<close>

definition code_point :: "nat \<Rightarrow> nat \<Rightarrow> nat" where
  "code_point hi lo = 65536 + (hi - 55296) * 1024 + (lo - 56320)"

definition utf8 :: "nat \<Rightarrow> nat list" where
  "utf8 cp =
     (if cp < 128 then [cp]
      else if cp < 2048 then [192 + cp div 64, 128 + cp mod 64]
      else if cp < 65536 then [224 + cp div 4096, 128 + cp div 64 mod 64, 128 + cp mod 64]
      else [240 + cp div 262144, 128 + cp div 4096 mod 64, 128 + cp div 64 mod 64, 128 + cp mod 64])"

text \<open>The UTF-8 bytes of a string; a surrogate without its partner becomes U+FFFD.\<close>

fun utf8_units :: "jstring \<Rightarrow> nat list" where
  "utf8_units [] = []"
| "utf8_units [c] = utf8 (if is_high_surrogate c \<or> is_low_surrogate c then 65533 else c)"
| "utf8_units (c # d # s) =
     (if is_high_surrogate c \<and> is_low_surrogate d then utf8 (code_point c d) @ utf8_units s
      else utf8 (if is_high_surrogate c \<or> is_low_surrogate c then 65533 else c) @ utf8_units (d # s))"

definition utf16 :: "nat \<Rightarrow> jstring" where
  "utf16 cp = (if cp < 65536 then [cp]
     else [55296 + (cp - 65536) div 1024, 56320 + (cp - 65536) mod 1024])"

text \<open>
  The decoder. \<open>Some (n, lo, hi, cp)\<close>: inside a sequence that still needs \<open>n\<close> continuation bytes,
  the next one between \<open>lo\<close> and \<open>hi\<close>. A byte that does not continue the sequence ends it with
  U+FFFD and is read again as a first byte.
\<close>

definition utf8_lead :: "nat \<Rightarrow> (nat \<times> nat \<times> nat \<times> nat) option" where
  "utf8_lead b =
     (if 194 \<le> b \<and> b \<le> 223 then Some (1, 128, 191, b - 192)
      else if 224 \<le> b \<and> b \<le> 239 then
        Some (2, if b = 224 then 160 else 128, if b = 237 then 159 else 191, b - 224)
      else if 240 \<le> b \<and> b \<le> 244 then
        Some (3, if b = 240 then 144 else 128, if b = 244 then 143 else 191, b - 240)
      else None)"

function utf8_decode :: "(nat \<times> nat \<times> nat \<times> nat) option \<Rightarrow> nat list \<Rightarrow> jstring" where
  "utf8_decode None [] = []"
| "utf8_decode (Some st) [] = [65533]"
| "utf8_decode None (b # bs) =
     (if b < 128 then b # utf8_decode None bs
      else case utf8_lead b of
        None \<Rightarrow> 65533 # utf8_decode None bs
      | Some st \<Rightarrow> utf8_decode (Some st) bs)"
| "utf8_decode (Some (n, lo, hi, cp)) (b # bs) =
     (if lo \<le> b \<and> b \<le> hi then
        (if n = 1 then utf16 (cp * 64 + b mod 64) @ utf8_decode None bs
         else utf8_decode (Some (n - 1, 128, 191, cp * 64 + b mod 64)) bs)
      else 65533 # utf8_decode None (b # bs))"
  by pat_completeness auto
termination
  by (relation "measure (\<lambda>(st, bs). 2 * length bs + (if st = None then 0 else 1))") auto

section \<open>Percent encoding\<close>

definition uri_unreserved :: "nat \<Rightarrow> bool" where
  "uri_unreserved c \<longleftrightarrow> 65 \<le> c \<and> c \<le> 90 \<or> 97 \<le> c \<and> c \<le> 122 \<or> is_digit c \<or>
     c \<in> set (lit ''-_.!~*'' @ [39] @ lit ''()'')"

definition hex_upper :: "nat \<Rightarrow> nat" where
  "hex_upper d = (if d < 10 then 48 + d else 55 + d)"

definition percent_bytes :: "nat list \<Rightarrow> jstring" where
  "percent_bytes bs = concat (map (\<lambda>b. [37, hex_upper (b div 16), hex_upper (b mod 16)]) bs)"

text \<open>\<^verbatim>\<open>encodeURIComponent(s)\<close>; \<open>None\<close> is the URIError for a surrogate without its partner.\<close>

fun encodeURIComponent :: "jstring \<Rightarrow> jstring option" where
  "encodeURIComponent [] = Some []"
| "encodeURIComponent (c # s) =
     (if uri_unreserved c then map_option (Cons c) (encodeURIComponent s)
      else if is_low_surrogate c then None
      else if is_high_surrogate c then
        (case s of
           d # s' \<Rightarrow> if is_low_surrogate d
                    then map_option (append (percent_bytes (utf8 (code_point c d)))) (encodeURIComponent s')
                    else None
         | [] \<Rightarrow> None)
      else map_option (append (percent_bytes (utf8 c))) (encodeURIComponent s))"

definition hex_val :: "nat \<Rightarrow> nat" where
  "hex_val c = (case digit_in_base 16 c of Some d \<Rightarrow> d | None \<Rightarrow> 0)"

fun percent_decode :: "nat list \<Rightarrow> nat list" where
  "percent_decode (b # x # y # bs) =
     (if b = 37 \<and> digit_in_base 16 x \<noteq> None \<and> digit_in_base 16 y \<noteq> None
      then (16 * hex_val x + hex_val y) # percent_decode bs
      else b # percent_decode (x # y # bs))"
| "percent_decode bs = bs"

section \<open>Query text\<close>

definition form_decode :: "nat list \<Rightarrow> jstring" where
  "form_decode bs = utf8_decode None (percent_decode (map (\<lambda>b. if b = 43 then 32 else b) bs))"

text \<open>Name and value of one piece of the query: what stands before and after its first \<^verbatim>\<open>=\<close>.\<close>

definition query_pair :: "nat list \<Rightarrow> jstring \<times> jstring" where
  "query_pair p = (form_decode (takeWhile (\<lambda>b. b \<noteq> 61) p), form_decode (tl (dropWhile (\<lambda>b. b \<noteq> 61) p)))"

definition query_pairs :: "jstring \<Rightarrow> (jstring \<times> jstring) list" where
  "query_pairs q =
     map query_pair
       (filter (\<lambda>p. p \<noteq> [])
         (split_on 38 (utf8_units (if starts_with q (lit ''?'') then tl q else q))))"

text \<open>\<^verbatim>\<open>new URLSearchParams(q).get(name)\<close>: the first value, \<^verbatim>\<open>null\<close> without one.\<close>

definition search_get :: "jstring \<Rightarrow> jstring \<Rightarrow> jsv" where
  "search_get q name = (case map_of (query_pairs q) name of Some v \<Rightarrow> JStr v | None \<Rightarrow> JNull)"

end
