(* ===== verification/Auth_Return.thy ===== *)
theory Auth_Return
  imports Js_Uri
begin

text \<open>
  Where a visitor lands after signing in (\<^verbatim>\<open>helpers/authReturn.js\<close>) and the route guards that use it
  (\<^verbatim>\<open>helpers/auth.jsx\<close>). A page may ask for a return target; only two paths are accepted, whatever
  the query text, the storage or the caller says. A \<^verbatim>\<open>Storage\<close> object is a map with flags for the
  calls that throw (no access, quota); \<open>None\<close> is a storage that cannot be reached at all.
\<close>

section \<open>Browser storage\<close>

record web_storage =
  st_items :: "jstring \<rightharpoonup> jstring"
  st_read_throws :: bool
  st_write_throws :: bool
  st_remove_throws :: bool

definition getItem :: "jstring \<Rightarrow> web_storage \<Rightarrow> jsv option" where
  "getItem k st = (if st_read_throws st then None
     else Some (case st_items st k of Some v \<Rightarrow> JStr v | None \<Rightarrow> JNull))"

definition setItem :: "jstring \<Rightarrow> jstring \<Rightarrow> web_storage \<Rightarrow> web_storage option" where
  "setItem k v st = (if st_write_throws st then None
     else Some (st\<lparr>st_items := (st_items st)(k \<mapsto> v)\<rparr>))"

definition removeItem :: "jstring \<Rightarrow> web_storage \<Rightarrow> web_storage option" where
  "removeItem k st = (if st_remove_throws st then None
     else Some (st\<lparr>st_items := (st_items st)(k := None)\<rparr>))"

abbreviation works :: "web_storage \<Rightarrow> bool" where
  "works st \<equiv> \<not> st_read_throws st \<and> \<not> st_write_throws st \<and> \<not> st_remove_throws st"

section \<open>Return targets\<close>

definition MUJIAN_INTEGRATIONS_PATH :: jstring where
  "MUJIAN_INTEGRATIONS_PATH = lit ''/console/mujian/integrations''"

definition MUJIAN_TOKEN_PATH :: jstring where
  "MUJIAN_TOKEN_PATH = lit ''/console/token''"

definition ALLOWED_AUTH_RETURN_TARGETS :: "jstring list" where
  "ALLOWED_AUTH_RETURN_TARGETS = [MUJIAN_INTEGRATIONS_PATH, MUJIAN_TOKEN_PATH]"

definition OAUTH_RETURN_STORAGE_PREFIX :: jstring where
  "OAUTH_RETURN_STORAGE_PREFIX = lit ''mujian:oauth:return:''"

definition normalizeAuthReturnTarget :: "jsv \<Rightarrow> jsv" where
  "normalizeAuthReturnTarget v =
     (if v \<in> JStr ` set ALLOWED_AUTH_RETURN_TARGETS then v else JNull)"

definition getPostLoginPath :: "jsv \<Rightarrow> jsv \<Rightarrow> jstring" where
  "getPostLoginPath user requestedTarget =
     (case normalizeAuthReturnTarget requestedTarget of
        JStr p \<Rightarrow> p
      | _ \<Rightarrow> if num_le (Fin 10) (js_number (get_prop (lit ''role'') user)) then lit ''/console''
            else lit ''/console/mujian/projects'')"

text \<open>\<open>None\<close> stands for the URIError that \<^verbatim>\<open>encodeURIComponent\<close> may raise.\<close>

definition withAuthReturnTarget :: "jstring \<Rightarrow> jsv \<Rightarrow> jstring option" where
  "withAuthReturnTarget path requestedTarget =
     (case normalizeAuthReturnTarget requestedTarget of
        JStr target \<Rightarrow>
          map_option (\<lambda>e. path @ (if includes_str path (lit ''?'') then lit ''&'' else lit ''?'')
            @ lit ''next='' @ e) (encodeURIComponent target)
      | _ \<Rightarrow> Some path)"

definition oauthReturnStorageKey :: "jstring \<Rightarrow> jstring" where
  "oauthReturnStorageKey state = OAUTH_RETURN_STORAGE_PREFIX @ state"

definition storeOAuthReturnTarget ::
    "jsv \<Rightarrow> jsv \<Rightarrow> web_storage option \<Rightarrow> bool \<times> web_storage option" where
  "storeOAuthReturnTarget state requestedTarget storage =
     (case (state, normalizeAuthReturnTarget requestedTarget, storage) of
        (JStr s, JStr target, Some st) \<Rightarrow>
          if s = [] then (False, storage)
          else (case setItem (oauthReturnStorageKey s)
                       (json_stringify (JObj [(lit ''state'', JStr s), (lit ''target'', JStr target)])) st of
                  Some st' \<Rightarrow> (True, Some st')
                | None \<Rightarrow> (False, storage))
      | _ \<Rightarrow> (False, storage))"

text \<open>
  The \<^verbatim>\<open>try\<close> around \<^verbatim>\<open>getItem\<close> and \<^verbatim>\<open>removeItem\<close>: the text found and the storage left, or
  \<open>None\<close> when one of them throws.
\<close>

definition takeItem :: "jstring \<Rightarrow> web_storage \<Rightarrow> (jsv \<times> web_storage) option" where
  "takeItem key st = (case getItem key st of
       None \<Rightarrow> None
     | Some serialized \<Rightarrow>
         if truthy serialized then map_option (Pair serialized) (removeItem key st)
         else Some (serialized, st))"

definition consumeOAuthReturnTarget :: "jsv \<Rightarrow> web_storage option \<Rightarrow> jsv \<times> web_storage option" where
  "consumeOAuthReturnTarget state storage =
     (case (state, storage) of
        (JStr s, Some st) \<Rightarrow>
          if s = [] then (JNull, storage)
          else (case takeItem (oauthReturnStorageKey s) st of
                  None \<Rightarrow> (JNull, storage)
                | Some (serialized, st') \<Rightarrow>
                    (case serialized of
                       JStr txt \<Rightarrow>
                         (case (if txt = [] then None else json_parse txt) of
                            None \<Rightarrow> (JNull, Some st')
                          | Some rec \<Rightarrow>
                              if get_prop (lit ''state'') rec \<noteq> JStr s
                                 \<or> normalizeAuthReturnTarget (get_prop (lit ''target'') rec) = JNull
                              then (JNull, Some st')
                              else (get_prop (lit ''target'') rec, Some st'))
                     | _ \<Rightarrow> (JNull, Some st')))
      | _ \<Rightarrow> (JNull, storage))"

section \<open>Route guards\<close>

datatype route = Children | Navigate jstring

text \<open>
  \<open>None\<close> stands for an exception of the render. The request header is the object returned.
\<close>

definition authHeader :: "web_storage \<Rightarrow> jsv option" where
  "authHeader local =
     (case getItem (lit ''user'') local of
        None \<Rightarrow> None
      | Some raw \<Rightarrow>
          (case json_parse (js_string raw) of
             None \<Rightarrow> None
           | Some user \<Rightarrow>
               if truthy user \<and> truthy (get_prop (lit ''token'') user)
               then Some (JObj [(lit ''Authorization'',
                      JStr (lit ''Bearer '' @ js_string (get_prop (lit ''token'') user)))])
               else Some (JObj [])))"

definition AuthRedirect :: "jstring \<Rightarrow> web_storage \<Rightarrow> (route \<times> web_storage) option" where
  "AuthRedirect search local =
     (case getItem (lit ''user'') local of
        None \<Rightarrow> None
      | Some (JStr raw) \<Rightarrow>
          if raw = [] then Some (Children, local)
          else (case json_parse raw of
                  Some user \<Rightarrow>
                    Some (Navigate (getPostLoginPath user
                            (normalizeAuthReturnTarget (search_get search (lit ''next'')))), local)
                | None \<Rightarrow> map_option (Pair Children) (removeItem (lit ''user'') local))
      | Some _ \<Rightarrow> Some (Children, local))"

definition to_login :: "jstring \<Rightarrow> route option" where
  "to_login pathname = map_option Navigate
     (withAuthReturnTarget (lit ''/login'') (normalizeAuthReturnTarget (JStr pathname)))"

definition PrivateRoute :: "jstring \<Rightarrow> web_storage \<Rightarrow> route option" where
  "PrivateRoute pathname local =
     (case getItem (lit ''user'') local of
        None \<Rightarrow> None
      | Some raw \<Rightarrow> if \<not> truthy raw then to_login pathname else Some Children)"

definition role_at_least :: "nat \<Rightarrow> jsv \<Rightarrow> bool" where
  "role_at_least minimumRole user \<longleftrightarrow> truthy user \<and>
     (case get_prop (lit ''role'') user of JNum r \<Rightarrow> num_le (num_of_nat minimumRole) r | _ \<Rightarrow> False)"

definition RoleRoute :: "nat \<Rightarrow> jstring \<Rightarrow> web_storage \<Rightarrow> route option" where
  "RoleRoute minimumRole pathname local =
     (case getItem (lit ''user'') local of
        None \<Rightarrow> None
      | Some raw \<Rightarrow>
          if \<not> truthy raw then to_login pathname
          else (case json_parse (js_string raw) of
                  Some user \<Rightarrow> if role_at_least minimumRole user then Some Children
                               else Some (Navigate (lit ''/forbidden''))
                | None \<Rightarrow> Some (Navigate (lit ''/forbidden''))))"

definition AdminRoute :: "jstring \<Rightarrow> web_storage \<Rightarrow> route option" where
  "AdminRoute = RoleRoute 10"

definition RootRoute :: "jstring \<Rightarrow> web_storage \<Rightarrow> route option" where
  "RootRoute = RoleRoute 100"

section \<open>Lemmas on the targets\<close>

definition landing_paths :: "jstring set" where
  "landing_paths = {lit ''/console/mujian/integrations'', lit ''/console/token'', lit ''/console'',
     lit ''/console/mujian/projects''}"

lemma normalize_cases:
  "normalizeAuthReturnTarget v = JNull \<or>
   (\<exists>p. v = JStr p \<and> p \<in> set ALLOWED_AUTH_RETURN_TARGETS \<and> normalizeAuthReturnTarget v = JStr p)"
  by (auto simp: normalizeAuthReturnTarget_def)

lemma normalize_allowed [simp]:
  "p \<in> set ALLOWED_AUTH_RETURN_TARGETS \<Longrightarrow> normalizeAuthReturnTarget (JStr p) = JStr p"
  by (simp add: normalizeAuthReturnTarget_def)

lemma normalize_idem [simp]:
  "normalizeAuthReturnTarget (normalizeAuthReturnTarget v) = normalizeAuthReturnTarget v"
  using normalize_cases [of v] by (auto simp: normalizeAuthReturnTarget_def)

lemma allowed_landing: "set ALLOWED_AUTH_RETURN_TARGETS \<subseteq> landing_paths"
  by (simp add: ALLOWED_AUTH_RETURN_TARGETS_def landing_paths_def MUJIAN_TOKEN_PATH_def
      MUJIAN_INTEGRATIONS_PATH_def)

lemma post_login_landing: "getPostLoginPath user v \<in> landing_paths"
  using normalize_cases [of v] allowed_landing
  by (auto simp: getPostLoginPath_def landing_paths_def)

lemma post_login_allowed [simp]:
  "p \<in> set ALLOWED_AUTH_RETURN_TARGETS \<Longrightarrow> getPostLoginPath user (JStr p) = p"
  by (simp add: getPostLoginPath_def)

lemma consume_allowed:
  "fst (consumeOAuthReturnTarget state storage) \<in> insert JNull (JStr ` set ALLOWED_AUTH_RETURN_TARGETS)"
  using normalize_cases
  by (force simp: consumeOAuthReturnTarget_def split: jsv.splits option.splits prod.splits)

text \<open>The query of the redirect to the sign-in page, and what the page reads back from it.\<close>

definition return_query :: "jstring \<Rightarrow> jstring" where
  "return_query p = (case encodeURIComponent p of Some e \<Rightarrow> lit ''?next='' @ e | None \<Rightarrow> [])"

lemma encode_targets [simp]:
  "encodeURIComponent (lit ''/console/token'') = Some (lit ''%2Fconsole%2Ftoken'')"
  "encodeURIComponent (lit ''/console/mujian/integrations'') = Some (lit ''%2Fconsole%2Fmujian%2Fintegrations'')"
  by (simp_all add: lit_def uri_unreserved_def is_digit_def is_low_surrogate_def is_high_surrogate_def
      utf8_def percent_bytes_def hex_upper_def)

lemmas query_defs = search_get_def query_pairs_def query_pair_def form_decode_def starts_with_def
  is_low_surrogate_def is_high_surrogate_def utf8_def digit_in_base_def hex_val_def is_digit_def

lemma search_get_target:
  "p \<in> set ALLOWED_AUTH_RETURN_TARGETS \<Longrightarrow> search_get (return_query p) (lit ''next'') = JStr p"
proof -
  have "search_get (lit ''?next=%2Fconsole%2Ftoken'') (lit ''next'') = JStr (lit ''/console/token'')"
    by (simp add: lit_def query_defs split_on_no_sep del: split_on.simps)
  moreover have "search_get (lit ''?next=%2Fconsole%2Fmujian%2Fintegrations'') (lit ''next'')
      = JStr (lit ''/console/mujian/integrations'')"
    by (simp add: lit_def query_defs split_on_no_sep del: split_on.simps)
  ultimately show "p \<in> set ALLOWED_AUTH_RETURN_TARGETS \<Longrightarrow> search_get (return_query p) (lit ''next'') = JStr p"
    by (auto simp: ALLOWED_AUTH_RETURN_TARGETS_def MUJIAN_INTEGRATIONS_PATH_def MUJIAN_TOKEN_PATH_def
        return_query_def lit_append [symmetric])
qed

lemma to_login_allowed:
  assumes "p \<in> set ALLOWED_AUTH_RETURN_TARGETS"
  shows "to_login p = Some (Navigate (lit ''/login'' @ return_query p))"
proof -
  have "\<not> includes_str (lit ''/login'') (lit ''?'')" by (simp add: lit_def)
  with assms show ?thesis
    by (auto simp: ALLOWED_AUTH_RETURN_TARGETS_def MUJIAN_INTEGRATIONS_PATH_def MUJIAN_TOKEN_PATH_def
        to_login_def withAuthReturnTarget_def normalizeAuthReturnTarget_def return_query_def
        lit_append [symmetric])
qed

lemma to_login_other: "p \<notin> set ALLOWED_AUTH_RETURN_TARGETS \<Longrightarrow> to_login p = Some (Navigate (lit ''/login''))"
  by (auto simp: to_login_def withAuthReturnTarget_def normalizeAuthReturnTarget_def)

section \<open>Lemmas on the stored target\<close>

abbreviation target_text :: "jstring \<Rightarrow> jstring \<Rightarrow> jstring" where
  "target_text s p \<equiv> json_stringify (JObj [(lit ''state'', JStr s), (lit ''target'', JStr p)])"

lemma target_text_parse [simp]:
  "json_parse (target_text s p) = Some (JObj [(lit ''state'', JStr s), (lit ''target'', JStr p)])"
proof -
  have "wf_props [(lit ''state'', JStr s), (lit ''target'', JStr p)]"
    by (simp add: wf_props_def key_before_def array_index_def all_digits_def is_digit_def lit_def)
  then show ?thesis by simp
qed

lemma target_text_ne [simp]: "target_text s p \<noteq> []"
proof
  assume "target_text s p = []"
  moreover have "json_parse [] = None" by (simp add: json_parse_def lex.simps [of "[]"])
  ultimately show False using target_text_parse [of s p] by simp
qed

lemma store_allowed:
  "works st \<Longrightarrow> s \<noteq> [] \<Longrightarrow> p \<in> set ALLOWED_AUTH_RETURN_TARGETS \<Longrightarrow>
   storeOAuthReturnTarget (JStr s) (JStr p) (Some st) =
     (True, Some (st\<lparr>st_items := (st_items st)(oauthReturnStorageKey s \<mapsto> target_text s p)\<rparr>))"
  by (simp add: storeOAuthReturnTarget_def setItem_def)

lemma consume_stored:
  "works st \<Longrightarrow> s \<noteq> [] \<Longrightarrow> p \<in> set ALLOWED_AUTH_RETURN_TARGETS \<Longrightarrow>
   st_items st (oauthReturnStorageKey s) = Some (target_text s p) \<Longrightarrow>
   consumeOAuthReturnTarget (JStr s) (Some st) =
     (JStr p, Some (st\<lparr>st_items := (st_items st)(oauthReturnStorageKey s := None)\<rparr>))"
  by (simp add: consumeOAuthReturnTarget_def takeItem_def getItem_def removeItem_def)

lemma consume_missing:
  "st_items st (oauthReturnStorageKey s) = None \<Longrightarrow>
   consumeOAuthReturnTarget (JStr s) (Some st) = (JNull, Some st)"
  by (simp add: consumeOAuthReturnTarget_def takeItem_def getItem_def)

lemma storage_key_inject [simp]: "oauthReturnStorageKey s = oauthReturnStorageKey s' \<longleftrightarrow> s = s'"
  by (simp add: oauthReturnStorageKey_def)

end
