(* ===== verification/Oauth_Login.thy ===== *)
theory Oauth_Login
  imports Auth_Return
begin

text \<open>
  Signing in through an external provider: the click handlers that fetch a state token, remember the
  return target under it and leave for the provider (\<^verbatim>\<open>helpers/api.js\<close>), and the page the provider
  comes back to (\<^verbatim>\<open>components/auth/OAuth2Callback.jsx\<close>). The state is what these functions share: the
  user of the context, the two storages of the browser, the \<^verbatim>\<open>hasExecuted\<close> ref and the outward
  effects in order. The answers of the server are arguments. The translation function \<open>t\<close>, the
  message \<open>exn\<close> of an exception the engine raises and the \<^verbatim>\<open>URL\<close> class (\<open>url_set\<close>: the text of
  \<^verbatim>\<open>new URL(base)\<close> after the given \<^verbatim>\<open>searchParams.set\<close> calls, \<open>None\<close> for an invalid base) are
  parameters.
\<close>

section \<open>State\<close>

datatype oauth_effect =
    Get jstring "(jstring \<times> jsv) list"
  | Wait nat
  | ShowError jsv
  | ShowSuccess jstring
  | GoTo jstring
  | UpdateAPI
  | Assign jstring
  | OpenTab jstring

datatype oauth_reply = Rejected jsv | Answer jsv

record oauth =
  oa_executed :: bool
  oa_user :: jsv
  oa_local :: web_storage
  oa_session :: "web_storage option"
  oa_effects :: "oauth_effect list"

definition put_effect :: "oauth_effect \<Rightarrow> oauth \<Rightarrow> oauth" where
  "put_effect e s = s\<lparr>oa_effects := oa_effects s @ [e]\<rparr>"

definition failed_text :: jstring where
  "failed_text = [25480, 26435, 22833, 36133]"

definition bound_text :: jstring where
  "bound_text = [32465, 23450, 25104, 21151, 65281]"

definition welcome_text :: jstring where
  "welcome_text = [30331, 24405, 25104, 21151, 65281]"

definition no_code_text :: jstring where
  "no_code_text = [26410, 33719, 21462, 21040, 25480, 26435, 30721]"

section \<open>Leaving for the provider\<close>

definition redirectToOAuthUrl :: "jstring \<Rightarrow> bool \<Rightarrow> oauth \<Rightarrow> oauth" where
  "redirectToOAuthUrl targetUrl openInNewTab s =
     (if openInNewTab then put_effect (OpenTab targetUrl) s else put_effect (Assign targetUrl) s)"

text \<open>The second component of a result is \<open>None\<close> when the promise is rejected.\<close>

definition getOAuthState :: "oauth_reply \<Rightarrow> oauth \<Rightarrow> oauth \<times> jsv option" where
  "getOAuthState r s =
     (case getItem (lit ''aff'') (oa_local s) of
        None \<Rightarrow> (s, None)
      | Some affCode \<Rightarrow>
          let path = lit ''/api/oauth/state'' @
                (if truthy affCode then lit ''?aff='' @ js_string affCode else []);
              s1 = put_effect (Get path []) s
          in (case r of
                Rejected m \<Rightarrow> (s1, None)
              | Answer d \<Rightarrow>
                  if d = JUndef \<or> d = JNull then (s1, None)
                  else if truthy (get_prop (lit ''success'') d)
                  then (s1, Some (get_prop (lit ''data'') d))
                  else (put_effect (ShowError (get_prop (lit ''message'') d)) s1, Some (JStr []))))"

definition logout_first :: "oauth \<Rightarrow> oauth option" where
  "logout_first s =
     map_option (\<lambda>l. put_effect UpdateAPI (s\<lparr>oa_local := l, oa_effects := oa_effects s @ [Get (lit ''/api/user/logout'') []]\<rparr>))
       (removeItem (lit ''user'') (oa_local s))"

definition prepareOAuthState :: "bool \<Rightarrow> jsv \<Rightarrow> oauth_reply \<Rightarrow> oauth \<Rightarrow> oauth \<times> jsv option" where
  "prepareOAuthState shouldLogout returnTo r s =
     (case (if shouldLogout then logout_first s else Some s) of
        None \<Rightarrow> (put_effect (Get (lit ''/api/user/logout'') []) s, None)
      | Some s1 \<Rightarrow>
          (case getOAuthState r s1 of
             (s2, None) \<Rightarrow> (s2, None)
           | (s2, Some state) \<Rightarrow>
               (s2\<lparr>oa_session := snd (storeOAuthReturnTarget state returnTo (oa_session s2))\<rparr>,
                Some state)))"

text \<open>The shape the handlers share: prepare the state, stop without one, else leave.\<close>

definition with_state :: "(jsv \<Rightarrow> oauth \<Rightarrow> oauth) \<Rightarrow> oauth \<times> jsv option \<Rightarrow> oauth" where
  "with_state go p = (case p of
       (s, Some state) \<Rightarrow> if truthy state then go state s else s
     | (s, None) \<Rightarrow> s)"

definition onDiscordOAuthClicked :: "jstring \<Rightarrow> jsv \<Rightarrow> bool \<Rightarrow> jsv \<Rightarrow> oauth_reply \<Rightarrow> oauth \<Rightarrow> oauth" where
  "onDiscordOAuthClicked origin client_id shouldLogout returnTo r s =
     with_state (\<lambda>state. redirectToOAuthUrl
         (lit ''https://discord.com/oauth2/authorize?client_id='' @ js_string client_id
          @ lit ''&redirect_uri='' @ origin @ lit ''/oauth/discord''
          @ lit ''&response_type=code&scope=identify+openid&state='' @ js_string state) False)
       (prepareOAuthState shouldLogout returnTo r s)"

definition onGitHubOAuthClicked :: "jsv \<Rightarrow> bool \<Rightarrow> jsv \<Rightarrow> oauth_reply \<Rightarrow> oauth \<Rightarrow> oauth" where
  "onGitHubOAuthClicked github_client_id shouldLogout returnTo r s =
     with_state (\<lambda>state. redirectToOAuthUrl
         (lit ''https://github.com/login/oauth/authorize?client_id='' @ js_string github_client_id
          @ lit ''&state='' @ js_string state @ lit ''&scope=user:email'') False)
       (prepareOAuthState shouldLogout returnTo r s)"

definition onLinuxDOOAuthClicked :: "jsv \<Rightarrow> bool \<Rightarrow> jsv \<Rightarrow> oauth_reply \<Rightarrow> oauth \<Rightarrow> oauth" where
  "onLinuxDOOAuthClicked linuxdo_client_id shouldLogout returnTo r s =
     with_state (\<lambda>state. redirectToOAuthUrl
         (lit ''https://connect.linux.do/oauth2/authorize?response_type=code&client_id=''
          @ js_string linuxdo_client_id @ lit ''&state='' @ js_string state) False)
       (prepareOAuthState shouldLogout returnTo r s)"

type_synonym url_class = "jstring \<Rightarrow> (jstring \<times> jstring) list \<Rightarrow> jstring option"

text \<open>An invalid \<^verbatim>\<open>auth_url\<close> makes the constructor throw: the handler is rejected and stays.\<close>

definition onOIDCClicked ::
    "url_class \<Rightarrow> jstring \<Rightarrow> jstring \<Rightarrow> jsv \<Rightarrow> bool \<Rightarrow> bool \<Rightarrow> jsv \<Rightarrow> oauth_reply \<Rightarrow> oauth \<Rightarrow> oauth" where
  "onOIDCClicked url_set origin auth_url client_id openInNewTab shouldLogout returnTo r s =
     with_state (\<lambda>state s1.
         case url_set auth_url
                [(lit ''client_id'', js_string client_id),
                 (lit ''redirect_uri'', origin @ lit ''/oauth/oidc''),
                 (lit ''response_type'', lit ''code''), (lit ''scope'', lit ''openid profile email''),
                 (lit ''state'', js_string state)] of
           None \<Rightarrow> s1
         | Some url \<Rightarrow> redirectToOAuthUrl url openInNewTab s1)
       (prepareOAuthState shouldLogout returnTo r s)"

definition config_text :: jstring where
  "config_text = lit ''OAuth '' @ [37197, 32622, 38169, 35823, 65306, 25480, 26435, 31471, 28857, 24517, 39035, 26159, 23436,
     25972, 30340] @ lit '' URL'' @ [65288, 20197] @ lit '' http:// '' @ [25110] @ lit '' https:// '' @ [24320, 22836, 65289]"

definition oauth_failed_text :: jstring where
  "oauth_failed_text = lit ''OAuth '' @ [30331, 24405, 22833, 36133, 65306]"

definition unknown_text :: jstring where
  "unknown_text = [26410, 30693, 38169, 35823]"

definition onCustomOAuthClicked ::
    "url_class \<Rightarrow> jstring \<Rightarrow> jstring \<Rightarrow> jstring \<Rightarrow> jsv \<Rightarrow> jsv \<Rightarrow> jsv \<Rightarrow> bool \<Rightarrow> jsv \<Rightarrow> oauth_reply \<Rightarrow> oauth \<Rightarrow> oauth" where
  "onCustomOAuthClicked url_set exn origin authorization_endpoint slug client_id scopes shouldLogout returnTo r s =
     with_state (\<lambda>state s1.
         if starts_with authorization_endpoint (lit ''http://'')
            \<or> starts_with authorization_endpoint (lit ''https://'')
         then (case url_set authorization_endpoint
                      [(lit ''client_id'', js_string client_id),
                       (lit ''redirect_uri'', origin @ lit ''/oauth/'' @ js_string slug),
                       (lit ''response_type'', lit ''code''),
                       (lit ''scope'', js_string (or_else scopes (JStr (lit ''openid profile email'')))),
                       (lit ''state'', js_string state)] of
                 None \<Rightarrow> put_effect (ShowError (JStr (oauth_failed_text @ (if exn = [] then unknown_text else exn)))) s1
               | Some url \<Rightarrow> redirectToOAuthUrl url False s1)
         else put_effect (ShowError (JStr config_text)) s1)
       (prepareOAuthState shouldLogout returnTo r s)"

section \<open>Coming back\<close>

definition MAX_OAUTH_RETRIES :: nat where
  "MAX_OAUTH_RETRIES = 3"

text \<open>\<^verbatim>\<open>JSON.stringify(data)\<close> as \<^verbatim>\<open>setItem\<close> stores it: \<^verbatim>\<open>undefined\<close> becomes its name.\<close>

definition stored_text :: "jsv \<Rightarrow> jstring" where
  "stored_text v = (if v = JUndef then lit ''undefined'' else json_stringify v)"

text \<open>\<^verbatim>\<open>setUserData(data)\<close>; \<open>None\<close> when the write throws.\<close>

definition setUserData :: "jsv \<Rightarrow> oauth \<Rightarrow> oauth option" where
  "setUserData data s =
     map_option (\<lambda>l. s\<lparr>oa_local := l\<rparr>) (setItem (lit ''user'') (stored_text data) (oa_local s))"

definition finish_login :: "(jstring \<Rightarrow> jstring) \<Rightarrow> jsv \<Rightarrow> jsv \<Rightarrow> oauth \<Rightarrow> oauth" where
  "finish_login t state data s =
     (let s1 = put_effect (ShowSuccess (t welcome_text)) (put_effect UpdateAPI s);
          (requestedReturnTo, st) = consumeOAuthReturnTarget state (oa_session s1)
      in put_effect (GoTo (getPostLoginPath data requestedReturnTo)) (s1\<lparr>oa_session := st\<rparr>))"

text \<open>The body of the \<^verbatim>\<open>try\<close>: \<open>Some m\<close> when it throws an error with the message \<open>m\<close>.\<close>

definition attempt ::
    "(jstring \<Rightarrow> jstring) \<Rightarrow> jstring \<Rightarrow> jstring \<Rightarrow> jsv \<Rightarrow> jsv \<Rightarrow> oauth_reply \<Rightarrow> oauth \<Rightarrow> oauth \<times> jsv option" where
  "attempt t exn typ code state r s =
     (case encodeURIComponent typ of
        None \<Rightarrow> (s, Some (JStr exn))
      | Some e \<Rightarrow>
          let s1 = put_effect (Get (lit ''/api/oauth/'' @ e) [(lit ''code'', code), (lit ''state'', state)]) s
          in (case r of
                Rejected m \<Rightarrow> (s1, Some m)
              | Answer d \<Rightarrow>
                  if d = JUndef \<or> d = JNull then (s1, Some (JStr exn))
                  else if \<not> truthy (get_prop (lit ''success'') d)
                  then (put_effect (ShowError (or_else (get_prop (lit ''message'') d) (JStr (t failed_text)))) s1, None)
                  else let data = get_prop (lit ''data'') d
                       in if get_prop (lit ''action'') data = JStr (lit ''bind'')
                          then (put_effect (GoTo (lit ''/console/personal'')) (put_effect (ShowSuccess (t bound_text)) s1), None)
                          else let s2 = s1\<lparr>oa_user := data\<rparr>
                               in (case Option.bind (setUserData data s2) (setUserData data) of
                                     None \<Rightarrow> (s2, Some (JStr exn))
                                   | Some s3 \<Rightarrow> (finish_login t state data s3, None))))"

function sendCode ::
    "(jstring \<Rightarrow> jstring) \<Rightarrow> jstring \<Rightarrow> jstring \<Rightarrow> (nat \<Rightarrow> oauth_reply) \<Rightarrow> jsv \<Rightarrow> jsv \<Rightarrow> nat \<Rightarrow> oauth \<Rightarrow> oauth" where
  "sendCode t exn typ server code state retry s =
     (case attempt t exn typ code state (server retry) s of
        (s1, None) \<Rightarrow> s1
      | (s1, Some m) \<Rightarrow>
          if retry < MAX_OAUTH_RETRIES
          then sendCode t exn typ server code state (retry + 1) (put_effect (Wait ((retry + 1) * 2000)) s1)
          else put_effect (GoTo (lit ''/console/personal'')) (put_effect (ShowError (or_else m (JStr (t failed_text)))) s1))"
  by pat_completeness auto
termination
  by (relation "measure (\<lambda>(t, exn, typ, server, code, state, retry, s). MAX_OAUTH_RETRIES - retry)") auto

declare sendCode.simps [simp del]

text \<open>The effect of the page, \<open>search\<close> its query text.\<close>

definition OAuth2Callback ::
    "(jstring \<Rightarrow> jstring) \<Rightarrow> jstring \<Rightarrow> jstring \<Rightarrow> (nat \<Rightarrow> oauth_reply) \<Rightarrow> jstring \<Rightarrow> oauth \<Rightarrow> oauth" where
  "OAuth2Callback t exn typ server search s =
     (if oa_executed s then s
      else let s1 = s\<lparr>oa_executed := True\<rparr>;
               code = search_get search (lit ''code'');
               state = search_get search (lit ''state'')
           in if \<not> truthy code
              then put_effect (GoTo (lit ''/console/personal'')) (put_effect (ShowError (JStr (t no_code_text))) s1)
              else sendCode t exn typ server code state 0 s1)"

end
