(* ===== verification/Auth_Properties.thy ===== *)
theory Auth_Properties
  imports Oauth_Login
begin

text \<open>
  What the sign-in code promises: the guards and the sign-in page bring a visitor back to the page
  asked for and to no other place; the provider round trip returns the target stored for its state
  token exactly once; the callback page ends after at most four requests with one outcome.
\<close>

section \<open>Reading the effects\<close>

fun get_count :: "oauth_effect list \<Rightarrow> nat" where
  "get_count [] = 0"
| "get_count (e # es) = (case e of Get p q \<Rightarrow> 1 | _ \<Rightarrow> 0) + get_count es"

fun wait_list :: "oauth_effect list \<Rightarrow> nat list" where
  "wait_list [] = []"
| "wait_list (e # es) = (case e of Wait n \<Rightarrow> [n] | _ \<Rightarrow> []) @ wait_list es"

fun goto_list :: "oauth_effect list \<Rightarrow> jstring list" where
  "goto_list [] = []"
| "goto_list (e # es) = (case e of GoTo p \<Rightarrow> [p] | _ \<Rightarrow> []) @ goto_list es"

fun closing :: "oauth_effect \<Rightarrow> bool" where
  "closing (GoTo p) = True"
| "closing (ShowError m) = True"
| "closing _ = False"

lemma effects_append [simp]:
  "get_count (es @ fs) = get_count es + get_count fs"
  "wait_list (es @ fs) = wait_list es @ wait_list fs"
  "goto_list (es @ fs) = goto_list es @ goto_list fs"
  by (induction es) auto

lemma put_effect_simps [simp]:
  "oa_effects (put_effect e s) = oa_effects s @ [e]" "oa_local (put_effect e s) = oa_local s"
  "oa_session (put_effect e s) = oa_session s" "oa_user (put_effect e s) = oa_user s"
  "oa_executed (put_effect e s) = oa_executed s"
  by (simp_all add: put_effect_def)

section \<open>The callback page\<close>

abbreviation callback_paths :: "jstring set" where
  "callback_paths \<equiv> insert (lit ''/console/personal'') landing_paths"

lemma personal_not_landing [simp]: "lit ''/console/personal'' \<notin> landing_paths"
  by (simp add: landing_paths_def)

text \<open>
  What the \<open>es\<close> emitted on the way from one state to the next may be: at most \<open>n\<close> requests, no more
  than one navigation, to a known path, and a landing page only with the user stored.
\<close>

definition orderly :: "nat \<Rightarrow> oauth_effect list \<Rightarrow> oauth \<Rightarrow> bool" where
  "orderly n es s' \<longleftrightarrow> get_count es \<le> n \<and> length (goto_list es) \<le> 1 \<and> set (goto_list es) \<subseteq> callback_paths \<and>
     (set (goto_list es) \<inter> landing_paths \<noteq> {} \<longrightarrow>
        st_items (oa_local s') (lit ''user'') = Some (stored_text (oa_user s')))"

lemma set_user_twice:
  "Option.bind (setUserData d s) (setUserData d) = Some s' \<longleftrightarrow>
   \<not> st_write_throws (oa_local s) \<and>
   s' = s\<lparr>oa_local := (oa_local s)\<lparr>st_items := (st_items (oa_local s))(lit ''user'' \<mapsto> stored_text d)\<rparr>\<rparr>"
  by (auto simp: setUserData_def setItem_def)

lemma finish_login_orderly:
  assumes "st_items (oa_local s) (lit ''user'') = Some (stored_text (oa_user s))"
  shows "\<exists>p \<in> landing_paths. oa_effects (finish_login t state d s) =
      oa_effects s @ [UpdateAPI, ShowSuccess (t welcome_text), GoTo p] \<and>
    oa_local (finish_login t state d s) = oa_local s \<and> oa_user (finish_login t state d s) = oa_user s \<and>
    oa_executed (finish_login t state d s) = oa_executed s"
  using post_login_landing by (auto simp: finish_login_def Let_def split: prod.splits)

lemma attempt_done:
  assumes "attempt t exn kind code state r s = (s', None)"
  shows "\<exists>es. oa_effects s' = oa_effects s @ es \<and> orderly 1 es s' \<and> wait_list es = [] \<and> es \<noteq> [] \<and>
    closing (last es) \<and> oa_executed s' = oa_executed s"
proof -
  obtain e where e: "encodeURIComponent kind = Some e"
    using assms by (auto simp: attempt_def split: option.splits)
  obtain d where r: "r = Answer d" and d: "d \<noteq> JUndef" "d \<noteq> JNull"
    using assms by (auto simp: attempt_def e Let_def split: oauth_reply.splits if_splits)
  let ?data = "get_prop (lit ''data'') d"
  let ?s1 = "put_effect (Get (lit ''/api/oauth/'' @ e) [(lit ''code'', code), (lit ''state'', state)]) s"
  consider "\<not> truthy (get_prop (lit ''success'') d)"
    | "truthy (get_prop (lit ''success'') d)" "get_prop (lit ''action'') ?data = JStr (lit ''bind'')"
    | "truthy (get_prop (lit ''success'') d)" "get_prop (lit ''action'') ?data \<noteq> JStr (lit ''bind'')"
    by blast
  then show ?thesis
  proof cases
    case 1
    with assms show ?thesis by (auto simp: attempt_def e r d Let_def orderly_def)
  next
    case 2
    with assms show ?thesis by (auto simp: attempt_def e r d Let_def orderly_def)
  next
    case 3
    then obtain s3 where b: "Option.bind (setUserData ?data (?s1\<lparr>oa_user := ?data\<rparr>)) (setUserData ?data) = Some s3"
      and s': "s' = finish_login t state ?data s3"
      using assms by (auto simp: attempt_def e r d Let_def split: option.splits)
    then have s3: "oa_effects s3 = oa_effects ?s1" "oa_user s3 = ?data" "oa_executed s3 = oa_executed s"
      "st_items (oa_local s3) (lit ''user'') = Some (stored_text (oa_user s3))"
      by (auto simp: set_user_twice)
    show ?thesis using finish_login_orderly [OF s3(4), of t state ?data] s3
      by (auto simp: s' orderly_def)
  qed
qed

lemma attempt_failed:
  assumes "attempt t exn kind code state r s = (s', Some m)"
  shows "\<exists>es. oa_effects s' = oa_effects s @ es \<and> get_count es \<le> 1 \<and> goto_list es = [] \<and>
    wait_list es = [] \<and> oa_executed s' = oa_executed s"
  using assms
  by (auto simp: attempt_def Let_def split: option.splits oauth_reply.splits if_splits)

lemma orderly_prepend:
  "orderly n es s' \<Longrightarrow> get_count fs \<le> m \<Longrightarrow> goto_list fs = [] \<Longrightarrow> orderly (m + n) (fs @ es) s'"
  by (auto simp: orderly_def)

text \<open>
  A run of \<^verbatim>\<open>sendCode\<close> from the attempt number \<open>retry\<close> on: orderly within the attempts left, with
  growing waits between them, and closed by an error message or a navigation.
\<close>

definition ends_orderly :: "nat \<Rightarrow> oauth \<Rightarrow> oauth \<Rightarrow> bool" where
  "ends_orderly retry s s' \<longleftrightarrow> (\<exists>es k. oa_effects s' = oa_effects s @ es \<and>
     orderly (Suc (MAX_OAUTH_RETRIES - retry)) es s' \<and>
     wait_list es = take k (map (\<lambda>i. (i + 1) * 2000) [retry..<MAX_OAUTH_RETRIES]) \<and>
     es \<noteq> [] \<and> closing (last es) \<and> oa_executed s' = oa_executed s)"

lemma done_ends_orderly:
  assumes "attempt t exn kind code state r s = (s', None)"
  shows "ends_orderly retry s s'"
proof -
  from attempt_done [OF assms] obtain es where es: "oa_effects s' = oa_effects s @ es" "orderly 1 es s'"
      "wait_list es = []" "es \<noteq> []" "closing (last es)" "oa_executed s' = oa_executed s"
    by blast
  from es(2) have "orderly (Suc (MAX_OAUTH_RETRIES - retry)) es s'" by (auto simp: orderly_def)
  with es show ?thesis
    unfolding ends_orderly_def by (intro exI [of _ es] exI [of _ 0]) simp
qed

lemma give_up_ends_orderly:
  assumes "attempt t exn kind code state r s = (s1, Some m)"
  shows "ends_orderly retry s (put_effect (GoTo (lit ''/console/personal'')) (put_effect (ShowError v) s1))"
proof -
  from attempt_failed [OF assms] obtain fs where "oa_effects s1 = oa_effects s @ fs" "get_count fs \<le> 1"
      "goto_list fs = []" "wait_list fs = []" "oa_executed s1 = oa_executed s"
    by blast
  then show ?thesis
    unfolding ends_orderly_def
    by (intro exI [of _ "fs @ [ShowError v, GoTo (lit ''/console/personal'')]"] exI [of _ 0])
       (auto simp: orderly_def)
qed

lemma retry_ends_orderly:
  assumes a: "attempt t exn kind code state r s = (s1, Some m)" and retry: "retry < MAX_OAUTH_RETRIES"
    and rest: "ends_orderly (retry + 1) (put_effect (Wait ((retry + 1) * 2000)) s1) s'"
  shows "ends_orderly retry s s'"
proof -
  from attempt_failed [OF a] obtain fs where fs: "oa_effects s1 = oa_effects s @ fs" "get_count fs \<le> 1"
      "goto_list fs = []" "wait_list fs = []" "oa_executed s1 = oa_executed s"
    by blast
  from rest obtain es k where es: "oa_effects s' = oa_effects s1 @ [Wait ((retry + 1) * 2000)] @ es"
      "orderly (Suc (MAX_OAUTH_RETRIES - (retry + 1))) es s'"
      "wait_list es = take k (map (\<lambda>i. (i + 1) * 2000) [retry + 1..<MAX_OAUTH_RETRIES])"
      "es \<noteq> []" "closing (last es)" "oa_executed s' = oa_executed s1"
    unfolding ends_orderly_def by auto
  let ?es = "(fs @ [Wait ((retry + 1) * 2000)]) @ es"
  have "orderly (1 + Suc (MAX_OAUTH_RETRIES - (retry + 1))) ?es s'"
    using es(2) fs by (intro orderly_prepend) auto
  moreover have "1 + Suc (MAX_OAUTH_RETRIES - (retry + 1)) = Suc (MAX_OAUTH_RETRIES - retry)"
    using retry by simp
  moreover have "wait_list ?es = take (Suc k) (map (\<lambda>i. (i + 1) * 2000) [retry..<MAX_OAUTH_RETRIES])"
    using es(3) fs(4) retry by (simp add: upt_conv_Cons)
  ultimately show ?thesis
    using es fs unfolding ends_orderly_def by (intro exI [of _ ?es] exI [of _ "Suc k"]) auto
qed

lemma sendCode_ends_orderly: "ends_orderly retry s (sendCode t exn kind server code state retry s)"
proof (induction t exn kind server code state retry s rule: sendCode.induct)
  case (1 t exn kind server code state retry s)
  obtain s1 res where a: "attempt t exn kind code state (server retry) s = (s1, res)"
    by (cases "attempt t exn kind code state (server retry) s") auto
  show ?case
  proof (cases res)
    case None
    with a done_ends_orderly show ?thesis by (subst sendCode.simps) simp
  next
    case (Some m)
    with a 1 show ?thesis
      by (subst sendCode.simps) (auto intro: retry_ends_orderly give_up_ends_orderly)
  qed
qed

section \<open>The provider round trip\<close>

text \<open>An answer that signs the user in: successful and not the binding of an account.\<close>

definition signs_in :: "jsv \<Rightarrow> bool" where
  "signs_in d \<longleftrightarrow> truthy (get_prop (lit ''success'') d) \<and>
     get_prop (lit ''action'') (get_prop (lit ''data'') d) \<noteq> JStr (lit ''bind'')"

lemma success_not_nullish: "truthy (get_prop k d) \<Longrightarrow> d \<noteq> JUndef \<and> d \<noteq> JNull"
  by (cases d) auto

lemma prepare_stores:
  assumes "\<not> st_read_throws (oa_local s)" "\<not> st_remove_throws (oa_local s)"
    and "truthy (get_prop (lit ''success'') d)"
  shows "snd (prepareOAuthState shouldLogout returnTo (Answer d) s) = Some (get_prop (lit ''data'') d)"
    and "oa_session (fst (prepareOAuthState shouldLogout returnTo (Answer d) s)) =
      snd (storeOAuthReturnTarget (get_prop (lit ''data'') d) returnTo (oa_session s))"
  using assms success_not_nullish [OF assms(3)]
  by (auto simp: prepareOAuthState_def getOAuthState_def logout_first_def removeItem_def getItem_def Let_def)

text \<open>The page is opened with a code and the token \<open>tok\<close>, and the first answer is the sign-in \<open>d\<close>.\<close>

definition returning :: "jstring \<Rightarrow> (nat \<Rightarrow> oauth_reply) \<Rightarrow> jsv \<Rightarrow> jstring \<Rightarrow> jstring \<Rightarrow> oauth \<Rightarrow> bool" where
  "returning kind server d search tok c \<longleftrightarrow> \<not> oa_executed c \<and> \<not> st_write_throws (oa_local c) \<and>
     encodeURIComponent kind \<noteq> None \<and> server 0 = Answer d \<and> signs_in d \<and>
     truthy (search_get search (lit ''code'')) \<and> search_get search (lit ''state'') = JStr tok"

lemma callback_login:
  assumes "returning kind server d search tok c"
  shows "last (oa_effects (OAuth2Callback t exn kind server search c)) =
      GoTo (getPostLoginPath (get_prop (lit ''data'') d) (fst (consumeOAuthReturnTarget (JStr tok) (oa_session c))))"
    and "oa_session (OAuth2Callback t exn kind server search c) =
      snd (consumeOAuthReturnTarget (JStr tok) (oa_session c))"
  using assms success_not_nullish [of "lit ''success''" d] unfolding OAuth2Callback_def returning_def
  by (auto simp: Let_def sendCode.simps [of _ _ _ _ _ _ 0] attempt_def signs_in_def
      setUserData_def setItem_def finish_login_def split: prod.splits)

section \<open>Claims\<close>

text \<open>
  C15: The page a provider returns to always ends, whatever the server answers and the storages do:
  it sends at most four requests, waits 2, 4 and 6 seconds between them, closes with an error message
  or a navigation, navigates at most once and only to one of five known paths, reaches a landing page
  only with the user stored, and does nothing when its effect runs a second time.
\<close>

theorem oauth_callback_ends:
  assumes "\<not> oa_executed s"
  shows "\<exists>es k. oa_effects (OAuth2Callback t exn kind server search s) = oa_effects s @ es \<and>
    get_count es \<le> 4 \<and> wait_list es = take k [2000, 4000, 6000] \<and> es \<noteq> [] \<and> closing (last es) \<and>
    length (goto_list es) \<le> 1 \<and>
    set (goto_list es) \<subseteq> {lit ''/console/personal'', lit ''/console/mujian/integrations'',
      lit ''/console/token'', lit ''/console'', lit ''/console/mujian/projects''} \<and>
    (set (goto_list es) \<subseteq> {lit ''/console/personal''} \<or>
       st_items (oa_local (OAuth2Callback t exn kind server search s)) (lit ''user'') =
         Some (stored_text (oa_user (OAuth2Callback t exn kind server search s)))) \<and>
    OAuth2Callback t exn kind server' search' (OAuth2Callback t exn kind server search s) =
      OAuth2Callback t exn kind server search s"
proof -
  let ?s' = "OAuth2Callback t exn kind server search s"
  have "ends_orderly 0 (s\<lparr>oa_executed := True\<rparr>) ?s'"
  proof (cases "truthy (search_get search (lit ''code''))")
    case True
    with assms sendCode_ends_orderly show ?thesis by (simp add: OAuth2Callback_def Let_def)
  next
    case False
    with assms show ?thesis
      unfolding ends_orderly_def OAuth2Callback_def Let_def
      by (intro exI [of _ "[ShowError (JStr (t no_code_text)), GoTo (lit ''/console/personal'')]"] exI [of _ 0])
         (simp add: orderly_def)
  qed
  then obtain es k where es: "oa_effects ?s' = oa_effects s @ es" "orderly 4 es ?s'"
      "wait_list es = take k [2000, 4000, 6000]" "es \<noteq> []" "closing (last es)" "oa_executed ?s'"
    unfolding ends_orderly_def by (auto simp: MAX_OAUTH_RETRIES_def upt_rec)
  from es(6) have "OAuth2Callback t exn kind server' search' ?s' = ?s'"
    by (simp add: OAuth2Callback_def)
  moreover have "set (goto_list es) \<subseteq> {lit ''/console/personal''} \<or> set (goto_list es) \<inter> landing_paths \<noteq> {}"
    using es(2) by (auto simp: orderly_def)
  ultimately show ?thesis
    using es by (intro exI [of _ es] exI [of _ k]) (auto simp: orderly_def landing_paths_def)
qed

definition plain_storage :: "(jstring \<rightharpoonup> jstring) \<Rightarrow> web_storage" where
  "plain_storage m = \<lparr>st_items = m, st_read_throws = False, st_write_throws = False, st_remove_throws = False\<rparr>"

definition fresh_page :: oauth where
  "fresh_page = \<lparr>oa_executed = False, oa_user = JUndef, oa_local = plain_storage Map.empty,
     oa_session = Some (plain_storage Map.empty), oa_effects = []\<rparr>"

theorem oauth_callback_ends_witness:
  "\<not> oa_executed fresh_page \<and>
   (\<exists>es k. oa_effects (OAuth2Callback id [] (lit ''github'') (\<lambda>n. Rejected JUndef) (lit ''?code=a'') fresh_page) = es \<and>
      get_count es \<le> 4 \<and> wait_list es = take k [2000, 4000, 6000] \<and> closing (last es))"
proof -
  have "\<not> oa_executed fresh_page" by (simp add: fresh_page_def)
  moreover have "oa_effects fresh_page = []" by (simp add: fresh_page_def)
  ultimately show ?thesis
    using oauth_callback_ends [of fresh_page id "[]" "lit ''github''" "\<lambda>n. Rejected JUndef" "lit ''?code=a''"]
    by fastforce
qed

text \<open>
  C14: The return target remembered when a visitor leaves for the provider is where the visitor lands
  after signing in there, it is used once (the same state token coming back again lands on the
  default page), and a state token nothing was stored for lands on the default page.
\<close>

theorem oauth_return_roundtrip:
  assumes s: "oa_session s = Some st" "works st" "\<not> st_read_throws (oa_local s)" "\<not> st_remove_throws (oa_local s)"
    and a: "truthy (get_prop (lit ''success'') a)" "get_prop (lit ''data'') a = JStr tok" "tok \<noteq> []"
    and p: "p \<in> set ALLOWED_AUTH_RETURN_TARGETS"
    and c: "oa_session c = oa_session (fst (prepareOAuthState shouldLogout (JStr p) (Answer a) s))"
    and ret: "returning kind server d search tok c"
    and c': "oa_session c' = oa_session (OAuth2Callback t exn kind server search c)"
    and again: "returning kind server d search tok c'"
    and other: "returning kind server d forged tok' c" "st_items st (oauthReturnStorageKey tok') = None" "tok' \<noteq> tok"
  shows "snd (prepareOAuthState shouldLogout (JStr p) (Answer a) s) = Some (JStr tok) \<and>
    last (oa_effects (OAuth2Callback t exn kind server search c)) = GoTo p \<and>
    last (oa_effects (OAuth2Callback t exn kind server search c')) =
      GoTo (getPostLoginPath (get_prop (lit ''data'') d) JNull) \<and>
    last (oa_effects (OAuth2Callback t exn kind server forged c)) =
      GoTo (getPostLoginPath (get_prop (lit ''data'') d) JNull)"
proof -
  let ?st = "st\<lparr>st_items := (st_items st)(oauthReturnStorageKey tok \<mapsto> target_text tok p)\<rparr>"
  have session: "oa_session c = Some ?st"
    using prepare_stores(2) [OF s(3,4) a(1)] store_allowed [OF s(2) a(3) p] by (simp add: c a(2) s(1))
  have used: "consumeOAuthReturnTarget (JStr tok) (Some ?st) =
      (JStr p, Some (?st\<lparr>st_items := (st_items ?st)(oauthReturnStorageKey tok := None)\<rparr>))"
    using s(2) a(3) p by (intro consume_stored) auto
  have "fst (consumeOAuthReturnTarget (JStr tok) (oa_session c')) = JNull"
    using callback_login(2) [OF ret, of t exn] by (simp add: c' session used consume_missing)
  moreover have "fst (consumeOAuthReturnTarget (JStr tok') (oa_session c)) = JNull"
    using other(2,3) by (simp add: session consume_missing)
  ultimately show ?thesis
    using prepare_stores(1) [OF s(3,4) a(1)] callback_login(1) [OF ret] callback_login(1) [OF again]
      callback_login(1) [OF other(1)] p
    by (simp add: a(2) session used)
qed

definition token_answer :: jsv where
  "token_answer = JObj [(lit ''success'', JBool True), (lit ''data'', JStr (lit ''s1''))]"

definition user_answer :: jsv where
  "user_answer = JObj [(lit ''success'', JBool True), (lit ''data'', JObj [(lit ''role'', JNum (Fin 1))])]"

lemma role_1_post_login: "getPostLoginPath (get_prop (lit ''data'') user_answer) JNull = lit ''/console/mujian/projects''"
  by (simp add: getPostLoginPath_def normalizeAuthReturnTarget_def user_answer_def num_le_def)

theorem oauth_return_roundtrip_witness:
  "let left = fst (prepareOAuthState False (JStr (lit ''/console/token'')) (Answer token_answer) fresh_page);
       home = OAuth2Callback id [] (lit ''github'') (\<lambda>n. Answer user_answer)
   in last (oa_effects (home (lit ''?code=x&state=s1'') left)) = GoTo (lit ''/console/token'') \<and>
      last (oa_effects (home (lit ''?code=x&state=s2'') left)) = GoTo (lit ''/console/mujian/projects'')"
proof -
  let ?left = "fst (prepareOAuthState False (JStr (lit ''/console/token'')) (Answer token_answer) fresh_page)"
  let ?home = "OAuth2Callback id [] (lit ''github'') (\<lambda>n. Answer user_answer)"
  let ?again = "?left\<lparr>oa_session := oa_session (?home (lit ''?code=x&state=s1'') ?left)\<rparr>"
  have q: "search_get (lit ''?code=x&state=s1'') (lit ''code'') = JStr (lit ''x'')"
    "search_get (lit ''?code=x&state=s1'') (lit ''state'') = JStr (lit ''s1'')"
    "search_get (lit ''?code=x&state=s2'') (lit ''code'') = JStr (lit ''x'')"
    "search_get (lit ''?code=x&state=s2'') (lit ''state'') = JStr (lit ''s2'')"
    by (simp_all add: lit_def query_defs split_on_no_sep)
  have e: "encodeURIComponent (lit ''github'') \<noteq> None"
    by (simp add: lit_def uri_unreserved_def is_digit_def)
  have left: "oa_executed ?left = False" "oa_local ?left = plain_storage Map.empty"
    by (simp_all add: prepareOAuthState_def getOAuthState_def fresh_page_def plain_storage_def token_answer_def
        getItem_def Let_def)
  have ret: "returning (lit ''github'') (\<lambda>n. Answer user_answer) user_answer (lit ''?code=x&state=s1'') (lit ''s1'') ?left"
    "returning (lit ''github'') (\<lambda>n. Answer user_answer) user_answer (lit ''?code=x&state=s1'') (lit ''s1'') ?again"
    "returning (lit ''github'') (\<lambda>n. Answer user_answer) user_answer (lit ''?code=x&state=s2'') (lit ''s2'') ?left"
    using e by (simp_all add: returning_def left q signs_in_def user_answer_def plain_storage_def)
  have s: "oa_session fresh_page = Some (plain_storage Map.empty)" "works (plain_storage Map.empty)"
    "\<not> st_read_throws (oa_local fresh_page)" "\<not> st_remove_throws (oa_local fresh_page)"
    "st_items (plain_storage Map.empty) k = None" for k
    by (simp_all add: fresh_page_def plain_storage_def)
  have a: "truthy (get_prop (lit ''success'') token_answer)" "get_prop (lit ''data'') token_answer = JStr (lit ''s1'')"
    by (simp_all add: token_answer_def)
  have p: "lit ''/console/token'' \<in> set ALLOWED_AUTH_RETURN_TARGETS"
    by (simp add: ALLOWED_AUTH_RETURN_TARGETS_def MUJIAN_TOKEN_PATH_def)
  show ?thesis
    using oauth_return_roundtrip [OF s(1-4) a(1,2) _ p refl ret(1) _ ret(2,3) s(5), of id "[]"]
    by (simp add: Let_def role_1_post_login)
qed

text \<open>
  C16: A guard that finds nobody signed in sends the visitor to the sign-in page with a query; once a
  user is stored, the sign-in page reads that query and navigates back to the guarded page when it is
  one of the two accepted targets and to the default page of the role otherwise. For every query text
  the sign-in page navigates to one of four paths. A signed-in visitor sees a guarded page exactly
  when the stored role is a number that reaches the minimum.
\<close>

theorem guard_returns:
  assumes out: "\<not> st_read_throws local" "st_items local (lit ''user'') = None"
    and signed: "\<not> st_read_throws local'" "st_items local' (lit ''user'') = Some raw" "raw \<noteq> []"
      "json_parse raw = Some user"
  shows "(\<exists>q. PrivateRoute path local = Some (Navigate (lit ''/login'' @ q)) \<and>
      RoleRoute m path local = Some (Navigate (lit ''/login'' @ q)) \<and>
      AuthRedirect q local' = Some (Navigate
        (if path = lit ''/console/token'' \<or> path = lit ''/console/mujian/integrations'' then path
         else getPostLoginPath user JNull), local')) \<and>
    (\<exists>l \<in> {lit ''/console/mujian/integrations'', lit ''/console/token'', lit ''/console'',
        lit ''/console/mujian/projects''}. AuthRedirect search local' = Some (Navigate l, local')) \<and>
    PrivateRoute path local' = Some Children \<and>
    RoleRoute m path local' = Some (if role_at_least m user then Children else Navigate (lit ''/forbidden''))"
proof -
  have redirect: "AuthRedirect q local' = Some (Navigate (getPostLoginPath user
      (normalizeAuthReturnTarget (search_get q (lit ''next'')))), local')" for q
    using signed by (simp add: AuthRedirect_def getItem_def)
  have guards: "PrivateRoute path local = to_login path" "RoleRoute m path local = to_login path"
    using out by (simp_all add: PrivateRoute_def RoleRoute_def getItem_def)
  have inside: "PrivateRoute path local' = Some Children"
      "RoleRoute m path local' = Some (if role_at_least m user then Children else Navigate (lit ''/forbidden''))"
    using signed by (simp_all add: PrivateRoute_def RoleRoute_def getItem_def)
  have "\<exists>q. to_login path = Some (Navigate (lit ''/login'' @ q)) \<and>
      getPostLoginPath user (normalizeAuthReturnTarget (search_get q (lit ''next''))) =
        (if path \<in> set ALLOWED_AUTH_RETURN_TARGETS then path else getPostLoginPath user JNull)"
  proof (cases "path \<in> set ALLOWED_AUTH_RETURN_TARGETS")
    case True
    then show ?thesis by (auto simp: to_login_allowed search_get_target)
  next
    case False
    have "search_get [] (lit ''next'') = JNull" by (simp add: query_defs lit_def)
    with False show ?thesis by (auto simp: to_login_other normalizeAuthReturnTarget_def intro: exI [of _ "[]"])
  qed
  then show ?thesis
    using post_login_landing [of user]
    by (auto simp: redirect guards inside landing_paths_def ALLOWED_AUTH_RETURN_TARGETS_def MUJIAN_INTEGRATIONS_PATH_def MUJIAN_TOKEN_PATH_def)
qed

theorem guard_returns_witness:
  "\<exists>q. RoleRoute 10 (lit ''/console/token'') (plain_storage Map.empty) = Some (Navigate (lit ''/login'' @ q)) \<and>
     AuthRedirect q (plain_storage [lit ''user'' \<mapsto> json_stringify (JObj [])]) =
       Some (Navigate (lit ''/console/token''), plain_storage [lit ''user'' \<mapsto> json_stringify (JObj [])])"
proof -
  have "json_parse (json_stringify (JObj [])) = Some (JObj [])" by simp
  moreover have "json_stringify (JObj []) \<noteq> []" by (simp add: json_stringify_def json_wrap_def)
  ultimately show ?thesis
    using guard_returns [of "plain_storage Map.empty" "plain_storage [lit ''user'' \<mapsto> json_stringify (JObj [])]"
      "json_stringify (JObj [])" "JObj []" "lit ''/console/token''" 10 "[]"]
    by (auto simp: plain_storage_def)
qed

end
