(* ===== verification/Json_Editor.thy ===== *)
theory Json_Editor
  imports Json_Facts
begin

text \<open>
  The shared JSON object editor (\<^verbatim>\<open>components/common/ui/JSONEditor.jsx\<close>): one JSON text, edited
  either as rows of key and value or as raw text. The record holds the component's \<^verbatim>\<open>useState\<close>
  fields, its \<^verbatim>\<open>value\<close> prop, the counter behind \<^verbatim>\<open>generateUniqueId\<close> and the texts handed to
  \<^verbatim>\<open>onChange\<close>. The message of a parse error is the parameter \<open>perr\<close>. The parent is controlled: it
  passes every emitted text back as the new \<^verbatim>\<open>value\<close>, which runs the two effects (the form field
  set through \<^verbatim>\<open>formApi\<close> gets the same text and is not a second component of the state).
\<close>

section \<open>State\<close>

record kv_pair =
  kv_id :: jstring
  kv_key :: jstring
  kv_value :: jsv

datatype json_mode = Visual | Manual

record json_editor =
  je_value :: jsv
  je_pairs :: "kv_pair list"
  je_manual :: jstring
  je_mode :: json_mode
  je_error :: jstring
  je_counter :: nat
  je_emitted :: "jstring list"

section \<open>Rows and objects\<close>

definition generateUniqueId :: "nat \<Rightarrow> jstring \<times> nat" where
  "generateUniqueId counter = (lit ''kv_'' @ show_nat counter, counter + 1)"

fun entries_to_pairs :: "props \<Rightarrow> kv_pair list \<Rightarrow> nat \<Rightarrow> kv_pair list \<times> nat" where
  "entries_to_pairs [] prev n = ([], n)"
| "entries_to_pairs ((k, v) # es) prev n =
     (let (rid, n') = (case prev of
            p # _ \<Rightarrow> if kv_key p = k then (kv_id p, n) else generateUniqueId n
          | [] \<Rightarrow> generateUniqueId n);
          (ps, n'') = entries_to_pairs es (tl prev) n'
      in (\<lparr>kv_id = rid, kv_key = k, kv_value = v\<rparr> # ps, n''))"

definition object_entries :: "jsv \<Rightarrow> props" where
  "object_entries obj = (if \<not> truthy obj \<or> type_of obj \<noteq> lit ''object'' then [] else entries_of obj)"

definition objectToKeyValueArray :: "jsv \<Rightarrow> kv_pair list \<Rightarrow> nat \<Rightarrow> kv_pair list \<times> nat" where
  "objectToKeyValueArray obj prevPairs counter = entries_to_pairs (object_entries obj) prevPairs counter"

definition keyValueArrayToObject :: "kv_pair list \<Rightarrow> props" where
  "keyValueArrayToObject arr =
     foldl (\<lambda>result item. if kv_key item \<noteq> [] then obj_set (kv_key item) (kv_value item) result else result) [] arr"

definition set_pairs :: "jsv \<Rightarrow> kv_pair list \<Rightarrow> json_editor \<Rightarrow> json_editor" where
  "set_pairs obj prev s = (let (ps, n) = objectToKeyValueArray obj prev (je_counter s)
     in s\<lparr>je_pairs := ps, je_counter := n\<rparr>)"

fun count_keys :: "kv_pair list \<Rightarrow> jstring list \<Rightarrow> jstring list \<Rightarrow> jstring list" where
  "count_keys [] seen dups = dups"
| "count_keys (p # ps) seen dups =
     (if kv_key p = [] then count_keys ps seen dups
      else if kv_key p \<in> set seen \<and> kv_key p \<notin> set dups then count_keys ps seen (dups @ [kv_key p])
      else count_keys ps (kv_key p # seen) dups)"

definition duplicateKeys :: "json_editor \<Rightarrow> jstring list" where
  "duplicateKeys s = count_keys (je_pairs s) [] []"

section \<open>The value prop\<close>

text \<open>
  The value as the effects read it: \<open>None\<close> when \<^verbatim>\<open>JSON.parse\<close> throws.
\<close>

definition parsed_value :: "jsv \<Rightarrow> jsv option" where
  "parsed_value v = (case v of
       JStr s \<Rightarrow> if trim s \<noteq> [] then json_parse s else Some (JObj [])
     | _ \<Rightarrow> if type_of v = lit ''object'' \<and> v \<noteq> JNull then Some v else Some (JObj []))"

definition value_text :: "jsv \<Rightarrow> jstring" where
  "value_text v = (case v of
       JStr s \<Rightarrow> s
     | _ \<Rightarrow> if truthy v \<and> type_of v = lit ''object'' then json_stringify2 v else [])"

definition object_text :: "props \<Rightarrow> jstring" where
  "object_text ob = (if obj_keys ob = [] then [] else json_stringify2 (JObj ob))"

definition initial_pairs :: "jsv \<Rightarrow> nat \<Rightarrow> kv_pair list \<times> nat" where
  "initial_pairs v n = (case v of
       JStr s \<Rightarrow> (case (if trim s \<noteq> [] then json_parse s else None) of
           Some parsed \<Rightarrow> objectToKeyValueArray parsed [] n
         | None \<Rightarrow> ([], n))
     | _ \<Rightarrow> if type_of v = lit ''object'' \<and> v \<noteq> JNull then objectToKeyValueArray v [] n else ([], n))"

text \<open>\<^verbatim>\<open>Object.keys(parsed).length\<close>; \<open>None\<close> is the TypeError for \<^verbatim>\<open>null\<close>.\<close>

definition key_count :: "jsv \<Rightarrow> nat option" where
  "key_count v = (if v = JNull \<or> v = JUndef then None else Some (length (entries_of v)))"

definition initial_mode :: "jsv \<Rightarrow> json_mode" where
  "initial_mode v = (case v of
       JStr s \<Rightarrow>
         if trim s \<noteq> []
         then (case Option.bind (json_parse s) key_count of
                 Some n \<Rightarrow> if n > 10 then Manual else Visual
               | None \<Rightarrow> Manual)
         else Visual
     | _ \<Rightarrow> Visual)"

definition sync_pairs :: "(jsv \<Rightarrow> jstring) \<Rightarrow> json_editor \<Rightarrow> json_editor" where
  "sync_pairs perr s = (case parsed_value (je_value s) of
       None \<Rightarrow> s\<lparr>je_error := perr (je_value s)\<rparr>
     | Some parsed \<Rightarrow>
         (if json_stringify parsed \<noteq> json_stringify (JObj (keyValueArrayToObject (je_pairs s)))
          then set_pairs parsed (je_pairs s) s else s)\<lparr>je_error := []\<rparr>)"

definition sync_manual :: "json_editor \<Rightarrow> json_editor" where
  "sync_manual s = (if je_mode s \<noteq> Manual then s\<lparr>je_manual := value_text (je_value s)\<rparr> else s)"

text \<open>
  A new value from the parent, and the first render. The effects run when the value differs from the
  last one; an object counts as new each time it is passed.
\<close>

definition receive :: "(jsv \<Rightarrow> jstring) \<Rightarrow> jsv \<Rightarrow> json_editor \<Rightarrow> json_editor" where
  "receive perr v s = (if v = je_value s \<and> (type_of v \<noteq> lit ''object'' \<or> v = JNull) then s
      else sync_manual (sync_pairs perr (s\<lparr>je_value := v\<rparr>)))"

definition mount :: "(jsv \<Rightarrow> jstring) \<Rightarrow> nat \<Rightarrow> jsv \<Rightarrow> json_editor" where
  "mount perr n v =
     (let (ps, n') = initial_pairs v n
      in sync_manual (sync_pairs perr
           \<lparr>je_value = v, je_pairs = ps, je_manual = value_text v, je_mode = initial_mode v,
            je_error = [], je_counter = n', je_emitted = []\<rparr>))"

section \<open>Handlers\<close>

definition onChange :: "(jsv \<Rightarrow> jstring) \<Rightarrow> jstring \<Rightarrow> json_editor \<Rightarrow> json_editor" where
  "onChange perr txt s = receive perr (JStr txt) (s\<lparr>je_emitted := je_emitted s @ [txt]\<rparr>)"

definition handleVisualChange :: "(jsv \<Rightarrow> jstring) \<Rightarrow> kv_pair list \<Rightarrow> json_editor \<Rightarrow> json_editor" where
  "handleVisualChange perr newPairs s =
     onChange perr (object_text (keyValueArrayToObject newPairs)) (s\<lparr>je_pairs := newPairs, je_error := []\<rparr>)"

definition handleManualChange :: "(jsv \<Rightarrow> jstring) \<Rightarrow> jstring \<Rightarrow> json_editor \<Rightarrow> json_editor" where
  "handleManualChange perr newValue s =
     (let s1 = s\<lparr>je_manual := newValue\<rparr>
      in if trim newValue \<noteq> []
         then (case json_parse newValue of
                 Some parsed \<Rightarrow>
                   onChange perr newValue ((set_pairs parsed (je_pairs s1) s1)\<lparr>je_error := []\<rparr>)
               | None \<Rightarrow> s1\<lparr>je_error := perr (JStr newValue)\<rparr>)
         else onChange perr [] (s1\<lparr>je_pairs := [], je_error := []\<rparr>))"

text \<open>What \<^verbatim>\<open>toggleEditMode\<close> parses on the way back to the rows.\<close>

definition manual_value :: "json_editor \<Rightarrow> jsv option" where
  "manual_value s = (if trim (je_manual s) \<noteq> [] then json_parse (je_manual s) else parsed_value (je_value s))"

definition toggleEditMode :: "(jsv \<Rightarrow> jstring) \<Rightarrow> json_editor \<Rightarrow> json_editor" where
  "toggleEditMode perr s =
     (if je_mode s = Visual
      then s\<lparr>je_manual := object_text (keyValueArrayToObject (je_pairs s)), je_mode := Manual\<rparr>
      else (case manual_value s of
              Some parsed \<Rightarrow> sync_manual ((set_pairs parsed (je_pairs s) s)\<lparr>je_error := [], je_mode := Visual\<rparr>)
            | None \<Rightarrow> s\<lparr>je_error := perr (if trim (je_manual s) \<noteq> [] then JStr (je_manual s) else je_value s)\<rparr>))"

definition selectTab :: "(jsv \<Rightarrow> jstring) \<Rightarrow> json_mode \<Rightarrow> json_editor \<Rightarrow> json_editor" where
  "selectTab perr key s =
     (if key = Manual \<and> je_mode s = Visual then s\<lparr>je_mode := Manual\<rparr>
      else if key = Visual \<and> je_mode s = Manual then toggleEditMode perr s
      else s)"

definition field_name :: "nat \<Rightarrow> jstring" where
  "field_name counter = lit ''field_'' @ show_nat counter"

lemma field_name_inject [simp]: "field_name i = field_name j \<longleftrightarrow> i = j"
  by (simp add: field_name_def)

text \<open>
  The loop of \<^verbatim>\<open>addKeyValue\<close>. It ends because the names it has still to pass are among the existing
  keys and each turn passes one.
\<close>

function free_field :: "jstring list \<Rightarrow> nat \<Rightarrow> nat" where
  "free_field existingKeys counter =
     (if field_name counter \<in> set existingKeys then free_field existingKeys (counter + 1) else counter)"
  by pat_completeness auto
termination
proof (relation "measure (\<lambda>(ks, n). card {k \<in> set ks. \<exists>i \<ge> n. k = field_name i})", goal_cases)
  case (2 ks n)
  have "{k \<in> set ks. \<exists>i \<ge> n + 1. k = field_name i} \<subset> {k \<in> set ks. \<exists>i \<ge> n. k = field_name i}"
  proof
    show "{k \<in> set ks. \<exists>i \<ge> n + 1. k = field_name i} \<subseteq> {k \<in> set ks. \<exists>i \<ge> n. k = field_name i}"
      by (auto intro: order.trans [OF le_add1])
    show "{k \<in> set ks. \<exists>i \<ge> n + 1. k = field_name i} \<noteq> {k \<in> set ks. \<exists>i \<ge> n. k = field_name i}"
      using 2 by (auto simp: set_eq_iff intro!: exI [of _ "field_name n"])
  qed
  then show ?case by (simp add: psubset_card_mono)
qed simp

declare free_field.simps [simp del]

definition add_row :: "(jsv \<Rightarrow> jstring) \<Rightarrow> jstring \<Rightarrow> jsv \<Rightarrow> json_editor \<Rightarrow> json_editor" where
  "add_row perr key v s =
     (let (rid, n) = generateUniqueId (je_counter s)
      in handleVisualChange perr (je_pairs s @ [\<lparr>kv_id = rid, kv_key = key, kv_value = v\<rparr>]) (s\<lparr>je_counter := n\<rparr>))"

definition addKeyValue :: "(jsv \<Rightarrow> jstring) \<Rightarrow> json_editor \<Rightarrow> json_editor" where
  "addKeyValue perr s = add_row perr (field_name (free_field (map kv_key (je_pairs s)) 1)) (JStr []) s"

definition removeKeyValue :: "(jsv \<Rightarrow> jstring) \<Rightarrow> jstring \<Rightarrow> json_editor \<Rightarrow> json_editor" where
  "removeKeyValue perr rid s = handleVisualChange perr (filter (\<lambda>p. kv_id p \<noteq> rid) (je_pairs s)) s"

definition updateKey :: "(jsv \<Rightarrow> jstring) \<Rightarrow> jstring \<Rightarrow> jstring \<Rightarrow> json_editor \<Rightarrow> json_editor" where
  "updateKey perr rid newKey s =
     handleVisualChange perr (map (\<lambda>p. if kv_id p = rid then p\<lparr>kv_key := newKey\<rparr> else p) (je_pairs s)) s"

definition updateValue :: "(jsv \<Rightarrow> jstring) \<Rightarrow> jstring \<Rightarrow> jsv \<Rightarrow> json_editor \<Rightarrow> json_editor" where
  "updateValue perr rid newValue s =
     handleVisualChange perr (map (\<lambda>p. if kv_id p = rid then p\<lparr>kv_value := newValue\<rparr> else p) (je_pairs s)) s"

definition fillTemplate :: "(jsv \<Rightarrow> jstring) \<Rightarrow> jsv \<Rightarrow> json_editor \<Rightarrow> json_editor" where
  "fillTemplate perr template s =
     (if truthy template
      then onChange perr (json_stringify2 template)
             ((set_pairs template (je_pairs s) (s\<lparr>je_manual := json_stringify2 template\<rparr>))\<lparr>je_error := []\<rparr>)
      else s)"

text \<open>
  The input of a nested value, which ignores text that does not parse, and of a plain one, which turns
  the names of the booleans and the texts of whole numbers into values.
\<close>

definition nestedInput :: "(jsv \<Rightarrow> jstring) \<Rightarrow> jstring \<Rightarrow> jstring \<Rightarrow> json_editor \<Rightarrow> json_editor" where
  "nestedInput perr rid txt s =
     (case (if trim txt \<noteq> [] then json_parse txt else Some (JObj [])) of
        Some obj \<Rightarrow> updateValue perr rid obj s
      | None \<Rightarrow> s)"

definition convertedValue :: "jstring \<Rightarrow> jsv" where
  "convertedValue newValue =
     (if newValue = lit ''true'' then JBool True
      else if newValue = lit ''false'' then JBool False
      else if number_of_string newValue \<noteq> NaN \<and> newValue \<noteq> [] \<and> is_integer (number_of_string newValue)
      then JNum (number_of_string newValue)
      else JStr newValue)"

definition plainInput :: "(jsv \<Rightarrow> jstring) \<Rightarrow> jstring \<Rightarrow> jstring \<Rightarrow> json_editor \<Rightarrow> json_editor" where
  "plainInput perr rid newValue s = updateValue perr rid (convertedValue newValue) s"

text \<open>The default region of the region editor: the first row of that name, or a new one.\<close>

definition defaultRegion :: "(jsv \<Rightarrow> jstring) \<Rightarrow> jsv \<Rightarrow> json_editor \<Rightarrow> json_editor" where
  "defaultRegion perr v s =
     (case find (\<lambda>p. kv_key p = lit ''default'') (je_pairs s) of
        Some p \<Rightarrow> updateValue perr (kv_id p) v s
      | None \<Rightarrow> add_row perr (lit ''default'') v s)"

section \<open>Events\<close>

datatype je_event =
    Receive jsv
  | ManualText jstring
  | Tab json_mode
  | AddRow
  | RemoveRow jstring
  | RenameRow jstring jstring
  | ValueInput jstring jsv
  | NestedInput jstring jstring
  | PlainInput jstring jstring
  | DefaultRegion jsv
  | Template jsv

text \<open>The text area is on screen in manual mode, the rows in visual mode.\<close>

fun je_enabled :: "json_mode \<Rightarrow> je_event \<Rightarrow> bool" where
  "je_enabled mode (Receive v) = True"
| "je_enabled mode (Tab key) = True"
| "je_enabled mode (Template v) = True"
| "je_enabled mode (ManualText txt) = (mode = Manual)"
| "je_enabled mode e = (mode = Visual)"

fun je_step :: "(jsv \<Rightarrow> jstring) \<Rightarrow> je_event \<Rightarrow> json_editor \<Rightarrow> json_editor" where
  "je_step perr (Receive v) s = receive perr v s"
| "je_step perr (ManualText txt) s = handleManualChange perr txt s"
| "je_step perr (Tab key) s = selectTab perr key s"
| "je_step perr AddRow s = addKeyValue perr s"
| "je_step perr (RemoveRow rid) s = removeKeyValue perr rid s"
| "je_step perr (RenameRow rid key) s = updateKey perr rid key s"
| "je_step perr (ValueInput rid v) s = updateValue perr rid v s"
| "je_step perr (NestedInput rid txt) s = nestedInput perr rid txt s"
| "je_step perr (PlainInput rid txt) s = plainInput perr rid txt s"
| "je_step perr (DefaultRegion v) s = defaultRegion perr v s"
| "je_step perr (Template v) s = fillTemplate perr v s"

end
