(* ===== verification/Json_Editor_Facts.thy ===== *)
theory Json_Editor_Facts
  imports Json_Editor
begin

text \<open>
  The rows of the JSON editor against the value of its parent: rows have distinct identifiers, and the
  object they spell is the one the value parses to, in every state the two tabs can reach.
\<close>

section \<open>Rows from entries\<close>

abbreviation row_id :: "nat \<Rightarrow> jstring" where
  "row_id i \<equiv> lit ''kv_'' @ show_nat i"

definition row_entries :: "kv_pair list \<Rightarrow> props" where
  "row_entries ps = map (\<lambda>r. (kv_key r, kv_value r)) ps"

lemma entries_to_pairs_entries: "row_entries (fst (entries_to_pairs es prev n)) = es"
  by (induction es prev n rule: entries_to_pairs.induct)
     (auto simp: row_entries_def split: prod.splits)

lemma entries_to_pairs_Cons:
  assumes "entries_to_pairs ((k, v) # es) prev n = (ps, n')"
  obtains (old) p prev' qs where "prev = p # prev'" "ps = \<lparr>kv_id = kv_id p, kv_key = k, kv_value = v\<rparr> # qs"
      "entries_to_pairs es prev' n = (qs, n')"
    | (new) qs where "ps = \<lparr>kv_id = row_id n, kv_key = k, kv_value = v\<rparr> # qs"
      "entries_to_pairs es (tl prev) (n + 1) = (qs, n')"
proof (cases "\<exists>p prev'. prev = p # prev' \<and> kv_key p = k")
  case True
  then obtain p prev' where p: "prev = p # prev'" "kv_key p = k" by blast
  obtain qs m where "entries_to_pairs es prev' n = (qs, m)" by fastforce
  with assms p show thesis by (intro old [of p prev' qs]) simp_all
next
  case False
  then have "(case prev of p # _ \<Rightarrow> if kv_key p = k then (kv_id p, n) else generateUniqueId n
      | [] \<Rightarrow> generateUniqueId n) = (row_id n, n + 1)"
    by (cases prev) (simp_all add: generateUniqueId_def)
  moreover obtain qs m where "entries_to_pairs es (tl prev) (n + 1) = (qs, m)" by fastforce
  ultimately show thesis using assms by (intro new [of qs]) simp_all
qed

text \<open>The identifiers are old ones of the previous rows, or new.\<close>

lemma entries_to_pairs_ids:
  assumes "entries_to_pairs es prev n = (ps, n')"
  shows "n \<le> n' \<and> kv_id ` set ps \<subseteq> kv_id ` set prev \<union> row_id ` {n..<n'}"
  using assms
proof (induction es arbitrary: prev n ps)
  case Nil
  then show ?case by simp
next
  case (Cons e es)
  obtain k v where e: "e = (k, v)" by (cases e)
  from Cons.prems [unfolded e] show ?case
  proof (cases rule: entries_to_pairs_Cons)
    case (old p prev' qs)
    from Cons.IH [OF old(3)] show ?thesis by (auto simp: old(1,2))
  next
    case (new qs)
    have "set (tl prev) \<subseteq> set prev" by (cases prev) auto
    then have "kv_id ` set (tl prev) \<subseteq> kv_id ` set prev" by (rule image_mono)
    moreover have "row_id ` {n + 1..<n'} \<subseteq> row_id ` {n..<n'}" by (rule image_mono) auto
    ultimately have "kv_id ` set qs \<subseteq> kv_id ` set prev \<union> row_id ` {n..<n'}"
      using Cons.IH [OF new(2)] by blast
    then show ?thesis using Cons.IH [OF new(2)] by (simp add: new(1))
  qed
qed

lemma entries_to_pairs_distinct:
  assumes "entries_to_pairs es prev n = (ps, n')" "distinct (map kv_id prev)"
    and "kv_id ` set prev \<subseteq> row_id ` {..<n}"
  shows "distinct (map kv_id ps)"
  using assms
proof (induction es arbitrary: prev n ps)
  case Nil
  then show ?case by simp
next
  case (Cons e es)
  obtain k v where e: "e = (k, v)" by (cases e)
  from Cons.prems(1) [unfolded e] show ?case
  proof (cases rule: entries_to_pairs_Cons)
    case (old p prev' qs)
    have "kv_id p \<notin> row_id ` {n..<n'}" using Cons.prems(3) by (auto simp: old(1))
    moreover have "kv_id p \<notin> kv_id ` set prev'" using Cons.prems(2) by (simp add: old(1))
    ultimately have "kv_id p \<notin> kv_id ` set qs" using entries_to_pairs_ids [OF old(3)] by blast
    with Cons.IH [OF old(3)] Cons.prems(2,3) show ?thesis by (simp add: old(1,2))
  next
    case (new qs)
    have sub: "set (tl prev) \<subseteq> set prev" by (cases prev) auto
    have tl: "distinct (map kv_id (tl prev))" using Cons.prems(2) by (simp add: map_tl distinct_tl)
    have old: "kv_id ` set (tl prev) \<subseteq> row_id ` {..<n}" using sub Cons.prems(3) by blast
    moreover have "row_id ` {..<n} \<subseteq> row_id ` {..<n + 1}" by (rule image_mono) auto
    ultimately have "kv_id ` set (tl prev) \<subseteq> row_id ` {..<n + 1}" by (rule order.trans)
    moreover have "row_id n \<notin> row_id ` {..<n}" "row_id n \<notin> row_id ` {n + 1..<n'}" by auto
    then have "row_id n \<notin> kv_id ` set qs" using entries_to_pairs_ids [OF new(2)] old by blast
    ultimately show ?thesis using Cons.IH [OF new(2) tl] by (simp add: new(1))
  qed
qed

section \<open>The object the rows spell\<close>

lemma keyValueArrayToObject_eq:
  "keyValueArrayToObject ps = obj_of_list (filter (\<lambda>e. fst e \<noteq> []) (row_entries ps))"
proof -
  have "foldl (\<lambda>result item. if kv_key item \<noteq> [] then obj_set (kv_key item) (kv_value item) result else result) ob ps =
      obj_assign ob (filter (\<lambda>e. fst e \<noteq> []) (row_entries ps))" for ob
    by (induction ps arbitrary: ob) (auto simp: row_entries_def obj_assign_def)
  then show ?thesis by (simp add: keyValueArrayToObject_def obj_of_list_def)
qed

text \<open>Each key with the value of its last row; rows without a key do not count.\<close>

lemma map_of_named: "map_of (filter (\<lambda>e. fst e \<noteq> []) es) k = (if k = [] then None else map_of es k)"
  by (induction es) auto

lemma map_of_rows:
  "map_of (keyValueArrayToObject ps) k = (if k = [] then None else map_of (rev (row_entries ps)) k)"
  by (simp only: keyValueArrayToObject_eq map_of_obj_of_list rev_filter map_of_named)

definition json_rows :: "kv_pair list \<Rightarrow> bool" where
  "json_rows ps \<longleftrightarrow> (\<forall>r \<in> set ps. wf_json (kv_value r))"

lemma wf_json_rows:
  assumes "json_rows ps"
  shows "wf_json (JObj (keyValueArrayToObject ps))"
proof -
  have "all_json (filter (\<lambda>e. fst e \<noteq> []) (row_entries ps))"
    using assms by (auto simp: json_rows_def row_entries_def all_json_def)
  then show ?thesis
    by (simp add: keyValueArrayToObject_eq wf_obj_of_list all_json_obj_of_list)
qed

section \<open>Texts that parse\<close>

lemma json_parse_not_blank: "json_parse s = Some v \<Longrightarrow> trim s \<noteq> []"
  using json_parse_blank [of s] by auto

definition wf_text :: "jstring \<Rightarrow> bool" where
  "wf_text s = (case json_parse s of Some p \<Rightarrow> wf_json p | None \<Rightarrow> True)"

fun wf_value :: "jsv \<Rightarrow> bool" where
  "wf_value (JStr s) = wf_text s"
| "wf_value (JArr vs) = wf_json (JArr vs)"
| "wf_value (JObj ps) = wf_json (JObj ps)"
| "wf_value v = True"

lemma wf_parsed_value: "wf_value v \<Longrightarrow> parsed_value v = Some p \<Longrightarrow> wf_json p"
  by (cases v) (auto simp: parsed_value_def wf_text_def split: if_splits)

lemma parsed_object_text: "json_rows ps \<Longrightarrow>
   parsed_value (JStr (object_text (keyValueArrayToObject ps))) = Some (JObj (keyValueArrayToObject ps))"
  using json_parse_not_blank json_parse_stringify2 [OF wf_json_rows]
  by (auto simp: parsed_value_def object_text_def obj_keys_def)

lemma manual_of_value:
  assumes "wf_value (je_value s)" "je_manual s = value_text (je_value s)"
  shows "manual_value s = parsed_value (je_value s)"
  using assms json_parse_not_blank
  by (cases "je_value s") (auto simp: manual_value_def parsed_value_def value_text_def)

section \<open>The invariant\<close>

text \<open>
  The rows show the parsed value \<open>p\<close>: they list its entries, or the object they spell has its JSON
  text (the comparison the component makes).
\<close>

definition rows_show :: "jsv \<Rightarrow> kv_pair list \<Rightarrow> bool" where
  "rows_show p ps \<longleftrightarrow> row_entries ps = object_entries p \<or>
     json_stringify (JObj (keyValueArrayToObject ps)) = json_stringify p"

definition row_inv :: "json_editor \<Rightarrow> bool" where
  "row_inv s \<longleftrightarrow> distinct (map kv_id (je_pairs s)) \<and> kv_id ` set (je_pairs s) \<subseteq> row_id ` {..<je_counter s} \<and>
     json_rows (je_pairs s)"

definition value_inv :: "json_editor \<Rightarrow> bool" where
  "value_inv s \<longleftrightarrow> wf_value (je_value s) \<and>
     (\<forall>p. parsed_value (je_value s) = Some p \<longrightarrow> rows_show p (je_pairs s))"

definition text_inv :: "json_editor \<Rightarrow> bool" where
  "text_inv s \<longleftrightarrow> (case je_mode s of
       Visual \<Rightarrow> je_manual s = value_text (je_value s)
     | Manual \<Rightarrow> \<forall>p. manual_value s = Some p \<longrightarrow> parsed_value (je_value s) = Some p)"

definition je_inv :: "json_editor \<Rightarrow> bool" where
  "je_inv s \<longleftrightarrow> row_inv s \<and> value_inv s \<and> text_inv s"

lemma json_entries: "wf_json p \<Longrightarrow> all_json (object_entries p)"
  by (cases p) (auto simp: object_entries_def all_json_def dest: set_zip_rightD)

lemma json_rows_entries: "json_rows ps \<longleftrightarrow> all_json (row_entries ps)"
  by (simp add: json_rows_def row_entries_def all_json_def)

lemma set_pairs_row_inv:
  assumes "row_inv s" "wf_json obj"
  shows "row_inv (set_pairs obj (je_pairs s) s)"
proof -
  obtain ps n where e: "entries_to_pairs (object_entries obj) (je_pairs s) (je_counter s) = (ps, n)" by fastforce
  have "json_rows ps"
    using json_entries [OF assms(2)] entries_to_pairs_entries [of "object_entries obj" "je_pairs s" "je_counter s"]
    by (simp add: e json_rows_entries)
  moreover have "row_id ` {..<je_counter s} \<union> row_id ` {je_counter s..<n} = row_id ` {..<n}"
    using entries_to_pairs_ids [OF e] by (simp flip: image_Un add: ivl_disj_un_one(2))
  then have "kv_id ` set ps \<subseteq> row_id ` {..<n}"
    using assms(1) entries_to_pairs_ids [OF e] unfolding row_inv_def by blast
  ultimately show ?thesis
    using assms(1) entries_to_pairs_distinct [OF e]
    by (simp add: row_inv_def set_pairs_def objectToKeyValueArray_def e)
qed

lemma set_pairs_show: "rows_show obj (je_pairs (set_pairs obj prev s))"
  using entries_to_pairs_entries [of "object_entries obj" prev "je_counter s"]
  by (auto simp: rows_show_def set_pairs_def objectToKeyValueArray_def split: prod.splits)

lemma set_pairs_frame [simp]:
  "je_value (set_pairs obj prev s) = je_value s" "je_manual (set_pairs obj prev s) = je_manual s"
  "je_mode (set_pairs obj prev s) = je_mode s" "je_emitted (set_pairs obj prev s) = je_emitted s"
  by (simp_all add: set_pairs_def split: prod.splits)

lemma row_inv_cong:
  "je_pairs s' = je_pairs s \<Longrightarrow> je_counter s' = je_counter s \<Longrightarrow> row_inv s' = row_inv s"
  by (simp add: row_inv_def)

lemma sync_pairs_frame [simp]:
  "je_value (sync_pairs perr s) = je_value s" "je_manual (sync_pairs perr s) = je_manual s"
  "je_mode (sync_pairs perr s) = je_mode s"
  by (simp_all add: sync_pairs_def split: option.splits)

lemma sync_manual_frame [simp]:
  "je_value (sync_manual s) = je_value s" "je_pairs (sync_manual s) = je_pairs s"
  "je_mode (sync_manual s) = je_mode s" "je_counter (sync_manual s) = je_counter s"
  by (simp_all add: sync_manual_def)

lemma sync_pairs_inv:
  assumes "row_inv s" "wf_value (je_value s)"
  shows "row_inv (sync_pairs perr s)" and "value_inv (sync_pairs perr s)"
proof -
  show "row_inv (sync_pairs perr s)"
    using assms set_pairs_row_inv [OF assms(1)] wf_parsed_value [OF assms(2)]
    by (auto simp: sync_pairs_def split: option.splits cong: row_inv_cong)
  show "value_inv (sync_pairs perr s)"
    using assms set_pairs_show
    by (auto simp: value_inv_def sync_pairs_def rows_show_def split: option.splits)
qed

lemma receive_frame [simp]:
  "je_value (receive perr v s) = v" "je_mode (receive perr v s) = je_mode s"
  by (auto simp: receive_def)

lemma receive_inv:
  assumes "row_inv s" "wf_value v"
    and "v = je_value s \<Longrightarrow> value_inv s"
  shows "row_inv (receive perr v s)" and "value_inv (receive perr v s)"
proof -
  let ?s = "s\<lparr>je_value := v\<rparr>"
  have "row_inv ?s" "wf_value (je_value ?s)" using assms(1,2) by (simp_all add: row_inv_def)
  note i = sync_pairs_inv [OF this]
  show "row_inv (receive perr v s)"
    using assms(1) i(1) [of perr] by (simp add: receive_def row_inv_def)
  show "value_inv (receive perr v s)"
    using assms(3) i(2) [of perr] by (simp add: receive_def value_inv_def)
qed

lemma receive_text_Visual:
  assumes "je_mode s = Visual" "v = je_value s \<Longrightarrow> je_manual s = value_text v"
  shows "text_inv (receive perr v s)"
  using assms by (auto simp: text_inv_def receive_def sync_manual_def)

lemma receive_manual: "je_mode s = Manual \<Longrightarrow> je_manual (receive perr v s) = je_manual s"
  by (simp add: receive_def sync_manual_def)

end
