(* ===== verification/Json_Editor_Properties.thy ===== *)
theory Json_Editor_Properties
  imports Json_Editor_Facts
begin

text \<open>
  Every handler of the JSON editor keeps its invariant, and what follows: in every state the user can
  reach, the rows show the value the parent holds; the name given to a new row is unused.
\<close>

section \<open>Handlers keep the invariant\<close>

lemma wf_object_text: "json_rows ps \<Longrightarrow> wf_value (JStr (object_text (keyValueArrayToObject ps)))"
  using wf_json_rows [of ps] json_parse_not_blank [of "[]"]
  by (auto simp: wf_text_def object_text_def split: option.splits)

lemma visual_inv:
  assumes "row_inv (s\<lparr>je_pairs := ps\<rparr>)" "text_inv s" "je_mode s = Visual"
  shows "je_inv (handleVisualChange perr ps s)"
proof -
  let ?txt = "object_text (keyValueArrayToObject ps)"
  let ?s = "s\<lparr>je_pairs := ps, je_error := [], je_emitted := je_emitted s @ [?txt]\<rparr>"
  have rows: "json_rows ps" and r: "row_inv ?s" using assms(1) by (simp_all add: row_inv_def)
  have "JStr ?txt = je_value ?s \<Longrightarrow> value_inv ?s"
    using wf_object_text [OF rows] parsed_object_text [OF rows]
    by (auto simp: value_inv_def rows_show_def)
  note i = receive_inv [OF r wf_object_text [OF rows] this]
  have "text_inv (receive perr (JStr ?txt) ?s)"
    using assms(2,3) by (intro receive_text_Visual) (auto simp: text_inv_def)
  with i show ?thesis by (simp add: je_inv_def handleVisualChange_def onChange_def)
qed

lemma row_inv_filter: "row_inv s \<Longrightarrow> row_inv (s\<lparr>je_pairs := filter P (je_pairs s)\<rparr>)"
  by (auto simp: row_inv_def json_rows_def distinct_map_filter)

lemma row_inv_map:
  assumes "row_inv s" "\<And>r. kv_id (f r) = kv_id r" "\<And>r. wf_json (kv_value r) \<Longrightarrow> wf_json (kv_value (f r))"
  shows "row_inv (s\<lparr>je_pairs := map f (je_pairs s)\<rparr>)"
proof -
  have "kv_id \<circ> f = kv_id" using assms(2) by (simp add: fun_eq_iff)
  with assms show ?thesis by (auto simp: row_inv_def json_rows_def image_subset_iff)
qed

lemma row_inv_add:
  assumes "row_inv s" "wf_json v"
  shows "row_inv (s\<lparr>je_counter := je_counter s + 1, je_pairs := je_pairs s @ [\<lparr>kv_id = row_id (je_counter s), kv_key = k, kv_value = v\<rparr>]\<rparr>)"
proof -
  have "row_id (je_counter s) \<notin> row_id ` {..<je_counter s}" by auto
  moreover have "row_id ` {..<je_counter s} \<subseteq> row_id ` {..<je_counter s + 1}" by (rule image_mono) auto
  ultimately show ?thesis using assms by (auto simp: row_inv_def json_rows_def)
qed

lemma add_row_inv:
  assumes "je_inv s" "je_mode s = Visual" "wf_json v"
  shows "je_inv (add_row perr k v s)"
proof -
  let ?s = "s\<lparr>je_counter := je_counter s + 1\<rparr>"
  have "je_inv (handleVisualChange perr (je_pairs s @ [\<lparr>kv_id = row_id (je_counter s), kv_key = k, kv_value = v\<rparr>]) ?s)"
    using assms row_inv_add [of s v k] by (intro visual_inv) (simp_all add: je_inv_def text_inv_def)
  then show ?thesis by (simp add: add_row_def generateUniqueId_def)
qed

lemma update_value_inv:
  assumes "je_inv s" "je_mode s = Visual" "wf_json v"
  shows "je_inv (updateValue perr rid v s)"
  unfolding updateValue_def using assms by (intro visual_inv row_inv_map) (auto simp: je_inv_def)

lemma default_region_inv:
  "je_inv s \<Longrightarrow> je_mode s = Visual \<Longrightarrow> wf_json v \<Longrightarrow> je_inv (defaultRegion perr v s)"
  by (simp add: defaultRegion_def update_value_inv add_row_inv split: option.splits)

lemma nested_input_inv:
  "je_inv s \<Longrightarrow> je_mode s = Visual \<Longrightarrow> wf_text txt \<Longrightarrow> je_inv (nestedInput perr rid txt s)"
  by (auto simp: nestedInput_def wf_text_def update_value_inv split: option.splits)

text \<open>The emitted text \<open>txt\<close> comes back as the value while its parsed form \<open>p\<close> is what the rows list.\<close>

lemma echo_inv:
  assumes "row_inv s" "parsed_value (JStr txt) = Some p" "wf_json p" "wf_text txt" "rows_show p (je_pairs s)"
  shows "row_inv (onChange perr txt s)" and "value_inv (onChange perr txt s)"
proof -
  let ?s = "s\<lparr>je_emitted := je_emitted s @ [txt]\<rparr>"
  have "row_inv ?s" using assms(1) by (simp add: row_inv_def)
  moreover have "JStr txt = je_value ?s \<Longrightarrow> value_inv ?s"
    using assms(2-5) by (simp add: value_inv_def eq_commute [of "JStr txt"])
  ultimately show "row_inv (onChange perr txt s)" and "value_inv (onChange perr txt s)"
    using assms(4) receive_inv [of ?s "JStr txt" perr] by (simp_all add: onChange_def)
qed

lemma onChange_frame [simp]: "je_value (onChange perr txt s) = JStr txt" "je_mode (onChange perr txt s) = je_mode s"
  by (simp_all add: onChange_def)

lemma onChange_manual: "je_mode s = Manual \<Longrightarrow> je_manual (onChange perr txt s) = je_manual s"
  by (simp add: onChange_def receive_manual)

lemma manual_inv:
  assumes "je_inv s" "je_mode s = Manual" "wf_text txt"
  shows "je_inv (handleManualChange perr txt s)"
proof (cases "json_parse txt")
  case None
  show ?thesis
  proof (cases "trim txt = []")
    case True
    let ?s = "s\<lparr>je_manual := txt, je_pairs := [], je_error := []\<rparr>"
    have "row_inv ?s" by (simp add: row_inv_def json_rows_def)
    moreover have "rows_show (JObj []) (je_pairs ?s)"
      by (simp add: rows_show_def row_entries_def object_entries_def)
    moreover have "parsed_value (JStr []) = Some (JObj [])" "wf_text []"
      using json_parse_not_blank [of "[]"] by (auto simp: parsed_value_def wf_text_def split: option.splits)
    ultimately have "row_inv (onChange perr [] ?s)" "value_inv (onChange perr [] ?s)"
      by (auto intro: echo_inv)
    moreover have "text_inv (onChange perr [] ?s)"
      using True assms(2) onChange_manual [of ?s perr "[]"] by (simp add: text_inv_def manual_value_def)
    ultimately show ?thesis using True by (simp add: je_inv_def handleManualChange_def)
  next
    case False
    with None assms show ?thesis
      by (simp add: handleManualChange_def je_inv_def row_inv_def value_inv_def text_inv_def manual_value_def)
  qed
next
  case (Some p)
  then have nb: "trim txt \<noteq> []" and p: "wf_json p" "parsed_value (JStr txt) = Some p"
    using json_parse_not_blank assms(3) by (auto simp: wf_text_def parsed_value_def)
  let ?s = "(set_pairs p (je_pairs s) (s\<lparr>je_manual := txt\<rparr>))\<lparr>je_error := []\<rparr>"
  have "row_inv (set_pairs p (je_pairs s) (s\<lparr>je_manual := txt\<rparr>))"
    using set_pairs_row_inv [of "s\<lparr>je_manual := txt\<rparr>" p] assms(1) p(1) by (simp add: je_inv_def row_inv_def)
  then have "row_inv ?s" by (simp add: row_inv_def)
  from echo_inv [OF this p(2,1) assms(3)] have "row_inv (onChange perr txt ?s)" "value_inv (onChange perr txt ?s)"
    by (simp_all add: set_pairs_show)
  moreover have "text_inv (onChange perr txt ?s)"
    using assms(2) nb Some p(2) onChange_manual [of ?s perr] by (simp add: text_inv_def manual_value_def)
  ultimately show ?thesis using nb Some by (simp add: je_inv_def handleManualChange_def)
qed

lemma template_keeps:
  assumes "je_inv s" "wf_json v"
  shows "je_inv (fillTemplate perr v s)"
proof (cases "truthy v")
  case False
  with assms(1) show ?thesis by (simp add: fillTemplate_def)
next
  case True
  let ?txt = "json_stringify2 v"
  let ?s = "(set_pairs v (je_pairs s) (s\<lparr>je_manual := ?txt\<rparr>))\<lparr>je_error := []\<rparr>"
  have parse: "json_parse ?txt = Some v" using assms(2) by simp
  then have p: "parsed_value (JStr ?txt) = Some v" and nb: "trim ?txt \<noteq> []" and wf: "wf_text ?txt"
    using json_parse_not_blank [OF parse] assms(2) by (simp_all add: parsed_value_def wf_text_def)
  have "row_inv (set_pairs v (je_pairs s) (s\<lparr>je_manual := ?txt\<rparr>))"
    using set_pairs_row_inv [of "s\<lparr>je_manual := ?txt\<rparr>" v] assms by (simp add: je_inv_def row_inv_def)
  then have "row_inv ?s" by (simp add: row_inv_def)
  from echo_inv [OF this p assms(2) wf] have "row_inv (onChange perr ?txt ?s)" "value_inv (onChange perr ?txt ?s)"
    by (simp_all add: set_pairs_show)
  moreover have "text_inv (onChange perr ?txt ?s)"
  proof (cases "je_mode s")
    case Visual
    then show ?thesis unfolding onChange_def by (intro receive_text_Visual) (simp, simp (no_asm) add: value_text_def)
  next
    case Manual
    then show ?thesis
      using nb parse p onChange_manual [of ?s perr] by (simp add: text_inv_def manual_value_def)
  qed
  ultimately show ?thesis using True by (simp add: je_inv_def fillTemplate_def)
qed

lemma tab_inv:
  assumes "je_inv s"
  shows "je_inv (selectTab perr key s)"
proof (cases "je_mode s")
  case Visual
  with assms manual_of_value [of s] show ?thesis
    by (auto simp: selectTab_def je_inv_def row_inv_def value_inv_def text_inv_def manual_value_def)
next
  case Manual
  have toggle: "je_inv (toggleEditMode perr s)"
  proof (cases "manual_value s")
    case None
    with Manual assms show ?thesis
      by (simp add: toggleEditMode_def je_inv_def row_inv_def value_inv_def text_inv_def manual_value_def split: if_splits)
  next
    case (Some p)
    then have p: "parsed_value (je_value s) = Some p" "wf_json p"
      using assms Manual wf_parsed_value by (auto simp: je_inv_def text_inv_def value_inv_def)
    let ?s = "(set_pairs p (je_pairs s) s)\<lparr>je_error := [], je_mode := Visual\<rparr>"
    have "row_inv (set_pairs p (je_pairs s) s)" using assms p(2) by (simp add: set_pairs_row_inv je_inv_def)
    then have "row_inv (sync_manual ?s)" by (simp add: row_inv_def)
    moreover have "value_inv (sync_manual ?s)"
      using assms p(1) set_pairs_show by (simp add: je_inv_def value_inv_def)
    moreover have "text_inv (sync_manual ?s)" by (simp add: text_inv_def sync_manual_def)
    ultimately show ?thesis using Manual Some by (simp add: toggleEditMode_def je_inv_def)
  qed
  with assms Manual show ?thesis by (simp add: selectTab_def)
qed

lemma initial_row_inv:
  assumes "wf_value v" "initial_pairs v n = (ps, n')"
  shows "row_inv (s\<lparr>je_pairs := ps, je_counter := n'\<rparr>)"
proof -
  have start: "row_inv (s\<lparr>je_pairs := [], je_counter := n\<rparr>)" by (simp add: row_inv_def json_rows_def)
  have made: "row_inv (s\<lparr>je_pairs := qs, je_counter := m\<rparr>)" if "wf_json p" "objectToKeyValueArray p [] n = (qs, m)" for p qs m
    using set_pairs_row_inv [OF start that(1)] that(2) by (simp add: set_pairs_def row_inv_def)
  show ?thesis
    using assms start made [of v]
    by (cases v) (auto simp: initial_pairs_def wf_text_def made split: if_splits option.splits)
qed

lemma mount_inv:
  assumes "wf_value v"
  shows "je_inv (mount perr n v)"
proof -
  obtain ps n' where i: "initial_pairs v n = (ps, n')" by fastforce
  let ?s = "\<lparr>je_value = v, je_pairs = ps, je_manual = value_text v, je_mode = initial_mode v, je_error = [],
      je_counter = n', je_emitted = []\<rparr>"
  have "row_inv (?s\<lparr>je_pairs := ps, je_counter := n'\<rparr>)" by (rule initial_row_inv [OF assms i])
  then have "row_inv ?s" by simp
  with sync_pairs_inv [of ?s perr] assms have inv: "row_inv (sync_pairs perr ?s)" "value_inv (sync_pairs perr ?s)"
    by simp_all
  moreover have "text_inv (sync_manual (sync_pairs perr ?s))"
  proof (cases "initial_mode v")
    case Visual
    then show ?thesis by (simp add: text_inv_def sync_manual_def)
  next
    case Manual
    then have "sync_manual (sync_pairs perr ?s) = sync_pairs perr ?s" by (simp add: sync_manual_def)
    with Manual show ?thesis using manual_of_value [of "sync_pairs perr ?s"] assms by (simp add: text_inv_def)
  qed
  ultimately show ?thesis by (simp add: mount_def i je_inv_def row_inv_def value_inv_def)
qed

section \<open>Reachable states\<close>

text \<open>
  The texts and values that enter the editor denote JSON values with finite numbers, and the parent
  replaces the value from outside only while the rows are shown (in the text area the component keeps
  the text it has).
\<close>

fun wf_event :: "je_event \<Rightarrow> bool" where
  "wf_event (Receive v) = wf_value v"
| "wf_event (ManualText s) = wf_text s"
| "wf_event (ValueInput rid v) = wf_json v"
| "wf_event (NestedInput rid s) = wf_text s"
| "wf_event (DefaultRegion v) = wf_json v"
| "wf_event (Template v) = wf_json v"
| "wf_event e = True"

fun outside :: "je_event \<Rightarrow> bool" where
  "outside (Receive v) = True"
| "outside e = False"

inductive edited :: "(jsv \<Rightarrow> jstring) \<Rightarrow> json_editor \<Rightarrow> bool" for perr where
  mounted: "wf_value v \<Longrightarrow> edited perr (mount perr n v)"
| stepped: "edited perr s \<Longrightarrow> je_enabled (je_mode s) e \<Longrightarrow> wf_event e \<Longrightarrow>
    outside e \<longrightarrow> je_mode s = Visual \<Longrightarrow> edited perr (je_step perr e s)"

lemma converted_json: "wf_json (convertedValue s)"
  using is_double_number_of_string [of s]
  by (auto simp: convertedValue_def) (cases "number_of_string s"; simp)+

lemma receive_event_inv:
  assumes "je_inv s" "je_mode s = Visual" "wf_value v"
  shows "je_inv (receive perr v s)"
  using assms receive_inv [of s v perr] receive_text_Visual [of s v perr] by (auto simp: je_inv_def text_inv_def)

lemma step_inv:
  assumes inv: "je_inv s" and e: "je_enabled (je_mode s) e" "wf_event e" "outside e \<longrightarrow> je_mode s = Visual"
  shows "je_inv (je_step perr e s)"
proof (cases e)
  case AddRow
  with assms show ?thesis by (simp add: addKeyValue_def add_row_inv)
next
  case (RemoveRow rid)
  with assms show ?thesis
    by (simp add: removeKeyValue_def je_inv_def visual_inv [unfolded je_inv_def] row_inv_filter)
next
  case (RenameRow rid k)
  have "row_inv (s\<lparr>je_pairs := map (\<lambda>p. if kv_id p = rid then p\<lparr>kv_key := k\<rparr> else p) (je_pairs s)\<rparr>)"
    using inv by (intro row_inv_map) (auto simp: je_inv_def)
  with RenameRow assms show ?thesis by (simp add: updateKey_def visual_inv je_inv_def [of s])
next
  case (PlainInput rid s')
  with assms show ?thesis by (simp add: plainInput_def update_value_inv converted_json)
qed (use assms in \<open>simp_all add: receive_event_inv manual_inv tab_inv update_value_inv nested_input_inv
    default_region_inv template_keeps\<close>)

lemma edited_inv: "edited perr s \<Longrightarrow> je_inv s"
  by (induction rule: edited.induct) (simp_all add: mount_inv step_inv)

section \<open>New rows\<close>

lemma free_field_spec:
  "n \<le> free_field ks n \<and> field_name (free_field ks n) \<notin> set ks \<and>
   (\<forall>i. n \<le> i \<and> i < free_field ks n \<longrightarrow> field_name i \<in> set ks)"
proof (induction ks n rule: free_field.induct)
  case (1 ks n)
  show ?case
  proof (cases "field_name n \<in> set ks")
    case True
    then have step: "free_field ks n = free_field ks (n + 1)" by (subst free_field.simps) simp
    from 1 [OF True] have "\<forall>i. n \<le> i \<and> i < free_field ks (n + 1) \<longrightarrow> field_name i \<in> set ks"
      using True by (metis Suc_eq_plus1 Suc_leI le_neq_implies_less)
    with 1 [OF True] show ?thesis unfolding step by simp
  next
    case False
    then have "free_field ks n = n" by (subst free_field.simps) simp
    with False show ?thesis by auto
  qed
qed

lemma free_field_bound: "free_field ks n \<le> n + length ks"
proof -
  have "field_name ` {n..<free_field ks n} \<subseteq> set ks" using free_field_spec [of n ks] by auto
  then have "card (field_name ` {n..<free_field ks n}) \<le> card (set ks)" by (rule card_mono [rotated]) simp
  moreover have "card (field_name ` {n..<free_field ks n}) = free_field ks n - n"
    by (subst card_image) (auto simp: inj_on_def)
  ultimately show ?thesis using card_length [of ks] by simp
qed

lemma visual_change_pairs:
  assumes "json_rows ps"
  shows "je_pairs (handleVisualChange perr ps s) = ps"
    and "je_emitted (handleVisualChange perr ps s) = je_emitted s @ [object_text (keyValueArrayToObject ps)]"
  using parsed_object_text [OF assms]
  by (simp_all add: handleVisualChange_def onChange_def receive_def sync_manual_def sync_pairs_def)

section \<open>Claims\<close>



text \<open>
  C29: Adding a row ends with the least free name field_1, field_2, and so on, at most one past the
  number of rows; it leaves the other rows as they are, and the one text it emits parses to the old
  object with the new key bound to the empty string.
\<close>

theorem add_row_unused_name:
  assumes "edited perr s" "je_mode s = Visual"
  shows "\<exists>n rid ob. 1 \<le> n \<and> n \<le> length (je_pairs s) + 1 \<and> field_name n \<notin> kv_key ` set (je_pairs s) \<and>
    (\<forall>i. 1 \<le> i \<and> i < n \<longrightarrow> field_name i \<in> kv_key ` set (je_pairs s)) \<and> rid \<notin> kv_id ` set (je_pairs s) \<and>
    je_pairs (addKeyValue perr s) = je_pairs s @ [\<lparr>kv_id = rid, kv_key = field_name n, kv_value = JStr []\<rparr>] \<and>
    je_emitted (addKeyValue perr s) = je_emitted s @ [json_stringify2 (JObj ob)] \<and>
    json_parse (json_stringify2 (JObj ob)) = Some (JObj ob) \<and>
    map_of ob = (map_of (keyValueArrayToObject (je_pairs s)))(field_name n \<mapsto> JStr [])"
proof -
  let ?n = "free_field (map kv_key (je_pairs s)) 1"
  let ?ps = "je_pairs s @ [\<lparr>kv_id = row_id (je_counter s), kv_key = field_name ?n, kv_value = JStr []\<rparr>]"
  have inv: "row_inv s" using edited_inv [OF assms(1)] by (simp add: je_inv_def)
  then have rows: "json_rows ?ps" by (simp add: row_inv_def json_rows_def)
  have fresh: "row_id (je_counter s) \<notin> kv_id ` set (je_pairs s)"
    using inv unfolding row_inv_def by auto
  have add: "addKeyValue perr s = handleVisualChange perr ?ps (s\<lparr>je_counter := je_counter s + 1\<rparr>)"
    by (simp add: addKeyValue_def add_row_def generateUniqueId_def)
  have ob: "map_of (keyValueArrayToObject ?ps) = (map_of (keyValueArrayToObject (je_pairs s)))(field_name ?n \<mapsto> JStr [])"
    by (auto simp: map_of_rows row_entries_def fun_eq_iff field_name_def)
  then have "map_of (keyValueArrayToObject ?ps) (field_name ?n) \<noteq> None" by simp
  then have "keyValueArrayToObject ?ps \<noteq> []" by (metis map_of.simps(1))
  then have "object_text (keyValueArrayToObject ?ps) = json_stringify2 (JObj (keyValueArrayToObject ?ps))"
    by (simp add: object_text_def obj_keys_def)
  then show ?thesis
    using free_field_spec [of 1 "map kv_key (je_pairs s)"] free_field_bound [of "map kv_key (je_pairs s)" 1]
      fresh ob visual_change_pairs [OF rows] json_parse_stringify2 [OF wf_json_rows [OF rows]]
    by (intro exI [of _ ?n] exI [of _ "row_id (je_counter s)"] exI [of _ "keyValueArrayToObject ?ps"]) (simp add: add)
qed

theorem add_row_unused_name_witness:
  "\<exists>n rid. je_pairs (addKeyValue (\<lambda>v. []) (mount (\<lambda>v. []) 0 (JStr []))) =
     [\<lparr>kv_id = rid, kv_key = field_name n, kv_value = JStr []\<rparr>] \<and> n = 1"
proof -
  have "wf_value (JStr [])" using json_parse_not_blank [of "[]"] by (auto simp: wf_text_def split: option.splits)
  then have m: "edited (\<lambda>v. []) (mount (\<lambda>v. []) 0 (JStr []))" by (rule edited.mounted)
  have e: "je_mode (mount (\<lambda>v. []) 0 (JStr [])) = Visual" "je_pairs (mount (\<lambda>v. []) 0 (JStr [])) = []"
    by (simp_all add: mount_def initial_pairs_def initial_mode_def sync_pairs_def parsed_value_def
        keyValueArrayToObject_def)
  from add_row_unused_name [OF m e(1)] show ?thesis by (auto simp: e(2))
qed

end
