(* ===== verification/Ratio_Sync.thy ===== *)
theory Ratio_Sync
  imports Json_Facts
begin

text \<open>
  The page that copies model ratios and prices from upstream channels
  (\<^verbatim>\<open>pages/Setting/Ratio/UpstreamRatioSync.jsx\<close>, with the endpoint choice of
  \<^verbatim>\<open>components/settings/ChannelSelectorModal.jsx\<close>): it fetches the differences, lets the administrator
  tick a value per model and ratio type, asks back when a tick changes how a model is billed, and saves
  the four option tables. The record holds the \<^verbatim>\<open>useState\<close> fields, the \<^verbatim>\<open>options\<close> prop, the requests
  that are under way and the outward effects. Objects keyed by model are association lists in property
  order. Parameters: the translation \<open>t\<close>, the case tables \<open>uc\<close> of the engine. An exception before a
  request leaves the state as it is. Answers have the types the server documents: a channel list, and
  an object of objects for the differences (or nothing, which reads as an empty one).
\<close>

section \<open>Constants\<close>

definition DEFAULT_ENDPOINT :: jstring where
  "DEFAULT_ENDPOINT = lit ''/api/ratio_config''"

definition OFFICIAL_RATIO_PRESET_ID :: jsv where
  "OFFICIAL_RATIO_PRESET_ID = JNum (Fin (- 100))"

definition OFFICIAL_RATIO_PRESET_NAME :: jstring where
  "OFFICIAL_RATIO_PRESET_NAME = [23448, 26041, 20493, 29575, 39044, 35774]"

definition OFFICIAL_RATIO_PRESET_BASE_URL :: jstring where
  "OFFICIAL_RATIO_PRESET_BASE_URL = lit ''https://basellm.github.io''"

definition OFFICIAL_RATIO_PRESET_ENDPOINT :: jstring where
  "OFFICIAL_RATIO_PRESET_ENDPOINT = lit ''/llm-metadata/api/newapi/ratio_config-v1-base.json''"

definition MODELS_DEV_PRESET_ID :: jsv where
  "MODELS_DEV_PRESET_ID = JNum (Fin (- 101))"

definition MODELS_DEV_PRESET_NAME :: jstring where
  "MODELS_DEV_PRESET_NAME = lit ''models.dev '' @ [20215, 26684, 39044, 35774]"

definition MODELS_DEV_PRESET_BASE_URL :: jstring where
  "MODELS_DEV_PRESET_BASE_URL = lit ''https://models.dev''"

definition MODELS_DEV_PRESET_ENDPOINT :: jstring where
  "MODELS_DEV_PRESET_ENDPOINT = lit ''https://models.dev/api.json''"

text \<open>The texts handed to the translation function.\<close>

definition channels_failed_text :: jstring where
  "channels_failed_text = [33719, 21462, 28192, 36947, 22833, 36133, 65306]"

definition pick_channel_text :: jstring where
  "pick_channel_text = [35831, 33267, 23569, 36873, 25321, 19968, 20010, 28192, 36947]"

definition backend_failed_text :: jstring where
  "backend_failed_text = [21518, 31471, 35831, 27714, 22833, 36133]"

definition tests_failed_text :: jstring where
  "tests_failed_text = [37096, 20998, 28192, 36947, 27979, 35797, 22833, 36133, 65306]"

definition no_difference_text :: jstring where
  "no_difference_text = [26410, 25214, 21040, 24046, 24322, 21270, 20493, 29575, 65292, 26080, 38656, 21516, 27493]"

definition interface_failed_text :: jstring where
  "interface_failed_text = [35831, 27714, 21518, 31471, 25509, 21475, 22833, 36133, 65306]"

definition unknown_channel_text :: jstring where
  "unknown_channel_text = [26410, 30693]"

definition fixed_price_text :: jstring where
  "fixed_price_text = [22266, 23450, 20215, 26684]"

definition model_ratio_text :: jstring where
  "model_ratio_text = [27169, 22411, 20493, 29575]"

definition completion_ratio_text :: jstring where
  "completion_ratio_text = [34917, 20840, 20493, 29575]"

definition sync_done_text :: jstring where
  "sync_done_text = [21516, 27493, 25104, 21151]"

definition partly_failed_text :: jstring where
  "partly_failed_text = [37096, 20998, 20445, 23384, 22833, 36133]"

definition save_failed_text :: jstring where
  "save_failed_text = [20445, 23384, 22833, 36133]"

section \<open>State\<close>

type_synonym model_table = "(jstring \<times> props) list"

datatype sync_effect =
    Show_Error jsv
  | Show_Warning jstring
  | Show_Success jstring
  | Fetch_Channels
  | Fetch_Ratios jsv
  | Put_Option jstring jstring
  | Refresh

datatype sync_call = Channels_Call | Ratios_Call | Save_Call model_table

datatype sync_reply = Failed jsv | Data jsv

record conflict =
  cf_channel :: jstring
  cf_model :: jstring
  cf_current :: jstring
  cf_newVal :: jstring

record ratio_sync =
  rs_modalVisible :: bool
  rs_loading :: bool
  rs_syncLoading :: bool
  rs_allChannels :: "jsv list"
  rs_selectedChannelIds :: "jsv list"
  rs_channelEndpoints :: props
  rs_differences :: model_table
  rs_resolutions :: model_table
  rs_hasSynced :: bool
  rs_currentPage :: nat
  rs_pageSize :: nat
  rs_searchKeyword :: jstring
  rs_ratioTypeFilter :: jstring
  rs_confirmVisible :: bool
  rs_conflictItems :: "conflict list"
  rs_options :: props
  rs_calls :: "(nat \<times> sync_call) list"
  rs_next :: nat
  rs_effects :: "sync_effect list"

definition initial_sync :: "props \<Rightarrow> ratio_sync" where
  "initial_sync options =
     \<lparr>rs_modalVisible = False, rs_loading = False, rs_syncLoading = False, rs_allChannels = [],
      rs_selectedChannelIds = [], rs_channelEndpoints = [], rs_differences = [], rs_resolutions = [],
      rs_hasSynced = False, rs_currentPage = 1, rs_pageSize = 10, rs_searchKeyword = [],
      rs_ratioTypeFilter = [], rs_confirmVisible = False, rs_conflictItems = [], rs_options = options,
      rs_calls = [], rs_next = 0, rs_effects = []\<rparr>"

definition tell :: "sync_effect \<Rightarrow> ratio_sync \<Rightarrow> ratio_sync" where
  "tell e s = s\<lparr>rs_effects := rs_effects s @ [e]\<rparr>"

definition call :: "sync_call \<Rightarrow> ratio_sync \<Rightarrow> ratio_sync" where
  "call c s = s\<lparr>rs_calls := rs_calls s @ [(rs_next s, c)], rs_next := rs_next s + 1\<rparr>"

text \<open>\<^verbatim>\<open>o[k]\<close> of an object of objects, with an empty one where there is none.\<close>

definition of_model :: "jstring \<Rightarrow> model_table \<Rightarrow> props" where
  "of_model k tb = (case map_of tb k of Some ps \<Rightarrow> ps | None \<Rightarrow> [])"

section \<open>Channels\<close>

definition channel_endpoint :: "jsv \<Rightarrow> jstring" where
  "channel_endpoint channel =
     (let rid = get_prop (lit ''id'') channel;
          base = or_else (get_prop (lit ''base_url'') channel) (JStr []);
          name = or_else (get_prop (lit ''name'') channel) (JStr [])
      in if rid = MODELS_DEV_PRESET_ID \<or> base = JStr MODELS_DEV_PRESET_BASE_URL \<or> name = JStr MODELS_DEV_PRESET_NAME
         then MODELS_DEV_PRESET_ENDPOINT
         else if rid = OFFICIAL_RATIO_PRESET_ID \<or> base = JStr OFFICIAL_RATIO_PRESET_BASE_URL
           \<or> name = JStr OFFICIAL_RATIO_PRESET_NAME
         then OFFICIAL_RATIO_PRESET_ENDPOINT
         else if get_prop (lit ''type'') channel = JNum (Fin 20) then lit ''openrouter''
         else DEFAULT_ENDPOINT)"

definition merge_endpoint :: "props \<Rightarrow> jsv \<Rightarrow> props" where
  "merge_endpoint merged channel =
     (let k = js_string (get_prop (lit ''id'') channel)
      in if truthy (obj_get k merged) then merged else obj_set k (JStr (channel_endpoint channel)) merged)"

definition fetchAllChannels :: "ratio_sync \<Rightarrow> ratio_sync" where
  "fetchAllChannels s = call Channels_Call (tell Fetch_Channels (s\<lparr>rs_loading := True\<rparr>))"

definition array_of :: "jsv \<Rightarrow> jsv list" where
  "array_of v = (case v of JArr vs \<Rightarrow> vs | _ \<Rightarrow> [])"

text \<open>The answer: \<open>m\<close> of \<open>Failed m\<close> is the message of the error, \<open>d\<close> of \<open>Data d\<close> is \<^verbatim>\<open>res.data\<close>.\<close>

definition channels_answer :: "(jstring \<Rightarrow> jstring) \<Rightarrow> sync_reply \<Rightarrow> ratio_sync \<Rightarrow> ratio_sync" where
  "channels_answer t r s =
     (let s1 = (case r of
            Failed m \<Rightarrow> tell (Show_Error (JStr (t channels_failed_text @ js_string m))) s
          | Data d \<Rightarrow>
              if truthy (get_prop (lit ''success'') d)
              then let channels = array_of (get_prop (lit ''data'') d)
                   in s\<lparr>rs_allChannels := channels,
                        rs_channelEndpoints := foldl merge_endpoint (rs_channelEndpoints s) channels\<rparr>
              else tell (Show_Error (get_prop (lit ''message'') d)) s)
      in s1\<lparr>rs_loading := False\<rparr>)"

definition openModal :: "ratio_sync \<Rightarrow> ratio_sync" where
  "openModal s =
     (let s1 = s\<lparr>rs_modalVisible := True\<rparr>
      in if rs_allChannels s = [] then fetchAllChannels s1 else s1)"

definition upstream_entry :: "props \<Rightarrow> jsv \<Rightarrow> jsv" where
  "upstream_entry endpoints ch =
     JObj [(lit ''id'', get_prop (lit ''id'') ch), (lit ''name'', get_prop (lit ''name'') ch),
           (lit ''base_url'', get_prop (lit ''base_url'') ch),
           (lit ''endpoint'', or_else (obj_get (js_string (get_prop (lit ''id'') ch)) endpoints) (JStr DEFAULT_ENDPOINT))]"

definition fetchRatiosFromChannels :: "jsv list \<Rightarrow> ratio_sync \<Rightarrow> ratio_sync" where
  "fetchRatiosFromChannels channelList s =
     call Ratios_Call
       (tell (Fetch_Ratios (JObj [(lit ''upstreams'', JArr (map (upstream_entry (rs_channelEndpoints s)) channelList)),
            (lit ''timeout'', JNum (Fin 10))]))
         (s\<lparr>rs_syncLoading := True\<rparr>))"

definition confirmChannelSelection :: "(jstring \<Rightarrow> jstring) \<Rightarrow> ratio_sync \<Rightarrow> ratio_sync" where
  "confirmChannelSelection t s =
     (let selected = filter (\<lambda>ch. get_prop (lit ''id'') ch \<in> set (rs_selectedChannelIds s)) (rs_allChannels s)
      in if selected = [] then tell (Show_Warning (t pick_channel_text)) s
         else fetchRatiosFromChannels selected (s\<lparr>rs_modalVisible := False\<rparr>))"

definition updateChannelEndpoint :: "jsv \<Rightarrow> jsv \<Rightarrow> ratio_sync \<Rightarrow> ratio_sync" where
  "updateChannelEndpoint channelId endpoint s =
     s\<lparr>rs_channelEndpoints := obj_set (js_string channelId) endpoint (rs_channelEndpoints s)\<rparr>"

definition getEndpointType :: "jstring \<Rightarrow> jstring" where
  "getEndpointType ep =
     (if ep = lit ''/api/ratio_config'' then lit ''ratio_config''
      else if ep = lit ''/api/pricing'' then lit ''pricing''
      else if ep = lit ''openrouter'' then lit ''openrouter''
      else lit ''custom'')"

definition handleTypeChange :: "jsv \<Rightarrow> jstring \<Rightarrow> ratio_sync \<Rightarrow> ratio_sync" where
  "handleTypeChange channelId v s =
     (let currentEndpoint = js_string (or_else (obj_get (js_string channelId) (rs_channelEndpoints s)) (JStr []))
      in if v = lit ''ratio_config'' then updateChannelEndpoint channelId (JStr (lit ''/api/ratio_config'')) s
         else if v = lit ''pricing'' then updateChannelEndpoint channelId (JStr (lit ''/api/pricing'')) s
         else if v = lit ''openrouter'' then updateChannelEndpoint channelId (JStr (lit ''openrouter'')) s
         else if getEndpointType currentEndpoint \<noteq> lit ''custom'' then updateChannelEndpoint channelId (JStr []) s
         else s)"

section \<open>Differences\<close>

text \<open>
  The \<^verbatim>\<open>differences\<close> of an answer: an object of objects. Members that are not objects have no rows.
\<close>

definition model_table_of :: "jsv \<Rightarrow> model_table" where
  "model_table_of v = map (\<lambda>(k, x). (k, entries_of x)) (entries_of v)"

definition error_note :: "jsv \<Rightarrow> jstring" where
  "error_note r = js_string (get_prop (lit ''name'') r) @ lit '': '' @ js_string (get_prop (lit ''error'') r)"

definition ratios_answer :: "(jstring \<Rightarrow> jstring) \<Rightarrow> sync_reply \<Rightarrow> ratio_sync \<Rightarrow> ratio_sync" where
  "ratios_answer t r s =
     (let s1 = (case r of
            Failed m \<Rightarrow> tell (Show_Error (JStr (t interface_failed_text @ js_string m))) s
          | Data d \<Rightarrow>
              if \<not> truthy (get_prop (lit ''success'') d)
              then tell (Show_Error (or_else (get_prop (lit ''message'') d) (JStr (t backend_failed_text)))) s
              else let body = get_prop (lit ''data'') d;
                       newDifferences = model_table_of (get_prop (lit ''differences'') body);
                       errorResults = filter (\<lambda>x. get_prop (lit ''status'') x = JStr (lit ''error''))
                         (array_of (get_prop (lit ''test_results'') body));
                       s1 = (if errorResults \<noteq> []
                             then tell (Show_Warning (t tests_failed_text @ join (lit '', '') (map error_note errorResults))) s
                             else s);
                       s2 = s1\<lparr>rs_differences := newDifferences, rs_resolutions := [], rs_hasSynced := True\<rparr>
                   in if newDifferences = [] then tell (Show_Success (t no_difference_text)) s2 else s2)
      in s1\<lparr>rs_syncLoading := False\<rparr>)"

record diff_row =
  dr_model :: jstring
  dr_ratioType :: jstring
  dr_current :: jsv
  dr_upstreams :: jsv
  dr_confidence :: jsv
  dr_billingConflict :: bool

definition dataSource :: "model_table \<Rightarrow> diff_row list" where
  "dataSource differences = concat (map (\<lambda>(model, ratioTypes).
       let hasPrice = lit ''model_price'' \<in> set (obj_keys ratioTypes);
           hasOtherRatio = (\<exists>rt \<in> set [lit ''model_ratio'', lit ''completion_ratio'', lit ''cache_ratio''].
             rt \<in> set (obj_keys ratioTypes))
       in map (\<lambda>(ratioType, diff).
            \<lparr>dr_model = model, dr_ratioType = ratioType, dr_current = get_prop (lit ''current'') diff,
             dr_upstreams = get_prop (lit ''upstreams'') diff,
             dr_confidence = or_else (get_prop (lit ''confidence'') diff) (JObj []),
             dr_billingConflict = (hasPrice \<and> hasOtherRatio)\<rparr>) ratioTypes) differences)"

definition filteredDataSource :: "unicode_map \<Rightarrow> ratio_sync \<Rightarrow> diff_row list" where
  "filteredDataSource uc s =
     (let rows = dataSource (rs_differences s)
      in if trim (rs_searchKeyword s) = [] \<and> rs_ratioTypeFilter s = [] then rows
         else filter (\<lambda>item.
             (trim (rs_searchKeyword s) = [] \<or>
              includes_str (to_lower uc (dr_model item)) (trim (to_lower uc (rs_searchKeyword s)))) \<and>
             (rs_ratioTypeFilter s = [] \<or> dr_ratioType item = rs_ratioTypeFilter s)) rows)"

definition upstreamNames :: "unicode_map \<Rightarrow> ratio_sync \<Rightarrow> jstring list" where
  "upstreamNames uc s =
     dedup (concat (map (\<lambda>row. obj_keys (entries_of (or_else (dr_upstreams row) (JObj [])))) (filteredDataSource uc s)))"

definition getCurrentPageData :: "nat \<Rightarrow> nat \<Rightarrow> 'a list \<Rightarrow> 'a list" where
  "getCurrentPageData currentPage pageSize rows =
     (let startIndex = (currentPage - 1) * pageSize in slice startIndex (startIndex + pageSize) rows)"

section \<open>Choices\<close>

datatype billing = By_Price | By_Ratio

definition getBillingCategory :: "jstring \<Rightarrow> billing" where
  "getBillingCategory ratioType = (if ratioType = lit ''model_price'' then By_Price else By_Ratio)"

definition select_in :: "jstring \<Rightarrow> jstring \<Rightarrow> jsv \<Rightarrow> model_table \<Rightarrow> model_table" where
  "select_in model ratioType v prev =
     (let category = getBillingCategory ratioType;
          newModelRes = filter (\<lambda>p. getBillingCategory (fst p) = category) (of_model model prev)
      in obj_set model (obj_set ratioType v newModelRes) prev)"

definition selectValue :: "jstring \<Rightarrow> jstring \<Rightarrow> jsv \<Rightarrow> ratio_sync \<Rightarrow> ratio_sync" where
  "selectValue model ratioType v s = s\<lparr>rs_resolutions := select_in model ratioType v (rs_resolutions s)\<rparr>"

definition deselect_in :: "jstring \<Rightarrow> jstring \<Rightarrow> model_table \<Rightarrow> model_table" where
  "deselect_in model ratioType newRes =
     (case map_of newRes model of
        None \<Rightarrow> newRes
      | Some ps \<Rightarrow>
          if obj_delete ratioType ps = [] then obj_delete model newRes
          else obj_set model (obj_delete ratioType ps) newRes)"

definition deselectValue :: "jstring \<Rightarrow> jstring \<Rightarrow> ratio_sync \<Rightarrow> ratio_sync" where
  "deselectValue model ratioType s = s\<lparr>rs_resolutions := deselect_in model ratioType (rs_resolutions s)\<rparr>"

definition selectable :: "jsv \<Rightarrow> bool" where
  "selectable v \<longleftrightarrow> v \<noteq> JNull \<and> v \<noteq> JUndef \<and> v \<noteq> JStr (lit ''same'')"

definition handleBulkSelect :: "unicode_map \<Rightarrow> jstring \<Rightarrow> bool \<Rightarrow> ratio_sync \<Rightarrow> ratio_sync" where
  "handleBulkSelect uc upName checked s =
     (if checked
      then foldl (\<lambda>s row. let upstreamVal = get_prop upName (dr_upstreams row)
             in if selectable upstreamVal then selectValue (dr_model row) (dr_ratioType row) upstreamVal s else s)
           s (filteredDataSource uc s)
      else s\<lparr>rs_resolutions := foldl (\<lambda>newRes row. deselect_in (dr_model row) (dr_ratioType row) newRes)
           (rs_resolutions s) (filteredDataSource uc s)\<rparr>)"

record channel_stats =
  selectableCount :: nat
  selectedCount :: nat
  allSelected :: bool
  partiallySelected :: bool
  hasSelectableItems :: bool

definition channelStats :: "unicode_map \<Rightarrow> jstring \<Rightarrow> ratio_sync \<Rightarrow> channel_stats" where
  "channelStats uc upName s =
     (let rows = filter (\<lambda>row. selectable (get_prop upName (dr_upstreams row))) (filteredDataSource uc s);
          chosen = filter (\<lambda>row. obj_get (dr_ratioType row) (of_model (dr_model row) (rs_resolutions s))
            = get_prop upName (dr_upstreams row)) rows
      in \<lparr>selectableCount = length rows, selectedCount = length chosen,
          allSelected = (length rows > 0 \<and> length chosen = length rows),
          partiallySelected = (length chosen > 0 \<and> length chosen < length rows),
          hasSelectableItems = (length rows > 0)\<rparr>)"

section \<open>Applying\<close>

definition option_names :: "jstring list" where
  "option_names = [lit ''ModelRatio'', lit ''CompletionRatio'', lit ''CacheRatio'', lit ''ModelPrice'']"

text \<open>The four option tables as parsed; \<open>None\<close> when one of the texts is not JSON.\<close>

definition current_option :: "props \<Rightarrow> jstring \<Rightarrow> jsv option" where
  "current_option options name = json_parse (js_string (or_else (obj_get name options) (JStr (lit ''{}''))))"

definition currentRatios :: "props \<Rightarrow> (jstring \<Rightarrow> jsv) option" where
  "currentRatios options =
     (if \<forall>name \<in> set option_names. current_option options name \<noteq> None
      then Some (\<lambda>name. the (current_option options name)) else None)"

text \<open>Reading a property of \<^verbatim>\<open>null\<close> throws, which is \<open>None\<close>.\<close>

definition read_prop :: "jstring \<Rightarrow> jsv \<Rightarrow> jsv option" where
  "read_prop k v = (if v = JNull \<or> v = JUndef then None else Some (get_prop k v))"

fun any_defined :: "jsv option list \<Rightarrow> bool option" where
  "any_defined [] = Some False"
| "any_defined (x # xs) = (case x of
     None \<Rightarrow> None
   | Some v \<Rightarrow> if v \<noteq> JUndef then Some True else any_defined xs)"

definition getLocalBillingCategory :: "(jstring \<Rightarrow> jsv) \<Rightarrow> jstring \<Rightarrow> billing option option" where
  "getLocalBillingCategory cur model =
     (case read_prop model (cur (lit ''ModelPrice'')) of
        None \<Rightarrow> None
      | Some v \<Rightarrow>
          if v \<noteq> JUndef then Some (Some By_Price)
          else map_option (\<lambda>b. if b then Some By_Ratio else None)
                 (any_defined [read_prop model (cur (lit ''ModelRatio'')),
                    read_prop model (cur (lit ''CompletionRatio'')), read_prop model (cur (lit ''CacheRatio''))]))"

definition newCategory :: "props \<Rightarrow> billing" where
  "newCategory ratios = (if lit ''model_price'' \<in> set (obj_keys ratios) then By_Price else By_Ratio)"

definition findSourceChannel :: "(jstring \<Rightarrow> jstring) \<Rightarrow> model_table \<Rightarrow> jstring \<Rightarrow> jstring \<Rightarrow> jsv \<Rightarrow> jstring" where
  "findSourceChannel t differences model ratioType v =
     (let diff = obj_get ratioType (of_model model differences);
          upMap = entries_of (or_else (get_prop (lit ''upstreams'') diff) (JObj []))
      in case (if truthy diff then find (\<lambda>(_, x). x = v) upMap else None) of
           Some (name, _) \<Rightarrow> name
         | None \<Rightarrow> t unknown_channel_text)"

definition ratio_lines :: "(jstring \<Rightarrow> jstring) \<Rightarrow> jsv \<Rightarrow> jsv \<Rightarrow> jstring" where
  "ratio_lines t a b =
     t model_ratio_text @ lit '' : '' @ js_string (nullish a (JStr (lit ''-''))) @ [10]
     @ t completion_ratio_text @ lit '' : '' @ js_string (nullish b (JStr (lit ''-'')))"

definition price_line :: "(jstring \<Rightarrow> jstring) \<Rightarrow> jsv \<Rightarrow> jstring" where
  "price_line t v = t fixed_price_text @ lit '' : '' @ js_string v"

definition conflict_item ::
    "(jstring \<Rightarrow> jstring) \<Rightarrow> model_table \<Rightarrow> (jstring \<Rightarrow> jsv) \<Rightarrow> jstring \<Rightarrow> props \<Rightarrow> billing \<Rightarrow> conflict" where
  "conflict_item t differences cur model ratios localCat =
     \<lparr>cf_channel = join (lit '', '') (dedup (map (\<lambda>(rt, v). findSourceChannel t differences model rt v) ratios)),
      cf_model = model,
      cf_current = (if localCat = By_Price then price_line t (get_prop model (cur (lit ''ModelPrice'')))
        else ratio_lines t (get_prop model (cur (lit ''ModelRatio''))) (get_prop model (cur (lit ''CompletionRatio'')))),
      cf_newVal = (if newCategory ratios = By_Price then price_line t (obj_get (lit ''model_price'') ratios)
        else ratio_lines t (obj_get (lit ''model_ratio'') ratios) (obj_get (lit ''completion_ratio'') ratios))\<rparr>"

fun billing_conflicts :: "(jstring \<Rightarrow> jstring) \<Rightarrow> model_table \<Rightarrow> (jstring \<Rightarrow> jsv) \<Rightarrow> model_table \<Rightarrow> conflict list option" where
  "billing_conflicts t differences cur [] = Some []"
| "billing_conflicts t differences cur ((model, ratios) # rest) =
     (case getLocalBillingCategory cur model of
        None \<Rightarrow> None
      | Some None \<Rightarrow> billing_conflicts t differences cur rest
      | Some (Some localCat) \<Rightarrow>
          if localCat \<noteq> newCategory ratios
          then map_option (Cons (conflict_item t differences cur model ratios localCat)) (billing_conflicts t differences cur rest)
          else billing_conflicts t differences cur rest)"

definition optionKey :: "unicode_map \<Rightarrow> jstring \<Rightarrow> jstring" where
  "optionKey uc ratioType =
     join [] (map (\<lambda>word. to_upper uc (take 1 word) @ slice_from 1 word) (split_on 95 ratioType))"

text \<open>\<^verbatim>\<open>finalRatios[key][model] = v\<close>; \<open>None\<close> is the TypeError for a key that is not there.\<close>

definition put_ratio :: "jstring \<Rightarrow> jstring \<Rightarrow> jsv \<Rightarrow> model_table \<Rightarrow> model_table option" where
  "put_ratio key model v fin =
     (case map_of fin key of None \<Rightarrow> None | Some tb \<Rightarrow> Some (obj_set key (obj_set model v tb) fin))"

definition drop_ratio :: "jstring \<Rightarrow> jstring \<Rightarrow> model_table \<Rightarrow> model_table" where
  "drop_ratio model key fin = obj_set key (obj_delete model (of_model key fin)) fin"

fun put_ratios :: "unicode_map \<Rightarrow> jstring \<Rightarrow> props \<Rightarrow> model_table \<Rightarrow> model_table option" where
  "put_ratios uc model [] fin = Some fin"
| "put_ratios uc model ((ratioType, v) # rest) fin =
     (case put_ratio (optionKey uc ratioType) model (JNum (parse_float (js_string v))) fin of
        None \<Rightarrow> None
      | Some fin' \<Rightarrow> put_ratios uc model rest fin')"

definition apply_model :: "unicode_map \<Rightarrow> jstring \<Rightarrow> props \<Rightarrow> model_table \<Rightarrow> model_table option" where
  "apply_model uc model ratios fin =
     (let hasPrice = lit ''model_price'' \<in> set (obj_keys ratios);
          hasRatio = (\<exists>rt \<in> set (obj_keys ratios). rt \<noteq> lit ''model_price'');
          fin1 = (if hasPrice
                  then drop_ratio model (lit ''CacheRatio'') (drop_ratio model (lit ''CompletionRatio'')
                    (drop_ratio model (lit ''ModelRatio'') fin))
                  else fin);
          fin2 = (if hasRatio then drop_ratio model (lit ''ModelPrice'') fin1 else fin1)
      in put_ratios uc model ratios fin2)"

fun finalRatios :: "unicode_map \<Rightarrow> model_table \<Rightarrow> model_table \<Rightarrow> model_table option" where
  "finalRatios uc [] fin = Some fin"
| "finalRatios uc ((model, ratios) # rest) fin =
     (case apply_model uc model ratios fin of None \<Rightarrow> None | Some fin' \<Rightarrow> finalRatios uc rest fin')"

definition start_tables :: "(jstring \<Rightarrow> jsv) \<Rightarrow> model_table" where
  "start_tables cur = map (\<lambda>name. (name, entries_of (cur name))) option_names"

definition performSync :: "unicode_map \<Rightarrow> (jstring \<Rightarrow> jsv) \<Rightarrow> ratio_sync \<Rightarrow> ratio_sync" where
  "performSync uc cur s =
     (case finalRatios uc (rs_resolutions s) (start_tables cur) of
        None \<Rightarrow> s
      | Some fin \<Rightarrow>
          call (Save_Call (rs_resolutions s))
            (foldl (\<lambda>s (key, tb). tell (Put_Option key (json_stringify2 (JObj tb))) s) (s\<lparr>rs_loading := True\<rparr>) fin))"

definition applySync :: "(jstring \<Rightarrow> jstring) \<Rightarrow> unicode_map \<Rightarrow> ratio_sync \<Rightarrow> ratio_sync" where
  "applySync t uc s =
     (case currentRatios (rs_options s) of
        None \<Rightarrow> s
      | Some cur \<Rightarrow>
          (case billing_conflicts t (rs_differences s) cur (rs_resolutions s) of
             None \<Rightarrow> s
           | Some [] \<Rightarrow> performSync uc cur s
           | Some items \<Rightarrow> s\<lparr>rs_conflictItems := items, rs_confirmVisible := True\<rparr>))"

definition confirmOk :: "unicode_map \<Rightarrow> ratio_sync \<Rightarrow> ratio_sync" where
  "confirmOk uc s =
     (let s1 = s\<lparr>rs_confirmVisible := False\<rparr>
      in case currentRatios (rs_options s) of None \<Rightarrow> s1 | Some cur \<Rightarrow> performSync uc cur s1)"

definition drop_difference :: "jstring \<Rightarrow> jstring \<Rightarrow> model_table \<Rightarrow> model_table" where
  "drop_difference model ratioType differences =
     (if truthy (obj_get ratioType (of_model model differences)) then deselect_in model ratioType differences else differences)"

definition drop_resolved :: "model_table \<Rightarrow> model_table \<Rightarrow> model_table" where
  "drop_resolved res differences =
     foldl (\<lambda>d (model, ratios). foldl (\<lambda>d rt. drop_difference model rt d) d (obj_keys ratios)) differences res"

text \<open>
  The answers of \<^verbatim>\<open>Promise.all\<close>: the four \<^verbatim>\<open>res.data\<close>, or \<open>None\<close> when a request failed. A \<^verbatim>\<open>null\<close>
  among them makes the test throw, which ends in the same message as a failure.
\<close>

definition save_answer :: "(jstring \<Rightarrow> jstring) \<Rightarrow> model_table \<Rightarrow> jsv list option \<Rightarrow> ratio_sync \<Rightarrow> ratio_sync" where
  "save_answer t res results s =
     (let failed = tell (Show_Error (JStr (t save_failed_text))) s;
          s1 = (case results of
            None \<Rightarrow> failed
          | Some ds \<Rightarrow>
              (case find (\<lambda>d. d = JNull \<or> d = JUndef \<or> \<not> truthy (get_prop (lit ''success'') d)) ds of
                 None \<Rightarrow>
                   (tell Refresh (tell (Show_Success (t sync_done_text)) s))
                     \<lparr>rs_differences := drop_resolved res (rs_differences s), rs_resolutions := []\<rparr>
               | Some d \<Rightarrow>
                   if d = JNull \<or> d = JUndef then failed
                   else tell (Show_Error (JStr (t partly_failed_text))) s))
      in s1\<lparr>rs_loading := False\<rparr>)"

section \<open>Events\<close>

datatype sync_event =
    Open_Modal
  | Close_Modal
  | Select_Channels "jsv list"
  | Set_Endpoint jsv jsv
  | Set_Type jsv jstring
  | Confirm_Channels
  | Choose jstring jstring jsv
  | Unchoose jstring jstring
  | Bulk jstring bool
  | Apply
  | Confirm
  | Cancel
  | Search jstring
  | Filter_Type jstring
  | Set_Page nat nat
  | Set_Page_Size nat
  | Options_Prop props
  | Reply nat sync_reply
  | Replies nat "jsv list option"

definition take_call :: "nat \<Rightarrow> ratio_sync \<Rightarrow> ratio_sync" where
  "take_call n s = s\<lparr>rs_calls := filter (\<lambda>c. fst c \<noteq> n) (rs_calls s)\<rparr>"

fun sync_step :: "(jstring \<Rightarrow> jstring) \<Rightarrow> unicode_map \<Rightarrow> sync_event \<Rightarrow> ratio_sync \<Rightarrow> ratio_sync" where
  "sync_step t uc Open_Modal s = openModal s"
| "sync_step t uc Close_Modal s = s\<lparr>rs_modalVisible := False\<rparr>"
| "sync_step t uc (Select_Channels ids) s = s\<lparr>rs_selectedChannelIds := ids\<rparr>"
| "sync_step t uc (Set_Endpoint ch ep) s = updateChannelEndpoint ch ep s"
| "sync_step t uc (Set_Type ch v) s = handleTypeChange ch v s"
| "sync_step t uc Confirm_Channels s = confirmChannelSelection t s"
| "sync_step t uc (Choose model rt v) s = selectValue model rt v s"
| "sync_step t uc (Unchoose model rt) s = deselectValue model rt s"
| "sync_step t uc (Bulk up checked) s = handleBulkSelect uc up checked s"
| "sync_step t uc Apply s = (if rs_resolutions s \<noteq> [] then applySync t uc s else s)"
| "sync_step t uc Confirm s = (if rs_confirmVisible s then confirmOk uc s else s)"
| "sync_step t uc Cancel s = s\<lparr>rs_confirmVisible := False\<rparr>"
| "sync_step t uc (Search w) s = s\<lparr>rs_searchKeyword := w, rs_currentPage := 1\<rparr>"
| "sync_step t uc (Filter_Type rt) s = s\<lparr>rs_ratioTypeFilter := rt, rs_currentPage := 1\<rparr>"
| "sync_step t uc (Set_Page p n) s = s\<lparr>rs_currentPage := p, rs_pageSize := n\<rparr>"
| "sync_step t uc (Set_Page_Size n) s = s\<lparr>rs_currentPage := 1, rs_pageSize := n\<rparr>"
| "sync_step t uc (Options_Prop ps) s = s\<lparr>rs_options := ps\<rparr>"
| "sync_step t uc (Reply n r) s = (case map_of (rs_calls s) n of
       Some Channels_Call \<Rightarrow> channels_answer t r (take_call n s)
     | Some Ratios_Call \<Rightarrow> ratios_answer t r (take_call n s)
     | _ \<Rightarrow> s)"
| "sync_step t uc (Replies n rs) s = (case map_of (rs_calls s) n of
       Some (Save_Call res) \<Rightarrow> save_answer t res rs (take_call n s)
     | _ \<Rightarrow> s)"

end
