(* ===== verification/Ratio_Sync_Facts.thy ===== *)
theory Ratio_Sync_Facts
  imports Ratio_Sync
begin

text \<open>
  Two facts behind the ratio sync: the choices kept per model are never empty and never mix a fixed
  price with ratios, and the tables that are saved hold the chosen values and are otherwise the ones
  of the options.
\<close>

section \<open>One way of billing per model\<close>

definition one_billing :: "props \<Rightarrow> bool" where
  "one_billing ratios \<longleftrightarrow> ratios \<noteq> [] \<and> distinct (map fst ratios) \<and>
     (\<forall>p \<in> set ratios. getBillingCategory (fst p) = newCategory ratios)"

definition tidy :: "model_table \<Rightarrow> bool" where
  "tidy res \<longleftrightarrow> wf_props res \<and> (\<forall>(m, ratios) \<in> set res. one_billing ratios)"

lemma newCategory_iff:
  "newCategory ratios = By_Price \<longleftrightarrow> lit ''model_price'' \<in> fst ` set ratios"
  by (auto simp: newCategory_def obj_keys_def)

lemma category_iff: "getBillingCategory rt = By_Price \<longleftrightarrow> rt = lit ''model_price''"
  by (simp add: getBillingCategory_def)

lemma one_billingI:
  assumes "ratios \<noteq> []" "distinct (map fst ratios)" "\<And>p. p \<in> set ratios \<Longrightarrow> getBillingCategory (fst p) = c"
  shows "one_billing ratios"
proof -
  obtain q where q: "q \<in> set ratios" using assms(1) by (cases ratios) auto
  have "newCategory ratios = By_Price \<longleftrightarrow> c = By_Price"
  proof
    assume "newCategory ratios = By_Price"
    then obtain p where "p \<in> set ratios" "fst p = lit ''model_price''" unfolding newCategory_iff by force
    with assms(3) show "c = By_Price" using category_iff by metis
  next
    assume "c = By_Price"
    with assms(3) [OF q] have "fst q = lit ''model_price''" by (simp add: category_iff)
    with q show "newCategory ratios = By_Price" unfolding newCategory_iff by force
  qed
  then have "newCategory ratios = c" by (cases c; cases "newCategory ratios") simp_all
  with assms show ?thesis by (simp add: one_billing_def)
qed

lemma set_obj_set: "set (obj_set k v ps) \<subseteq> insert (k, v) (set ps)"
  using set_obj_replace [of k v ps] by (auto simp: obj_set_def set_obj_insert)

lemma obj_set_ne [simp]: "obj_set k v ps \<noteq> []"
proof -
  have "k \<in> fst ` set (obj_set k v ps)" by (simp add: keys_obj_set)
  then show ?thesis by auto
qed

lemma distinct_obj_set: "distinct (map fst ps) \<Longrightarrow> distinct (map fst (obj_set k v ps))"
  by (simp add: obj_set_def distinct_obj_insert)

lemma tidy_of_model: "tidy res \<Longrightarrow> map_of res m = Some ratios \<Longrightarrow> one_billing ratios"
  by (auto simp: tidy_def dest!: map_of_SomeD)

lemma tidy_obj_set: "tidy res \<Longrightarrow> one_billing ratios \<Longrightarrow> tidy (obj_set m ratios res)"
  using set_obj_set [of m ratios res] by (auto simp: tidy_def wf_obj_set)

lemma tidy_obj_delete: "tidy res \<Longrightarrow> tidy (obj_delete m res)"
  using wf_obj_delete [of res m] by (auto simp: tidy_def obj_delete_def)

lemma tidy_select: 
  assumes "tidy res"
  shows "tidy (select_in m rt v res)"
proof -
  let ?old = "filter (\<lambda>p. getBillingCategory (fst p) = getBillingCategory rt) (of_model m res)"
  have "distinct (map fst (of_model m res))"
    using tidy_of_model [OF assms, of m] by (auto simp: of_model_def one_billing_def split: option.splits)
  then have "distinct (map fst ?old)" by (rule distinct_map_filter)
  then have "one_billing (obj_set rt v ?old)"
    using set_obj_set [of rt v ?old] by (intro one_billingI [of _ "getBillingCategory rt"]) (auto simp: distinct_obj_set)
  with assms show ?thesis by (simp add: select_in_def Let_def tidy_obj_set)
qed

lemma tidy_deselect:
  assumes "tidy res"
  shows "tidy (deselect_in m rt res)"
proof (cases "map_of res m")
  case None
  with assms show ?thesis by (simp add: deselect_in_def)
next
  case (Some ratios)
  from tidy_of_model [OF assms Some]
  have "one_billing (obj_delete rt ratios)" if "obj_delete rt ratios \<noteq> []"
    using that by (intro one_billingI [of _ "newCategory ratios"])
      (auto simp: one_billing_def obj_delete_def distinct_map_filter)
  with assms Some show ?thesis
    by (simp add: deselect_in_def tidy_obj_set tidy_obj_delete)
qed

lemma tidy_Nil [simp]: "tidy []"
  by (simp add: tidy_def)

section \<open>The invariant of the page\<close>

definition sync_inv :: "ratio_sync \<Rightarrow> bool" where
  "sync_inv s \<longleftrightarrow> tidy (rs_resolutions s) \<and> (\<forall>n res. (n, Save_Call res) \<in> set (rs_calls s) \<longrightarrow> tidy res)"

text \<open>Most handlers touch neither the choices nor the saves under way.\<close>

definition choice_view :: "ratio_sync \<Rightarrow> model_table \<times> (nat \<times> sync_call) list" where
  "choice_view s = (rs_resolutions s, filter (\<lambda>c. case snd c of Save_Call r \<Rightarrow> True | _ \<Rightarrow> False) (rs_calls s))"

lemma sync_inv_view: "sync_inv s \<longleftrightarrow>
    tidy (fst (choice_view s)) \<and> (\<forall>n res. (n, Save_Call res) \<in> set (snd (choice_view s)) \<longrightarrow> tidy res)"
  by (auto simp: sync_inv_def choice_view_def)

lemma view_frames [simp]:
  "choice_view (tell e s) = choice_view s"
  "choice_view (call Channels_Call s) = choice_view s"
  "choice_view (call Ratios_Call s) = choice_view s"
  "choice_view (updateChannelEndpoint ch ep s) = choice_view s"
  "choice_view (s\<lparr>rs_loading := b\<rparr>) = choice_view s"
  "choice_view (s\<lparr>rs_syncLoading := b\<rparr>) = choice_view s"
  "choice_view (s\<lparr>rs_modalVisible := b\<rparr>) = choice_view s"
  "choice_view (s\<lparr>rs_confirmVisible := b\<rparr>) = choice_view s"
  "choice_view (s\<lparr>rs_confirmVisible := b, rs_conflictItems := items\<rparr>) = choice_view s"
  by (simp_all add: choice_view_def tell_def call_def updateChannelEndpoint_def)

lemma view_handlers [simp]:
  "choice_view (openModal s) = choice_view s"
  "choice_view (handleTypeChange ch v s) = choice_view s"
  "choice_view (confirmChannelSelection t s) = choice_view s"
  "choice_view (channels_answer t r s) = choice_view s"
  by (simp_all add: openModal_def fetchAllChannels_def handleTypeChange_def confirmChannelSelection_def
      fetchRatiosFromChannels_def channels_answer_def Let_def split: sync_reply.splits)
     (simp_all add: choice_view_def tell_def)

lemma view_puts [simp]:
  "choice_view (foldl (\<lambda>s (key, tb). tell (Put_Option key (f tb)) s) s fin) = choice_view s"
  by (induction fin arbitrary: s) auto

lemma sync_inv_same: "choice_view s' = choice_view s \<Longrightarrow> sync_inv s \<Longrightarrow> sync_inv s'"
  by (simp add: sync_inv_view)

lemma sync_inv_save:
  "sync_inv s \<Longrightarrow> choice_view s' = choice_view s \<Longrightarrow> sync_inv (call (Save_Call (rs_resolutions s)) s')"
  using sync_inv_same [of s' s] by (auto simp: sync_inv_def call_def)

lemma perform_inv:
  assumes "sync_inv s"
  shows "sync_inv (performSync uc cur s)"
proof (cases "finalRatios uc (rs_resolutions s) (start_tables cur)")
  case None
  with assms show ?thesis by (simp add: performSync_def)
next
  case (Some fin)
  then show ?thesis unfolding performSync_def using assms by (simp add: sync_inv_save)
qed

lemma foldl_keeps: "(\<And>s x. P s \<Longrightarrow> P (f s x)) \<Longrightarrow> P s \<Longrightarrow> P (foldl f s xs)"
  by (induction xs arbitrary: s) auto

lemma select_inv: "sync_inv s \<Longrightarrow> sync_inv (selectValue m rt v s)"
  by (simp add: selectValue_def sync_inv_def tidy_select)

lemma bulk_inv:
  assumes "sync_inv s"
  shows "sync_inv (handleBulkSelect uc up checked s)"
proof (cases checked)
  case True
  then show ?thesis
    unfolding handleBulkSelect_def using assms
    by (simp only: if_True) (rule foldl_keeps [where P = sync_inv], simp_all add: Let_def select_inv)
next
  case False
  have "tidy (foldl (\<lambda>newRes row. deselect_in (dr_model row) (dr_ratioType row) newRes) (rs_resolutions s) (filteredDataSource uc s))"
    using assms by (intro foldl_keeps [where P = tidy]) (simp_all add: sync_inv_def tidy_deselect)
  with False assms show ?thesis by (simp add: handleBulkSelect_def sync_inv_def)
qed

lemma take_call_inv: "sync_inv s \<Longrightarrow> sync_inv (take_call n s)"
  by (auto simp: sync_inv_def take_call_def)

lemma ratios_answer_inv: "sync_inv s \<Longrightarrow> sync_inv (ratios_answer t r s)"
  by (simp add: ratios_answer_def Let_def sync_inv_def tell_def split: sync_reply.splits)

lemma save_answer_inv: "sync_inv s \<Longrightarrow> sync_inv (save_answer t res results s)"
  by (simp add: save_answer_def Let_def sync_inv_def tell_def split: option.splits)

lemma apply_inv:
  assumes "sync_inv s"
  shows "sync_inv (applySync t uc s)"
proof -
  have "sync_inv (s\<lparr>rs_conflictItems := items, rs_confirmVisible := True\<rparr>)" for items
    using assms by (simp add: sync_inv_def)
  with assms show ?thesis
    by (simp add: applySync_def perform_inv split: option.splits list.splits)
qed

lemma confirm_inv: "sync_inv s \<Longrightarrow> sync_inv (confirmOk uc s)"
  using sync_inv_same [of "s\<lparr>rs_confirmVisible := False\<rparr>" s]
  by (simp add: confirmOk_def perform_inv Let_def split: option.splits)

lemma reply_inv: "sync_inv s \<Longrightarrow> sync_inv (sync_step t uc (Reply n r) s)"
  using sync_inv_same [of "channels_answer t r (take_call n s)" "take_call n s"]
  by (simp add: take_call_inv ratios_answer_inv split: option.splits sync_call.splits)

lemma sync_step_inv:
  assumes "sync_inv s"
  shows "sync_inv (sync_step t uc e s)"
proof (cases e)
  case Open_Modal
  then show ?thesis using assms sync_inv_same [of "openModal s" s] by simp
next
  case (Set_Type ch v)
  then show ?thesis using assms sync_inv_same [of "handleTypeChange ch v s" s] by simp
next
  case Confirm_Channels
  then show ?thesis using assms sync_inv_same [of "confirmChannelSelection t s" s] by simp
next
  case (Reply n r)
  then show ?thesis using assms reply_inv by simp
next
  case (Replies n rs)
  then show ?thesis
    using assms by (simp add: take_call_inv save_answer_inv split: option.splits sync_call.splits)
next
  case (Set_Endpoint ch ep)
  then show ?thesis using assms sync_inv_same [of "updateChannelEndpoint ch ep s" s] by simp
next
  case (Choose m rt v)
  then show ?thesis using assms select_inv by simp
next
  case (Unchoose m rt)
  then show ?thesis using assms by (simp add: deselectValue_def sync_inv_def tidy_deselect)
next
  case Apply
  then show ?thesis using assms apply_inv by simp
next
  case Confirm
  then show ?thesis using assms confirm_inv by simp
next
  case (Bulk up checked)
  then show ?thesis using assms bulk_inv by simp
qed (use assms in \<open>simp_all add: sync_inv_def\<close>)

interpretation sync_machine: state_machine "sync_step t uc" sync_inv
  by unfold_locales (rule sync_step_inv)

end
