(* ===== verification/Ratio_Sync_Properties.thy ===== *)
theory Ratio_Sync_Properties
  imports Ratio_Sync_Facts
begin

text \<open>
  What the ratio sync saves: the tables that leave the page, cell by cell, and when it asks first.
\<close>

section \<open>Cells of the option tables\<close>

definition ratio_types :: "jstring list" where
  "ratio_types = [lit ''model_ratio'', lit ''completion_ratio'', lit ''cache_ratio'', lit ''model_price'']"

definition cell :: "jstring \<Rightarrow> model_table \<Rightarrow> jstring \<Rightarrow> jsv option" where
  "cell key fin m = map_of (of_model key fin) m"

definition tables :: "model_table \<Rightarrow> bool" where
  "tables fin \<longleftrightarrow> map fst fin = option_names"

lemma optionKey_simps [simp]:
  "optionKey uc (lit ''model_ratio'') = lit ''ModelRatio''"
  "optionKey uc (lit ''completion_ratio'') = lit ''CompletionRatio''"
  "optionKey uc (lit ''cache_ratio'') = lit ''CacheRatio''"
  "optionKey uc (lit ''model_price'') = lit ''ModelPrice''"
proof -
  have "optionKey uc (lit a @ 95 # lit b) =
      (to_upper uc (take 1 (lit a)) @ drop 1 (lit a)) @ to_upper uc (take 1 (lit b)) @ drop 1 (lit b)"
    if "95 \<notin> set (lit a)" "95 \<notin> set (lit b)" for a b
    using that by (simp add: optionKey_def split_on_append split_on_no_sep slice_from_def)
  note key = this [of "''model''" "''ratio''"] this [of "''completion''" "''ratio''"]
    this [of "''cache''" "''ratio''"] this [of "''model''" "''price''"]
  show "optionKey uc (lit ''model_ratio'') = lit ''ModelRatio''"
    "optionKey uc (lit ''completion_ratio'') = lit ''CompletionRatio''"
    "optionKey uc (lit ''cache_ratio'') = lit ''CacheRatio''"
    "optionKey uc (lit ''model_price'') = lit ''ModelPrice''"
    using key by (simp_all add: lit_def to_upper_def)
qed

lemma optionKey_name: "rt \<in> set ratio_types \<Longrightarrow> optionKey uc rt \<in> set option_names"
  by (auto simp: ratio_types_def option_names_def)

lemma optionKey_inject:
  "rt \<in> set ratio_types \<Longrightarrow> rt' \<in> set ratio_types \<Longrightarrow> optionKey uc rt = optionKey uc rt' \<longleftrightarrow> rt = rt'"
  by (auto simp: ratio_types_def)

lemma keys_obj_set_same: "k \<in> fst ` set ps \<Longrightarrow> map fst (obj_set k v ps) = map fst ps"
  by (simp add: obj_set_def)

lemma tables_key: "tables fin \<Longrightarrow> key \<in> set option_names \<Longrightarrow> key \<in> fst ` set fin"
  by (metis list.set_map tables_def)

lemma tables_obj_set: "tables fin \<Longrightarrow> key \<in> set option_names \<Longrightarrow> tables (obj_set key tb fin)"
  using keys_obj_set_same [OF tables_key] by (simp add: tables_def)

lemma cell_obj_set: "cell k (obj_set key tb fin) m = (if k = key then map_of tb m else cell k fin m)"
  by (simp add: cell_def of_model_def)

lemma cell_drop: "cell k (drop_ratio model key fin) m = (if k = key \<and> m = model then None else cell k fin m)"
  by (simp add: drop_ratio_def cell_obj_set) (simp add: cell_def)

lemma tables_drop: "tables fin \<Longrightarrow> key \<in> set option_names \<Longrightarrow> tables (drop_ratio model key fin)"
  by (simp add: drop_ratio_def tables_obj_set)

lemma put_ratio_cells:
  assumes "tables fin" "key \<in> set option_names"
  obtains fin' where "put_ratio key model v fin = Some fin'" "tables fin'"
    "\<And>k m. cell k fin' m = (if k = key \<and> m = model then Some v else cell k fin m)"
proof -
  obtain tb where tb: "map_of fin key = Some tb"
    using tables_key [OF assms] by (metis image_iff map_of_eq_None_iff not_Some_eq)
  show thesis
  proof (rule that [of "obj_set key (obj_set model v tb) fin"])
    show "put_ratio key model v fin = Some (obj_set key (obj_set model v tb) fin)" by (simp add: put_ratio_def tb)
    show "tables (obj_set key (obj_set model v tb) fin)" using assms by (rule tables_obj_set)
    show "cell k (obj_set key (obj_set model v tb) fin) m = (if k = key \<and> m = model then Some v else cell k fin m)" for k m
      by (simp add: cell_obj_set) (simp add: cell_def of_model_def tb)
  qed
qed

section \<open>Saving one model\<close>

definition known :: "props \<Rightarrow> bool" where
  "known ratios \<longleftrightarrow> fst ` set ratios \<subseteq> set ratio_types"

abbreviation num_of :: "jsv \<Rightarrow> jsv" where
  "num_of v \<equiv> JNum (parse_float (js_string v))"

lemma put_ratios_cells:
  assumes "known ratios" "distinct (map fst ratios)" "tables fin"
  shows "\<exists>fin'. put_ratios uc model ratios fin = Some fin' \<and> tables fin' \<and>
    (\<forall>rt \<in> set ratio_types. \<forall>m. cell (optionKey uc rt) fin' m =
       (if m = model \<and> map_of ratios rt \<noteq> None then map_option num_of (map_of ratios rt)
        else cell (optionKey uc rt) fin m))"
  using assms
proof (induction ratios arbitrary: fin)
  case Nil
  then show ?case by simp
next
  case (Cons p ratios)
  obtain rt v where p: "p = (rt, v)" by (cases p)
  have rt: "rt \<in> set ratio_types" using Cons.prems(1) by (simp add: known_def p)
  obtain fin1 where put: "put_ratio (optionKey uc rt) model (num_of v) fin = Some fin1" "tables fin1"
    and cells: "\<And>k m. cell k fin1 m = (if k = optionKey uc rt \<and> m = model then Some (num_of v) else cell k fin m)"
    using put_ratio_cells [OF Cons.prems(3) optionKey_name [OF rt]] by metis
  from Cons.IH [OF _ _ put(2)] Cons.prems obtain fin2 where
    "put_ratios uc model ratios fin1 = Some fin2" "tables fin2"
    "\<forall>rt \<in> set ratio_types. \<forall>m. cell (optionKey uc rt) fin2 m =
       (if m = model \<and> map_of ratios rt \<noteq> None then map_option num_of (map_of ratios rt)
        else cell (optionKey uc rt) fin1 m)"
    by (auto simp: known_def)
  moreover have "map_of ratios rt = None" using Cons.prems(2) by (simp add: p map_of_eq_None_iff)
  ultimately show ?case using rt by (auto simp: p put(1) cells optionKey_inject)
qed

text \<open>The cell of a model with choices: the chosen number, the old entry, or nothing.\<close>

definition saved_cell :: "props \<Rightarrow> jstring \<Rightarrow> jsv option \<Rightarrow> jsv option" where
  "saved_cell ratios rt old = (case map_of ratios rt of
       Some v \<Rightarrow> Some (num_of v)
     | None \<Rightarrow> if getBillingCategory rt = newCategory ratios then old else None)"

lemma names [simp]: "lit ''ModelRatio'' \<in> set option_names" "lit ''CompletionRatio'' \<in> set option_names"
  "lit ''CacheRatio'' \<in> set option_names" "lit ''ModelPrice'' \<in> set option_names"
  by (simp_all add: option_names_def)

text \<open>The entries of the other way of billing are dropped before the chosen numbers are written.\<close>

definition cleared :: "jstring \<Rightarrow> billing \<Rightarrow> model_table \<Rightarrow> model_table" where
  "cleared model c fin = (if c = By_Price
     then drop_ratio model (lit ''CacheRatio'') (drop_ratio model (lit ''CompletionRatio'')
       (drop_ratio model (lit ''ModelRatio'') fin))
     else drop_ratio model (lit ''ModelPrice'') fin)"

lemma cleared_cells:
  assumes "rt \<in> set ratio_types"
  shows "cell (optionKey uc rt) (cleared model c fin) m =
    (if m = model \<and> getBillingCategory rt \<noteq> c then None else cell (optionKey uc rt) fin m)"
proof -
  consider "rt = lit ''model_ratio''" | "rt = lit ''completion_ratio''" | "rt = lit ''cache_ratio''"
    | "rt = lit ''model_price''"
    using assms by (auto simp: ratio_types_def)
  then show ?thesis
    by cases (cases c; simp add: cleared_def cell_drop getBillingCategory_def)+
qed

lemma apply_model_cleared:
  assumes "one_billing ratios"
  shows "apply_model uc model ratios fin = put_ratios uc model ratios (cleared model (newCategory ratios) fin)"
proof (cases "newCategory ratios")
  case By_Price
  have "rt = lit ''model_price''" if "rt \<in> set (obj_keys ratios)" for rt
    using assms that By_Price unfolding one_billing_def obj_keys_def by (fastforce simp: category_iff)
  then have none: "(\<exists>rt \<in> set (obj_keys ratios). rt \<noteq> lit ''model_price'') = False" by blast
  have "lit ''model_price'' \<in> set (obj_keys ratios)"
    using By_Price newCategory_iff [of ratios] by (simp add: obj_keys_def)
  then show ?thesis unfolding apply_model_def cleared_def By_Price Let_def none by simp
next
  case By_Ratio
  then have no: "lit ''model_price'' \<notin> set (obj_keys ratios)"
    using newCategory_iff [of ratios] by (simp add: obj_keys_def)
  have "hd (obj_keys ratios) \<in> set (obj_keys ratios)"
    using assms unfolding one_billing_def obj_keys_def by (intro hd_in_set) simp
  with no have "(\<exists>rt \<in> set (obj_keys ratios). rt \<noteq> lit ''model_price'') = True" by metis
  with no show ?thesis unfolding apply_model_def cleared_def By_Ratio Let_def by simp
qed

lemma apply_model_cells:
  assumes "known ratios" "one_billing ratios" "tables fin"
  shows "\<exists>fin'. apply_model uc model ratios fin = Some fin' \<and> tables fin' \<and>
    (\<forall>rt \<in> set ratio_types. \<forall>m. cell (optionKey uc rt) fin' m =
       (if m = model then saved_cell ratios rt (cell (optionKey uc rt) fin m) else cell (optionKey uc rt) fin m))"
proof -
  let ?c = "newCategory ratios"
  have "tables (cleared model ?c fin)" using assms(3) by (simp add: cleared_def tables_drop)
  with put_ratios_cells [of ratios "cleared model ?c fin" uc model] assms obtain fin' where
    "put_ratios uc model ratios (cleared model ?c fin) = Some fin'" "tables fin'"
    "\<forall>rt \<in> set ratio_types. \<forall>m. cell (optionKey uc rt) fin' m =
       (if m = model \<and> map_of ratios rt \<noteq> None then map_option num_of (map_of ratios rt)
        else cell (optionKey uc rt) (cleared model ?c fin) m)"
    by (auto simp: one_billing_def)
  then show ?thesis
    unfolding apply_model_cleared [OF assms(2)]
    by (intro exI [of _ fin']) (auto simp: cleared_cells saved_cell_def)
qed

lemma finalRatios_cells:
  assumes "\<forall>(m, ratios) \<in> set res. one_billing ratios \<and> known ratios" "distinct (map fst res)" "tables fin"
  shows "\<exists>fin'. finalRatios uc res fin = Some fin' \<and> tables fin' \<and>
    (\<forall>rt \<in> set ratio_types. \<forall>m. cell (optionKey uc rt) fin' m =
       (case map_of res m of
          Some ratios \<Rightarrow> saved_cell ratios rt (cell (optionKey uc rt) fin m)
        | None \<Rightarrow> cell (optionKey uc rt) fin m))"
  using assms
proof (induction res arbitrary: fin)
  case Nil
  then show ?case by simp
next
  case (Cons p res)
  obtain model ratios where p: "p = (model, ratios)" by (cases p)
  obtain fin1 where a: "apply_model uc model ratios fin = Some fin1" "tables fin1"
    "\<forall>rt \<in> set ratio_types. \<forall>m. cell (optionKey uc rt) fin1 m =
       (if m = model then saved_cell ratios rt (cell (optionKey uc rt) fin m) else cell (optionKey uc rt) fin m)"
    using apply_model_cells [of ratios fin uc model] Cons.prems by (auto simp: p)
  have "map_of res model = None" using Cons.prems(2) by (simp add: p map_of_eq_None_iff)
  moreover from Cons.IH [OF _ _ a(2)] Cons.prems obtain fin2 where
    "finalRatios uc res fin1 = Some fin2" "tables fin2"
    "\<forall>rt \<in> set ratio_types. \<forall>m. cell (optionKey uc rt) fin2 m =
       (case map_of res m of
          Some ratios \<Rightarrow> saved_cell ratios rt (cell (optionKey uc rt) fin1 m)
        | None \<Rightarrow> cell (optionKey uc rt) fin1 m)"
    by auto
  ultimately show ?case using a(3) by (auto simp: p a(1) split: option.splits)
qed

section \<open>Asking first\<close>

definition local_billing :: "(jstring \<Rightarrow> jsv) \<Rightarrow> jstring \<Rightarrow> billing option" where
  "local_billing cur m =
     (if get_prop m (cur (lit ''ModelPrice'')) \<noteq> JUndef then Some By_Price
      else if \<exists>name \<in> {lit ''ModelRatio'', lit ''CompletionRatio'', lit ''CacheRatio''}. get_prop m (cur name) \<noteq> JUndef
      then Some By_Ratio else None)"

text \<open>The models with choices that would be billed in another way than now.\<close>

definition switched :: "(jstring \<Rightarrow> jsv) \<Rightarrow> model_table \<Rightarrow> jstring list" where
  "switched cur res =
     map fst (filter (\<lambda>(m, ratios). local_billing cur m \<noteq> None \<and> local_billing cur m \<noteq> Some (newCategory ratios)) res)"

definition objects :: "(jstring \<Rightarrow> jsv) \<Rightarrow> bool" where
  "objects cur \<longleftrightarrow> (\<forall>name \<in> set option_names. \<exists>ps. cur name = JObj ps)"

lemma objects_read: "objects cur \<Longrightarrow> name \<in> set option_names \<Longrightarrow> read_prop m (cur name) = Some (get_prop m (cur name))"
  by (auto simp: objects_def read_prop_def)

lemma local_category: "objects cur \<Longrightarrow> getLocalBillingCategory cur m = Some (local_billing cur m)"
  by (auto simp: getLocalBillingCategory_def local_billing_def objects_read)

lemma conflict_models:
  assumes "objects cur"
  shows "\<exists>items. billing_conflicts t differences cur res = Some items \<and> map cf_model items = switched cur res"
proof (induction res)
  case Nil
  then show ?case by (simp add: switched_def)
next
  case (Cons p res)
  then obtain items where "billing_conflicts t differences cur res = Some items" "map cf_model items = switched cur res" by blast
  then show ?case
    by (cases p; cases "local_billing cur (fst p)")
       (auto simp: local_category [OF assms] switched_def conflict_item_def)
qed

lemma put_effects:
  "rs_effects (foldl (\<lambda>s (key, tb). tell (Put_Option key (f tb)) s) s fin) =
   rs_effects s @ map (\<lambda>(key, tb). Put_Option key (f tb)) fin"
  by (induction fin arbitrary: s) (auto simp: tell_def)

lemma start_cells:
  "tables (start_tables cur)"
  "name \<in> set option_names \<Longrightarrow> cell name (start_tables cur) m = map_of (entries_of (cur name)) m"
  by (auto simp: tables_def start_tables_def cell_def of_model_def option_names_def)



section \<open>Claims\<close>



text \<open>
  C12: Applying the choices asks for confirmation, and saves nothing, exactly when some model would
  be billed in another way than now, and lists those models. Otherwise it saves the four option
  tables, in which a model without choices keeps its entries, a chosen value is stored as its number,
  the other entries of the chosen way of billing stay and those of the other way are gone.
\<close>

theorem sync_saves_choices:
  assumes s: "s = fold (sync_step t uc) es (initial_sync options)"
    and types: "\<forall>(m, ratios) \<in> set (rs_resolutions s). fst ` set ratios \<subseteq> set ratio_types"
    and cur: "currentRatios (rs_options s) = Some cur" "\<forall>name \<in> set option_names. \<exists>ps. cur name = JObj ps"
  shows "if switched cur (rs_resolutions s) = []
    then \<exists>fin. rs_effects (applySync t uc s) =
        rs_effects s @ map (\<lambda>(key, tb). Put_Option key (json_stringify2 (JObj tb))) fin \<and>
      map fst fin = option_names \<and>
      (\<forall>rt \<in> set ratio_types. \<forall>m. map_of (of_model (optionKey uc rt) fin) m =
         (case map_of (rs_resolutions s) m of
            None \<Rightarrow> map_of (entries_of (cur (optionKey uc rt))) m
          | Some ratios \<Rightarrow> saved_cell ratios rt (map_of (entries_of (cur (optionKey uc rt))) m)))
    else rs_effects (applySync t uc s) = rs_effects s \<and> rs_confirmVisible (applySync t uc s) \<and>
      map cf_model (rs_conflictItems (applySync t uc s)) = switched cur (rs_resolutions s)"
proof -
  have "sync_inv (initial_sync options)" by (simp add: sync_inv_def initial_sync_def)
  then have "sync_inv s" unfolding s by (rule sync_machine.run_inv)
  then have tidy: "\<forall>(m, ratios) \<in> set (rs_resolutions s). one_billing ratios \<and> known ratios"
      "distinct (map fst (rs_resolutions s))"
    using types unfolding sync_inv_def tidy_def wf_props_def known_def by blast+
  obtain items where items: "billing_conflicts t (rs_differences s) cur (rs_resolutions s) = Some items"
      "map cf_model items = switched cur (rs_resolutions s)"
    using conflict_models cur(2) unfolding objects_def by metis
  show ?thesis
  proof (cases items)
    case Nil
    obtain fin where fin: "finalRatios uc (rs_resolutions s) (start_tables cur) = Some fin" "tables fin"
      "\<forall>rt \<in> set ratio_types. \<forall>m. cell (optionKey uc rt) fin m =
         (case map_of (rs_resolutions s) m of
            Some ratios \<Rightarrow> saved_cell ratios rt (cell (optionKey uc rt) (start_tables cur) m)
          | None \<Rightarrow> cell (optionKey uc rt) (start_tables cur) m)"
      using finalRatios_cells [OF tidy start_cells(1)] by metis
    have "applySync t uc s = performSync uc cur s" by (simp add: applySync_def cur(1) items(1) Nil)
    then have "rs_effects (applySync t uc s) = rs_effects s @ map (\<lambda>(key, tb). Put_Option key (json_stringify2 (JObj tb))) fin"
      by (simp add: performSync_def fin(1) call_def put_effects)
    moreover have "cell (optionKey uc rt) fin m =
         (case map_of (rs_resolutions s) m of
            None \<Rightarrow> map_of (entries_of (cur (optionKey uc rt))) m
          | Some ratios \<Rightarrow> saved_cell ratios rt (map_of (entries_of (cur (optionKey uc rt))) m))"
      if "rt \<in> set ratio_types" for rt m
      using bspec [OF fin(3) that, THEN spec, of m] start_cells(2) [OF optionKey_name [OF that, of uc], of cur m]
      by (cases "map_of (rs_resolutions s) m") simp_all
    ultimately show ?thesis
      using fin(2) items(2) Nil unfolding cell_def tables_def by (intro if_P [THEN iffD2] exI [of _ fin]) simp_all
  next
    case (Cons i is')
    then have "applySync t uc s = s\<lparr>rs_conflictItems := items, rs_confirmVisible := True\<rparr>"
      by (simp add: applySync_def cur(1) items(1))
    moreover have "switched cur (rs_resolutions s) \<noteq> []" using items(2) Cons by auto
    ultimately show ?thesis using items(2) by simp
  qed
qed

lemma empty_options: "currentRatios [] = Some (\<lambda>name. JObj [])"
proof -
  have "json_parse (lit ''{}'') = Some (JObj [])"
    using json_parse_stringify2 [of "JObj []"] by (simp add: json_stringify2_def json_wrap_def lit_def)
  then have "current_option [] name = Some (JObj [])" for name by (simp add: current_option_def or_else_def)
  then show ?thesis by (simp add: currentRatios_def)
qed

theorem sync_saves_choices_witness:
  "\<exists>fin. rs_effects (applySync id (\<lambda>c. [c]) (sync_step id (\<lambda>c. [c])
        (Choose (lit ''m'') (lit ''model_ratio'') (JStr (lit ''2''))) (initial_sync []))) =
      map (\<lambda>(key, tb). Put_Option key (json_stringify2 (JObj tb))) fin \<and>
    map_of (of_model (lit ''ModelRatio'') fin) (lit ''m'') = Some (num_of (JStr (lit ''2'')))"
proof -
  define s where "s = fold (sync_step id (\<lambda>c. [c])) [Choose (lit ''m'') (lit ''model_ratio'') (JStr (lit ''2''))]
      (initial_sync [])"
  have res: "rs_resolutions s = [(lit ''m'', [(lit ''model_ratio'', JStr (lit ''2''))])]" "rs_options s = []"
      "rs_effects s = []"
    by (simp_all add: s_def initial_sync_def selectValue_def select_in_def of_model_def obj_set_def)
  have rt: "lit ''model_ratio'' \<in> set ratio_types" by (simp add: ratio_types_def)
  have sw: "switched (\<lambda>name. JObj []) (rs_resolutions s) = []" by (simp add: res switched_def local_billing_def)
  have "\<forall>(m, ratios) \<in> set (rs_resolutions s). fst ` set ratios \<subseteq> set ratio_types" by (simp add: res rt)
  from sync_saves_choices [OF s_def this, of "\<lambda>name. JObj []"] sw empty_options obtain fin where
    fin: "rs_effects (applySync id (\<lambda>c. [c]) s) = map (\<lambda>(key, tb). Put_Option key (json_stringify2 (JObj tb))) fin"
      "\<forall>rt \<in> set ratio_types. \<forall>m. map_of (of_model (optionKey (\<lambda>c. [c]) rt) fin) m =
         (case map_of (rs_resolutions s) m of
            None \<Rightarrow> map_of (entries_of (JObj [])) m
          | Some ratios \<Rightarrow> saved_cell ratios rt (map_of (entries_of (JObj [])) m))"
    by (auto simp: res)
  have "map_of (of_model (lit ''ModelRatio'') fin) (lit ''m'') = Some (num_of (JStr (lit ''2'')))"
    using bspec [OF fin(2) rt, THEN spec, of "lit ''m''"] by (simp add: res saved_cell_def)
  with fin(1) show ?thesis unfolding s_def by auto
qed

end
