(* ===== verification/Passkey.thy ===== *)
theory Passkey
  imports Json_Facts "HOL-Library.Word"
begin

text \<open>
  Passkey data between the server and the browser (\<^verbatim>\<open>helpers/passkey.js\<close>): the server writes bytes as
  unpadded base64url text, the browser's credential interface takes and gives buffers. \<^verbatim>\<open>atob\<close> and
  \<^verbatim>\<open>btoa\<close> of the web platform are modelled as specified (forgiving base64). A buffer is the list of
  its bytes; \<open>None\<close> as a result is an exception.
\<close>

type_synonym bytes = "8 word list"

section \<open>Base64 of the platform\<close>

definition base64_char :: "nat \<Rightarrow> nat" where
  "base64_char n = (if n < 26 then 65 + n else if n < 52 then 71 + n else if n < 62 then n - 4
     else if n = 62 then 43 else 47)"

definition base64_digit :: "nat \<Rightarrow> nat option" where
  "base64_digit c = (if 65 \<le> c \<and> c \<le> 90 then Some (c - 65) else if 97 \<le> c \<and> c \<le> 122 then Some (c - 71)
     else if is_digit c then Some (c + 4) else if c = 43 then Some 62 else if c = 47 then Some 63 else None)"

fun sextets :: "nat list \<Rightarrow> nat list" where
  "sextets [] = []"
| "sextets [a] = [a div 4, a mod 4 * 16]"
| "sextets [a, b] = [a div 4, a mod 4 * 16 + b div 16, b mod 16 * 4]"
| "sextets (a # b # c # r) =
     [a div 4, a mod 4 * 16 + b div 16, b mod 16 * 4 + c div 64, c mod 64] @ sextets r"

text \<open>The bits left over at the end of a text are dropped.\<close>

fun octets :: "nat list \<Rightarrow> nat list" where
  "octets [] = []"
| "octets [p] = []"
| "octets [p, q] = [p * 4 + q div 16]"
| "octets [p, q, r] = [p * 4 + q div 16, q mod 16 * 16 + r div 4]"
| "octets (p # q # r # s # t) =
     [p * 4 + q div 16, q mod 16 * 16 + r div 4, r mod 4 * 64 + s] @ octets t"

text \<open>\<^verbatim>\<open>btoa\<close> of a string of units below 256.\<close>

definition btoa :: "jstring \<Rightarrow> jstring" where
  "btoa s = (let cs = map base64_char (sextets s) in cs @ replicate ((4 - length cs mod 4) mod 4) 61)"

definition ascii_ws :: "nat \<Rightarrow> bool" where
  "ascii_ws c \<longleftrightarrow> c \<in> {9, 10, 12, 13, 32}"

definition strip_padding :: "jstring \<Rightarrow> jstring" where
  "strip_padding s =
     (if length s mod 4 = 0
      then (if ends_with s [61, 61] then take (length s - 2) s
            else if ends_with s [61] then take (length s - 1) s else s)
      else s)"

definition atob :: "jstring \<Rightarrow> jstring option" where
  "atob s0 =
     (let s = strip_padding (filter (\<lambda>c. \<not> ascii_ws c) s0)
      in if length s mod 4 = 1 \<or> (\<exists>c \<in> set s. base64_digit c = None) then None
         else Some (octets (map (\<lambda>c. the (base64_digit c)) s)))"

section \<open>Conversions\<close>

text \<open>The argument is a string, or \<open>None\<close> for \<^verbatim>\<open>undefined\<close> and \<^verbatim>\<open>null\<close>.\<close>

definition base64UrlToBuffer :: "jstring option \<Rightarrow> bytes option" where
  "base64UrlToBuffer base64url =
     (case base64url of
        None \<Rightarrow> Some []
      | Some s \<Rightarrow>
          if s = [] then Some []
          else map_option (map word_of_nat)
                 (atob (replace_unit 95 [47] (replace_unit 45 [43]
                    (s @ replicate ((4 - length s mod 4) mod 4) 61)))))"

definition bufferToBase64Url :: "bytes option \<Rightarrow> jstring" where
  "bufferToBase64Url buffer =
     (case buffer of
        None \<Rightarrow> []
      | Some bs \<Rightarrow>
          rev (dropWhile (\<lambda>c. c = 61) (rev (replace_unit 47 [95] (replace_unit 43 [45] (btoa (map unat bs)))))))"

section \<open>Options for the browser\<close>

datatype pk_value =
    PJson jsv
  | PBuffer bytes
  | PObj "(jstring \<times> pk_value) list"
  | PArr "pk_value list"

definition text_of :: "jsv \<Rightarrow> jstring option" where
  "text_of v = (case v of JStr s \<Rightarrow> Some s | _ \<Rightarrow> None)"

definition pk_buffer :: "jsv \<Rightarrow> pk_value option" where
  "pk_buffer v = map_option PBuffer (base64UrlToBuffer (text_of v))"

definition pk_spread :: "jsv \<Rightarrow> (jstring \<times> pk_value) list" where
  "pk_spread v = map (\<lambda>(k, x). (k, PJson x)) (entries_of v)"

text \<open>\<^verbatim>\<open>{ ...item, id: base64UrlToBuffer(item.id) }\<close>; reading \<^verbatim>\<open>null.id\<close> throws.\<close>

definition pk_descriptor :: "jsv \<Rightarrow> pk_value option" where
  "pk_descriptor item =
     (if item = JNull \<or> item = JUndef then None
      else map_option (\<lambda>b. PObj (obj_set (lit ''id'') b (pk_spread item))) (pk_buffer (get_prop (lit ''id'') item)))"

fun pk_descriptors :: "jsv list \<Rightarrow> pk_value list option" where
  "pk_descriptors [] = Some []"
| "pk_descriptors (v # vs) = (case (pk_descriptor v, pk_descriptors vs) of
     (Some d, Some ds) \<Rightarrow> Some (d # ds) | _ \<Rightarrow> None)"

definition payload_options :: "jsv \<Rightarrow> jsv" where
  "payload_options payload =
     or_else (get_prop (lit ''publicKey'') payload) (or_else (get_prop (lit ''PublicKey'') payload)
       (or_else (get_prop (lit ''response'') payload) (get_prop (lit ''Response'') payload)))"

text \<open>\<^verbatim>\<open>if (Array.isArray(options[k])) publicKey[k] = options[k].map(...)\<close>.\<close>

definition with_descriptors :: "jstring \<Rightarrow> jsv \<Rightarrow> (jstring \<times> pk_value) list \<Rightarrow> (jstring \<times> pk_value) list option" where
  "with_descriptors k options pk =
     (case get_prop k options of
        JArr items \<Rightarrow> map_option (\<lambda>ds. obj_set k (PArr ds) pk) (pk_descriptors items)
      | _ \<Rightarrow> Some pk)"

definition prepareCredentialCreationOptions :: "jsv \<Rightarrow> (jstring \<times> pk_value) list option" where
  "prepareCredentialCreationOptions payload =
     (let options = payload_options payload;
          user = get_prop (lit ''user'') options
      in if \<not> truthy options then None
         else case (pk_buffer (get_prop (lit ''challenge'') options), pk_buffer (get_prop (lit ''id'') user)) of
           (Some challenge, Some uid) \<Rightarrow>
             (let pk = obj_set (lit ''user'') (PObj (obj_set (lit ''id'') uid (pk_spread user)))
                         (obj_set (lit ''challenge'') challenge (pk_spread options))
              in map_option
                   (\<lambda>pk'. if get_prop (lit ''attestationFormats'') options = JArr []
                          then obj_delete (lit ''attestationFormats'') pk' else pk')
                   (with_descriptors (lit ''excludeCredentials'') options pk))
         | _ \<Rightarrow> None)"

definition prepareCredentialRequestOptions :: "jsv \<Rightarrow> (jstring \<times> pk_value) list option" where
  "prepareCredentialRequestOptions payload =
     (let options = payload_options payload
      in if \<not> truthy options then None
         else case pk_buffer (get_prop (lit ''challenge'') options) of
           Some challenge \<Rightarrow>
             with_descriptors (lit ''allowCredentials'') options
               (obj_set (lit ''challenge'') challenge (pk_spread options))
         | None \<Rightarrow> None)"

section \<open>Results for the server\<close>

text \<open>
  A credential as the browser gives it. \<open>cr_transports\<close> and \<open>cr_extensions\<close> are the results of the two
  optional methods, \<^verbatim>\<open>undefined\<close> where the method is missing.
\<close>

record credential =
  cr_id :: jsv
  cr_rawId :: "bytes option"
  cr_type :: jsv
  cr_attachment :: jsv
  cr_clientDataJSON :: "bytes option"
  cr_attestationObject :: "bytes option"
  cr_authenticatorData :: "bytes option"
  cr_signature :: "bytes option"
  cr_userHandle :: "bytes option"
  cr_transports :: jsv
  cr_extensions :: jsv

definition buildRegistrationResult :: "credential option \<Rightarrow> jsv" where
  "buildRegistrationResult credential =
     (case credential of
        None \<Rightarrow> JNull
      | Some c \<Rightarrow>
          JObj [(lit ''id'', cr_id c), (lit ''rawId'', JStr (bufferToBase64Url (cr_rawId c))),
                (lit ''type'', cr_type c), (lit ''authenticatorAttachment'', cr_attachment c),
                (lit ''response'', JObj [
                   (lit ''attestationObject'', JStr (bufferToBase64Url (cr_attestationObject c))),
                   (lit ''clientDataJSON'', JStr (bufferToBase64Url (cr_clientDataJSON c))),
                   (lit ''transports'', cr_transports c)]),
                (lit ''clientExtensionResults'', nullish (cr_extensions c) (JObj []))])"

definition buildAssertionResult :: "credential option \<Rightarrow> jsv" where
  "buildAssertionResult assertion =
     (case assertion of
        None \<Rightarrow> JNull
      | Some c \<Rightarrow>
          JObj [(lit ''id'', cr_id c), (lit ''rawId'', JStr (bufferToBase64Url (cr_rawId c))),
                (lit ''type'', cr_type c), (lit ''authenticatorAttachment'', cr_attachment c),
                (lit ''response'', JObj [
                   (lit ''authenticatorData'', JStr (bufferToBase64Url (cr_authenticatorData c))),
                   (lit ''clientDataJSON'', JStr (bufferToBase64Url (cr_clientDataJSON c))),
                   (lit ''signature'', JStr (bufferToBase64Url (cr_signature c))),
                   (lit ''userHandle'', case cr_userHandle c of
                      Some h \<Rightarrow> JStr (bufferToBase64Url (Some h)) | None \<Rightarrow> JNull)]),
                (lit ''clientExtensionResults'', nullish (cr_extensions c) (JObj []))])"

text \<open>
  The two probes of \<^verbatim>\<open>PublicKeyCredential\<close>: missing, resolved, or rejected.
\<close>

datatype probe = Missing | Resolves jsv | Rejects

definition isPasskeySupported :: "bool \<Rightarrow> probe \<Rightarrow> probe \<Rightarrow> jsv" where
  "isPasskeySupported hasInterface conditional verifying =
     (if \<not> hasInterface then JBool False
      else case conditional of
        Resolves available \<Rightarrow>
          if truthy available then JBool True
          else (case verifying of Resolves v \<Rightarrow> v | Rejects \<Rightarrow> JBool False | Missing \<Rightarrow> JBool True)
      | _ \<Rightarrow> (case verifying of Resolves v \<Rightarrow> v | Rejects \<Rightarrow> JBool False | Missing \<Rightarrow> JBool True))"

section \<open>Round trip\<close>

lemma octets_sextets: "\<forall>a \<in> set bs. a < 256 \<Longrightarrow> octets (sextets bs) = bs"
proof (induction bs rule: sextets.induct)
  case (4 a b c r)
  have "(a mod 4 * 16 + b div 16) div 16 = a mod 4" "(a mod 4 * 16 + b div 16) mod 16 = b div 16"
    "(b mod 16 * 4 + c div 64) div 4 = b mod 16" "(b mod 16 * 4 + c div 64) mod 4 = c div 64"
    using 4 by auto
  with 4 show ?case by simp
qed auto

lemma sextets_bound: "\<forall>a \<in> set bs. a < 256 \<Longrightarrow> s \<in> set (sextets bs) \<Longrightarrow> s < 64"
  by (induction bs rule: sextets.induct) auto

lemma sextets_length: "length (sextets bs) = (4 * length bs + 2) div 3"
  by (induction bs rule: sextets.induct) auto

lemma base64_digit_char: "n < 64 \<Longrightarrow> base64_digit (base64_char n) = Some n"
  by (auto simp: base64_digit_def base64_char_def is_digit_def)

definition url_char :: "nat \<Rightarrow> nat" where
  "url_char n = (if n = 62 then 45 else if n = 63 then 95 else base64_char n)"

lemma base64_char_plain: "n < 64 \<Longrightarrow> base64_char n \<notin> {61, 45, 95} \<and> \<not> ascii_ws (base64_char n)"
  by (auto simp: base64_char_def ascii_ws_def)

lemma url_of_base64:
  "\<forall>n \<in> set ss. n < 64 \<Longrightarrow> replace_unit 47 [95] (replace_unit 43 [45] (map base64_char ss)) = map url_char ss"
  by (induction ss) (auto simp: url_char_def base64_char_def)

lemma base64_of_url:
  "\<forall>n \<in> set ss. n < 64 \<Longrightarrow> replace_unit 95 [47] (replace_unit 45 [43] (map url_char ss)) = map base64_char ss"
  by (induction ss) (auto simp: url_char_def base64_char_def)

lemma url_char_not_pad: "n < 64 \<Longrightarrow> url_char n \<noteq> 61"
  by (auto simp: url_char_def base64_char_def)

lemma unats_bound: "\<forall>a \<in> set (map unat (bs :: bytes)). a < 256"
proof -
  have "unat b < 256" for b :: "8 word" using unsigned_less [of b] by simp
  then show ?thesis by simp
qed

lemma drop_pad:
  fixes xs :: "nat list"
  assumes "\<forall>c \<in> set xs. c \<noteq> 61"
  shows "rev (dropWhile (\<lambda>c. c = 61) (rev (xs @ replicate k 61))) = xs"
proof -
  from assms have "dropWhile (\<lambda>c. c = 61) (rev xs) = rev xs" by (auto simp: dropWhile_eq_self_iff hd_rev)
  moreover have "dropWhile (\<lambda>c. c = 61) (replicate k 61 @ ys) = dropWhile (\<lambda>c. c = 61) ys" for ys :: "nat list"
    by (induction k) auto
  ultimately show ?thesis by simp
qed

lemma buffer_text: "bufferToBase64Url (Some bs) = map url_char (sextets (map unat bs))"
proof -
  have b: "\<forall>n \<in> set (sextets (map unat bs)). n < 64" using sextets_bound [OF unats_bound] by blast
  have "replace_unit 47 [95] (replace_unit 43 [45] (replicate k 61)) = replicate k 61" for k
    by (induction k) auto
  moreover have "\<forall>c \<in> set (map url_char (sextets (map unat bs))). c \<noteq> 61" using b url_char_not_pad by auto
  ultimately show ?thesis
    using url_of_base64 [OF b] drop_pad [of "map url_char (sextets (map unat bs))"]
    by (simp add: bufferToBase64Url_def btoa_def Let_def replace_unit_append)
qed

lemma strip_padding_pad:
  assumes "\<forall>c \<in> set xs. c \<noteq> 61" "length xs mod 4 \<noteq> 1"
  shows "strip_padding (xs @ replicate ((4 - length xs mod 4) mod 4) 61) = xs"
proof -
  have last: "xs = [] \<or> last xs \<noteq> 61" using assms(1) by (cases xs rule: rev_cases) auto
  consider "length xs mod 4 = 0" | "length xs mod 4 = 2" | "length xs mod 4 = 3" using assms(2) by linarith
  then show ?thesis
  proof cases
    case 1
    have "\<not> ends_with xs [61]" "\<not> ends_with xs [61, 61]"
      using last by (cases xs rule: rev_cases; auto simp: ends_with_def)+
    with 1 show ?thesis by (simp add: strip_padding_def)
  next
    case 2
    then show ?thesis by (simp add: strip_padding_def ends_with_def numeral_2_eq_2) presburger
  next
    case 3
    then obtain ys c where "xs = ys @ [c]" by (cases xs rule: rev_cases) auto
    with 3 last show ?thesis by (simp add: strip_padding_def ends_with_def) presburger
  qed
qed

lemma text_buffer: "base64UrlToBuffer (Some (map url_char (sextets (map unat bs)))) = Some bs"
proof (cases "bs = []")
  case True
  then show ?thesis by (simp add: base64UrlToBuffer_def)
next
  case False
  let ?ss = "sextets (map unat bs)"
  have b: "\<forall>n \<in> set ?ss. n < 64" using sextets_bound [OF unats_bound] by blast
  have l: "length ?ss = (4 * length bs + 2) div 3" by (simp add: sextets_length)
  then have "length ?ss mod 4 \<noteq> 1" by presburger
  moreover from l False have "0 < length ?ss" by (cases bs) auto
  ultimately have len: "length ?ss mod 4 \<noteq> 1" "?ss \<noteq> []" by auto
  let ?k = "(4 - length ?ss mod 4) mod 4"
  have pad: "replace_unit 95 [47] (replace_unit 45 [43] (map url_char ?ss @ replicate ?k 61)) =
      map base64_char ?ss @ replicate ?k 61"
  proof -
    have "replace_unit 95 [47] (replace_unit 45 [43] (replicate k 61)) = replicate k 61" for k
      by (induction k) auto
    then show ?thesis using base64_of_url [OF b] by (simp add: replace_unit_append)
  qed
  have clean: "filter (\<lambda>c. \<not> ascii_ws c) (map base64_char ?ss @ replicate ?k 61) = map base64_char ?ss @ replicate ?k 61"
    using b base64_char_plain by (auto simp: ascii_ws_def intro!: filter_True)
  have strip: "strip_padding (map base64_char ?ss @ replicate ?k 61) = map base64_char ?ss"
    using strip_padding_pad [of "map base64_char ?ss"] b base64_char_plain len(1) by auto
  have "map (\<lambda>c. the (base64_digit c)) (map base64_char ?ss) = ?ss"
    using b by (simp add: base64_digit_char map_idI)
  then have "atob (map base64_char ?ss @ replicate ?k 61) = Some (map unat bs)"
    unfolding atob_def clean Let_def strip
    using b len(1) octets_sextets [OF unats_bound] by (simp add: base64_digit_char)
  with len(2) show ?thesis by (simp add: base64UrlToBuffer_def pad map_idI)
qed

lemma url_char_safe: "n < 64 \<Longrightarrow> is_digit (url_char n) \<or> 65 \<le> url_char n \<and> url_char n \<le> 90 \<or>
    97 \<le> url_char n \<and> url_char n \<le> 122 \<or> url_char n = 45 \<or> url_char n = 95"
  by (auto simp: url_char_def base64_char_def is_digit_def)

lemma pk_buffer_text: "pk_buffer (JStr (bufferToBase64Url (Some bs))) = Some (PBuffer bs)"
  by (simp add: pk_buffer_def text_of_def buffer_text text_buffer)

definition listed :: "bytes \<Rightarrow> jsv" where
  "listed b = JObj [(lit ''type'', JStr (lit ''public-key'')), (lit ''id'', JStr (bufferToBase64Url (Some b)))]"

definition described :: "bytes \<Rightarrow> pk_value" where
  "described b = PObj [(lit ''type'', PJson (JStr (lit ''public-key''))), (lit ''id'', PBuffer b)]"

lemma pk_descriptors_listed: "pk_descriptors (map listed ids) = Some (map described ids)"
proof -
  have "pk_descriptor (listed b) = Some (described b)" for b
    by (simp add: pk_descriptor_def listed_def described_def pk_buffer_text pk_spread_def obj_set_def)
  then show ?thesis by (induction ids) simp_all
qed

section \<open>Claims\<close>

text \<open>
  C18: Bytes written as base64url text are read back as the same bytes, for every buffer; the text has
  no padding and only letters, digits, minus and underscore. So a challenge and the credential
  identifiers the server lists reach the authenticator as the bytes the server encoded.
\<close>

theorem passkey_bytes_roundtrip:
  assumes "payload_options payload = JObj ps"
    and "obj_get (lit ''challenge'') ps = JStr (bufferToBase64Url (Some c))"
    and "obj_get (lit ''allowCredentials'') ps = JArr (map listed ids)"
  shows "base64UrlToBuffer (Some (bufferToBase64Url (Some bs))) = Some bs \<and>
    length (bufferToBase64Url (Some bs)) = (4 * length bs + 2) div 3 \<and>
    (\<forall>u \<in> set (bufferToBase64Url (Some bs)). is_digit u \<or> 65 \<le> u \<and> u \<le> 90 \<or> 97 \<le> u \<and> u \<le> 122 \<or> u = 45 \<or> u = 95) \<and>
    (\<exists>pk. prepareCredentialRequestOptions payload = Some pk \<and> map_of pk (lit ''challenge'') = Some (PBuffer c) \<and>
       map_of pk (lit ''allowCredentials'') = Some (PArr (map described ids)))"
proof -
  have "prepareCredentialRequestOptions payload =
      Some (obj_set (lit ''allowCredentials'') (PArr (map described ids))
        (obj_set (lit ''challenge'') (PBuffer c) (pk_spread (JObj ps))))"
    using assms
    by (simp add: prepareCredentialRequestOptions_def with_descriptors_def pk_buffer_text pk_descriptors_listed)
  moreover have "n < 64" if "n \<in> set (sextets (map unat bs))" for n
    using sextets_bound [OF unats_bound] that by blast
  ultimately show ?thesis
    using url_char_safe by (auto simp: buffer_text text_buffer sextets_length)
qed

theorem passkey_bytes_roundtrip_witness:
  "\<exists>pk. prepareCredentialRequestOptions (JObj [(lit ''publicKey'', JObj [
        (lit ''challenge'', JStr (bufferToBase64Url (Some [255, 239, 1, 0]))),
        (lit ''allowCredentials'', JArr (map listed [[1, 2, 3]]))])]) = Some pk \<and>
     map_of pk (lit ''challenge'') = Some (PBuffer [255, 239, 1, 0])"
  using passkey_bytes_roundtrip [of "JObj [(lit ''publicKey'', JObj [
        (lit ''challenge'', JStr (bufferToBase64Url (Some [255, 239, 1, 0]))),
        (lit ''allowCredentials'', JArr (map listed [[1, 2, 3]]))])]"
      "[(lit ''challenge'', JStr (bufferToBase64Url (Some [255, 239, 1, 0]))),
        (lit ''allowCredentials'', JArr (map listed [[1, 2, 3]]))]" "[255, 239, 1, 0]" "[[1, 2, 3]]" "[]"]
  by (auto simp: payload_options_def or_else_def)

end
