(* ===== verification/Playground_Think.thy ===== *)
theory Playground_Think
  imports Js_Value
begin

text \<open>
  The reasoning marks of an answer, \<^verbatim>\<open><think>\<close> and \<^verbatim>\<open></think>\<close>, as \<^verbatim>\<open>processThinkTags\<close> and
  \<^verbatim>\<open>processIncompleteThinkTags\<close> of \<^verbatim>\<open>helpers/utils.jsx\<close> take them apart: what stands between the marks
  becomes reasoning, the rest is the answer. A call that throws is \<open>None\<close>.
\<close>

section \<open>The marks\<close>

definition think_open :: jstring where
  "think_open = lit ''<think>''"

definition think_close :: jstring where
  "think_close = lit ''</think>''"

text \<open>The text put between two thoughts: \<^verbatim>\<open>\n\n---\n\n\<close>.\<close>

definition thought_sep :: jstring where
  "thought_sep = [10, 10] @ lit ''---'' @ [10, 10]"

text \<open>\<^verbatim>\<open>s.lastIndexOf(p)\<close> for a pattern that is not empty, with \<open>None\<close> for -1.\<close>

fun last_index_of :: "jstring \<Rightarrow> jstring \<Rightarrow> nat option" where
  "last_index_of [] p = None"
| "last_index_of (c # s) p = (case last_index_of s p of
       Some i \<Rightarrow> Some (Suc i)
     | None \<Rightarrow> if starts_with (c # s) p then Some 0 else None)"

text \<open>
  The loop over \<^verbatim>\<open>THINK_TAG_REGEX.exec(content)\<close>: the parts outside the matches of
  \<^verbatim>\<open>/<think>([\s\S]*?)<\/think>/g\<close> and the texts inside them. A match starts at the first opening
  mark that a closing mark follows, which is the first opening mark or none, and ends at the first
  closing mark after it.
\<close>

function think_split :: "jstring \<Rightarrow> jstring list \<times> jstring list" where
  "think_split s = (case index_of s think_open of
       None \<Rightarrow> ([s], [])
     | Some i \<Rightarrow> (let rest = drop (i + length think_open) s in
         case index_of rest think_close of
           None \<Rightarrow> ([s], [])
         | Some j \<Rightarrow> (let (parts, thoughts) = think_split (drop (j + length think_close) rest)
                     in (take i s # parts, take j rest # thoughts))))"
  by pat_completeness auto
termination
proof (relation "measure length", goal_cases)
  case (2 s i rest j)
  have "s \<noteq> []" using 2(1) by (auto simp: think_open_def)
  then show ?case using 2 by (simp add: think_open_def)
qed simp

declare think_split.simps [simp del]

text \<open>\<^verbatim>\<open>s.replace(/<\/?think>/g, '')\<close>.\<close>

function strip_tags :: "jstring \<Rightarrow> jstring" where
  "strip_tags [] = []"
| "strip_tags (c # s) =
     (if starts_with (c # s) think_open then strip_tags (drop (length think_open) (c # s))
      else if starts_with (c # s) think_close then strip_tags (drop (length think_close) (c # s))
      else c # strip_tags s)"
  by pat_completeness auto
termination
  by (relation "measure length") (auto simp: think_open_def think_close_def)

section \<open>Taking an answer apart\<close>

text \<open>
  \<^verbatim>\<open>a && b ? `${a}\n\n---\n\n${b}` : a || b\<close>, the reasoning sent apart followed by the thoughts found
  in the text.
\<close>

definition join_reasoning :: "jsv \<Rightarrow> jstring \<Rightarrow> jsv" where
  "join_reasoning r thoughts =
     (if truthy r \<and> thoughts \<noteq> [] then JStr (js_string r @ thought_sep @ thoughts)
      else or_else r (JStr thoughts))"

text \<open>
  \<^verbatim>\<open>content.includes\<close> of an array compares its elements; the calls on a string that follow throw for
  an array, and \<^verbatim>\<open>includes\<close> itself throws for what is neither a string nor an array.
\<close>

definition processThinkTags :: "jsv \<Rightarrow> jsv \<Rightarrow> (jsv \<times> jsv) option" where
  "processThinkTags content r =
     (if \<not> truthy content then Some (content, r)
      else case content of
        JStr s \<Rightarrow>
          if \<not> includes_str s think_open then Some (content, r)
          else (let (parts, thoughts) = think_split s
                in Some (JStr (trim (strip_tags (join [] parts))), join_reasoning r (join thought_sep thoughts)))
      | JArr vs \<Rightarrow> if JStr think_open \<in> set vs then None else Some (content, r)
      | _ \<Rightarrow> None)"

definition processIncompleteThinkTags :: "jsv \<Rightarrow> jsv \<Rightarrow> (jsv \<times> jsv) option" where
  "processIncompleteThinkTags content r =
     (if \<not> truthy content then Some (JStr [], r)
      else case content of
        JStr s \<Rightarrow> (case last_index_of s think_open of
            None \<Rightarrow> processThinkTags content r
          | Some i \<Rightarrow>
              if includes_str (drop i s) think_close then processThinkTags content r
              else (let unclosed = trim (drop (length think_open) (drop i s))
                    in processThinkTags (JStr (take i s))
                         (if unclosed = [] then r
                          else if truthy r then JStr (js_string r @ thought_sep @ unclosed)
                          else JStr unclosed)))
      | JArr vs \<Rightarrow> if JStr think_open \<in> set vs then None else processThinkTags content r
      | _ \<Rightarrow> None)"

section \<open>Finding the marks\<close>

text \<open>
  A pattern whose first unit does not occur again in it cannot overlap itself, so that its first
  occurrence after a text that does not contain it is where it was put.
\<close>

lemma starts_with_overlap:
  assumes "starts_with (c # s @ (a # q) @ t) (a # q)" "a \<notin> set q"
  shows "starts_with (c # s) (a # q)"
proof (cases "length q \<le> length s")
  case True
  then show ?thesis using assms(1) by (simp add: starts_with_def)
next
  case False
  have "take (length q) (s @ (a # q) @ t) = q" using assms(1) by (simp add: starts_with_def)
  moreover have "take (length q) (s @ (a # q) @ t) ! length s = a" using False by (simp add: nth_append)
  ultimately have "q ! length s = a" by simp
  then show ?thesis using False assms(2) nth_mem [of "length s" q] by auto
qed

lemma includes_str_Cons: "includes_str (c # s) p \<longleftrightarrow> starts_with (c # s) p \<or> includes_str s p"
  by (simp add: includes_str_def)

lemma index_of_at:
  assumes "\<not> includes_str s (a # q)" "a \<notin> set q"
  shows "index_of (s @ (a # q) @ t) (a # q) = Some (length s)"
  using assms
proof (induction s)
  case Nil
  show ?case using starts_with_append [of "a # q" t] by simp
next
  case (Cons c s)
  then have "\<not> starts_with (c # s @ (a # q) @ t) (a # q)"
    using starts_with_overlap [of c s a q t] by (auto simp: includes_str_Cons)
  then show ?case using Cons by (simp add: includes_str_Cons)
qed

lemma last_index_of_None: "p \<noteq> [] \<Longrightarrow> last_index_of s p = None \<longleftrightarrow> \<not> includes_str s p"
  by (induction s) (auto simp: includes_str_def split: option.splits)

lemma not_includes_append:
  assumes "a \<notin> set s" "\<not> includes_str t (a # q)"
  shows "\<not> includes_str (s @ t) (a # q)"
  using assms by (induction s) (auto simp: includes_str_Cons starts_with_def)

lemma last_index_of_at:
  assumes "\<not> includes_str t (a # q)" "a \<notin> set q"
  shows "last_index_of (s @ (a # q) @ t) (a # q) = Some (length s)"
proof (induction s)
  case Nil
  have "last_index_of (q @ t) (a # q) = None"
    using not_includes_append [OF assms(2, 1)] by (simp add: last_index_of_None)
  then show ?case using starts_with_append [of "a # q" t] by simp
qed simp

lemma think_open_Cons: "think_open = 60 # lit ''think>''" "60 \<notin> set (lit ''think>'')"
  by (simp_all add: think_open_def lit_def)

lemma think_close_Cons: "think_close = 60 # lit ''/think>''" "60 \<notin> set (lit ''/think>'')"
  by (simp_all add: think_close_def lit_def)

lemmas index_of_open = index_of_at [OF _ think_open_Cons(2), folded think_open_Cons(1)]
lemmas index_of_close = index_of_at [OF _ think_close_Cons(2), folded think_close_Cons(1)]
lemmas last_index_of_open = last_index_of_at [OF _ think_open_Cons(2), folded think_open_Cons(1)]

lemma join_Nil_concat: "join [] xs = concat xs"
  by (induction xs rule: induct_list012) simp_all

lemma strip_tags_id: "60 \<notin> set s \<Longrightarrow> strip_tags s = s"
  by (induction s) (auto simp: starts_with_def think_open_Cons(1) think_close_Cons(1))

section \<open>Answers with marked thoughts\<close>

text \<open>The text of an answer: its parts with a marked thought between any two of them.\<close>

fun weave :: "jstring \<Rightarrow> (jstring \<times> jstring) list \<Rightarrow> jstring" where
  "weave p [] = p"
| "weave p ((t, q) # rest) = p @ think_open @ t @ think_close @ weave q rest"

definition no_open :: "jstring \<Rightarrow> bool" where
  "no_open s \<longleftrightarrow> \<not> includes_str s think_open"

definition no_close :: "jstring \<Rightarrow> bool" where
  "no_close s \<longleftrightarrow> \<not> includes_str s think_close"

lemma think_split_weave:
  assumes "no_open p" "list_all (\<lambda>(t, q). no_close t \<and> no_open q) rest"
  shows "think_split (weave p rest) = (p # map snd rest, map fst rest)"
  using assms
proof (induction p rest rule: weave.induct)
  case (1 p)
  then show ?case by (simp add: think_split.simps [of p] no_open_def includes_str_def)
next
  case (2 p t q rest)
  have i: "index_of (weave p ((t, q) # rest)) think_open = Some (length p)"
    using 2 index_of_open [of p "t @ think_close @ weave q rest"] by (simp add: no_open_def)
  have j: "index_of (t @ think_close @ weave q rest) think_close = Some (length t)"
    using 2 index_of_close [of t "weave q rest"] by (simp add: no_close_def)
  have "think_split (weave q rest) = (q # map snd rest, map fst rest)" using 2 by simp
  then show ?case using i j by (simp add: think_split.simps [of "p @ _"])
qed

lemma includes_weave: "rest \<noteq> [] \<Longrightarrow> includes_str (weave p rest) think_open"
  by (cases rest) (auto simp: includes_str_iff intro: exI [of _ p])

lemma processThinkTags_weave:
  assumes "no_open p" "list_all (\<lambda>(t, q). no_close t \<and> no_open q) rest" "rest \<noteq> []"
  shows "processThinkTags (JStr (weave p rest)) r =
     Some (JStr (trim (strip_tags (p @ concat (map snd rest)))), join_reasoning r (join thought_sep (map fst rest)))"
proof -
  have "weave p rest \<noteq> []" using assms(3) by (cases rest) (auto simp: think_open_def)
  then show ?thesis
    using assms think_split_weave [OF assms(1, 2)] includes_weave [OF assms(3), of p]
    by (simp add: processThinkTags_def join_Nil_concat)
qed

text \<open>An answer that was stopped inside a thought.\<close>

lemma processIncomplete_weave:
  assumes "no_open u" "no_close u"
  shows "processIncompleteThinkTags (JStr (x @ think_open @ u)) r =
     processThinkTags (JStr x) (if trim u = [] then r else join_reasoning r (trim u))"
proof -
  have l: "last_index_of (x @ think_open @ u) think_open = Some (length x)"
    using assms last_index_of_open [of u x] by (simp add: no_open_def)
  have "\<not> includes_str (think_open @ u) think_close"
  proof -
    have "\<not> includes_str (lit ''think>'' @ u) think_close"
      using not_includes_append [OF think_open_Cons(2)] assms(2) by (simp add: no_close_def think_close_Cons(1))
    then show ?thesis
      by (simp add: think_open_Cons(1) includes_str_Cons starts_with_def think_close_def lit_def)
  qed
  then show ?thesis
    using l by (simp add: processIncompleteThinkTags_def join_reasoning_def or_else_def think_open_def)
qed

text \<open>
  C19: Whatever parts and thoughts an answer is made of, taking it apart gives them back: of a text in
  which thoughts free of the closing mark stand between marks and the parts around them are free of the
  opening mark, the answer shown is the parts in order (left-over marks and outer blanks removed) and the
  reasoning is the reasoning sent apart followed by the thoughts in order. When generation stops inside
  a thought, that thought too goes to the reasoning and nothing of it to the answer.
\<close>

theorem think_tags_taken_apart:
  assumes "no_open p" "list_all (\<lambda>(t, q). no_close t \<and> no_open q) rest" "rest \<noteq> []"
    and "no_open u" "no_close u" "trim u \<noteq> []"
  shows "processThinkTags (JStr (weave p rest)) r =
       Some (JStr (trim (strip_tags (p @ concat (map snd rest)))), join_reasoning r (join thought_sep (map fst rest))) \<and>
     processIncompleteThinkTags (JStr (weave p rest @ think_open @ u)) r =
       Some (JStr (trim (strip_tags (p @ concat (map snd rest)))),
             join_reasoning (join_reasoning r (trim u)) (join thought_sep (map fst rest)))"
  using assms processIncomplete_weave [OF assms(4, 5)] processThinkTags_weave [OF assms(1-3)] by simp_all

theorem think_tags_taken_apart_witness:
  "processIncompleteThinkTags (JStr (lit ''Hi <think>why</think> there<think>and'')) (JStr []) =
     Some (JStr (lit ''Hi  there''), JStr (lit ''and'' @ thought_sep @ lit ''why''))"
proof -
  have w: "lit ''Hi <think>why</think> there<think>and'' =
      weave (lit ''Hi '') [(lit ''why'', lit '' there'')] @ think_open @ lit ''and''"
    by (simp add: think_open_def think_close_def lit_def)
  have f: "no_open (lit ''Hi '')" "list_all (\<lambda>(t, q). no_close t \<and> no_open q) [(lit ''why'', lit '' there'')]"
    "no_open (lit ''and'')" "no_close (lit ''and'')"
    by (simp_all add: no_open_def no_close_def includes_str_def starts_with_def think_open_def think_close_def lit_def)
  have t: "trim (lit ''and'') = lit ''and''" "trim (lit ''Hi  there'') = lit ''Hi  there''"
    by (simp_all add: trim_def trim_start_def trim_end_def is_ws_def ws_units_def lit_def)
  have s: "strip_tags (lit ''Hi '' @ lit '' there'') = lit ''Hi  there''"
    by (subst strip_tags_id) (simp_all add: lit_def)
  show ?thesis
    using think_tags_taken_apart [OF f(1, 2) _ f(3, 4), of "JStr []"] t s
    by (simp add: w join_reasoning_def or_else_def)
qed

end
