(* ===== verification/Playground_Request.thy ===== *)
theory Playground_Request
  imports Playground_Think Json_Facts Auth_Return
begin

text \<open>
  The requests of the playground page (\<^verbatim>\<open>hooks/playground/useApiRequest.jsx\<close>): the streamed request,
  the plain request and the stop button, with the message list, the debug panel and the reference to the
  open event source as they change them. A message is the property list of its object. Functions that
  the source hands to \<^verbatim>\<open>setMessage\<close> are updates of the list that may throw (\<open>None\<close>), which takes the page
  down (\<open>pg_crashed\<close>); the lists they schedule for saving are their second result. Texts that hold a
  time or an engine message (the error record of the debug panel, the message of an exception) come with
  the event that produces them. The event source is third-party code: any event may reach any source
  that was opened.
\<close>

section \<open>Messages\<close>

type_synonym msg = props

abbreviation fld :: "string \<Rightarrow> msg \<Rightarrow> jsv" where
  "fld k m \<equiv> obj_get (lit k) m"

definition st_loading :: jsv where "st_loading = JStr (lit ''loading'')"
definition st_incomplete :: jsv where "st_incomplete = JStr (lit ''incomplete'')"
definition st_complete :: jsv where "st_complete = JStr (lit ''complete'')"
definition st_error :: jsv where "st_error = JStr (lit ''error'')"

lemmas status_defs = st_loading_def st_incomplete_def st_complete_def st_error_def

definition generating :: "msg \<Rightarrow> bool" where
  "generating m \<longleftrightarrow> fld ''status'' m = st_loading \<or> fld ''status'' m = st_incomplete"

definition finished :: "msg \<Rightarrow> bool" where
  "finished m \<longleftrightarrow> fld ''status'' m = st_complete \<or> fld ''status'' m = st_error"

text \<open>\<^verbatim>\<open>a && b\<close>, \<^verbatim>\<open>!a\<close> and \<^verbatim>\<open>a + b\<close>.\<close>

definition and_then :: "jsv \<Rightarrow> jsv \<Rightarrow> jsv" where
  "and_then a b = (if truthy a then b else a)"

definition js_not :: "jsv \<Rightarrow> jsv" where
  "js_not a = JBool (\<not> truthy a)"

fun adds_text :: "jsv \<Rightarrow> bool" where
  "adds_text (JStr _) = True"
| "adds_text (JArr _) = True"
| "adds_text (JObj _) = True"
| "adds_text _ = False"

definition js_plus :: "jsv \<Rightarrow> jsv \<Rightarrow> jsv" where
  "js_plus a b = (if adds_text a \<or> adds_text b then JStr (js_string a @ js_string b)
     else JNum (num_add (js_number a) (js_number b)))"

text \<open>The number of matches of a mark, which cannot overlap itself: \<^verbatim>\<open>s.match(/p/g)?.length\<close>.\<close>

fun count_str :: "jstring \<Rightarrow> jstring \<Rightarrow> nat" where
  "count_str p [] = 0"
| "count_str p (c # s) = (if starts_with (c # s) p then 1 else 0) + count_str p s"

definition applyAutoCollapseLogic :: "msg \<Rightarrow> jsv \<Rightarrow> props" where
  "applyAutoCollapseLogic m isThinkingComplete =
     (let shouldAutoCollapse = and_then isThinkingComplete (js_not (fld ''hasAutoCollapsed'' m))
      in [(lit ''isThinkingComplete'', isThinkingComplete),
          (lit ''hasAutoCollapsed'', or_else shouldAutoCollapse (fld ''hasAutoCollapsed'' m)),
          (lit ''isReasoningExpanded'',
             if truthy shouldAutoCollapse then JBool False else fld ''isReasoningExpanded'' m)])"

section \<open>Updates of the message list\<close>

type_synonym update = "msg list \<Rightarrow> (msg list \<times> msg list list) option"

datatype chunk_kind = Reasoning | Content

definition stream_reasoning :: "jsv \<Rightarrow> msg \<Rightarrow> msg" where
  "stream_reasoning chunk m = obj_assign m
     [(lit ''reasoningContent'', js_plus (or_else (fld ''reasoningContent'' m) (JStr [])) chunk),
      (lit ''status'', st_incomplete), (lit ''isThinkingComplete'', JBool False)]"

text \<open>Whether the marks of the text so far are all closed; \<^verbatim>\<open>includes\<close> of a number throws.\<close>

definition think_closed :: "msg \<Rightarrow> jsv \<Rightarrow> bool option" where
  "think_closed m newContent =
     (if \<not> truthy (fld ''isReasoningExpanded'' m) then Some False
      else case newContent of
        JStr s \<Rightarrow> Some (includes_str s think_close \<and> 0 < count_str think_open s \<and>
                     count_str think_open s \<le> count_str think_close s)
      | _ \<Rightarrow> None)"

definition stream_content :: "jsv \<Rightarrow> msg \<Rightarrow> msg option" where
  "stream_content chunk m =
     (let newContent = js_plus (or_else (fld ''content'' m) (JStr [])) chunk
      in case think_closed m newContent of
           None \<Rightarrow> None
         | Some shut \<Rightarrow>
             let fromTags = (if shut then JBool True else fld ''isThinkingComplete'' m);
                 isThinkingComplete =
                   or_else (and_then (fld ''reasoningContent'' m) (js_not (fld ''isThinkingComplete'' m))) fromTags
             in Some (obj_assign m
                  ([(lit ''content'', newContent), (lit ''status'', st_incomplete)] @
                   applyAutoCollapseLogic m isThinkingComplete)))"

definition streamMessageUpdate :: "jsv \<Rightarrow> chunk_kind \<Rightarrow> update" where
  "streamMessageUpdate chunk k ms =
     (if ms = [] then Some (ms, [])
      else if fld ''role'' (last ms) \<noteq> JStr (lit ''assistant'') then Some (ms, [])
      else if fld ''status'' (last ms) = st_error then Some (ms, [])
      else if generating (last ms)
      then (case k of
             Reasoning \<Rightarrow> Some (butlast ms @ [stream_reasoning chunk (last ms)], [])
           | Content \<Rightarrow> map_option (\<lambda>m. (butlast ms @ [m], [])) (stream_content chunk (last ms)))
      else Some (ms, []))"

text \<open>\<^verbatim>\<open>lastMessage.status\<close> of an empty list throws.\<close>

definition completeMessage :: "jsv \<Rightarrow> update" where
  "completeMessage status ms =
     (if ms = [] then None
      else if finished (last ms) then Some (ms, [])
      else (let updated = butlast ms @
                  [obj_assign (last ms) ((lit ''status'', status) # applyAutoCollapseLogic (last ms) (JBool True))]
            in Some (updated, if status = st_complete \<or> status = st_error then [updated] else [])))"

text \<open>The updates of the plain request, of the error event of a stream and of the stop button.\<close>

definition update_loading :: "props \<Rightarrow> update" where
  "update_loading ps ms =
     (if ms \<noteq> [] \<and> fld ''status'' (last ms) = st_loading
      then Some (butlast ms @ [obj_assign (last ms) (ps @ applyAutoCollapseLogic (last ms) (JBool True))], [])
      else Some (ms, []))"

definition stream_failed :: "jsv \<Rightarrow> jsv \<Rightarrow> update" where
  "stream_failed errorMessage errorCode ms =
     (if ms \<noteq> [] \<and> \<not> finished (last ms)
      then Some (butlast ms @ [obj_assign (last ms)
             [(lit ''content'', js_plus (or_else (fld ''content'' (last ms)) (JStr [])) errorMessage),
              (lit ''errorCode'', errorCode), (lit ''status'', st_error)]], [])
      else Some (ms, []))"

definition stop_message :: update where
  "stop_message ms =
     (if ms = [] then Some (ms, [])
      else if generating (last ms)
      then (case processIncompleteThinkTags (or_else (fld ''content'' (last ms)) (JStr []))
                   (or_else (fld ''reasoningContent'' (last ms)) (JStr [])) of
             None \<Rightarrow> None
           | Some (content, reasoning) \<Rightarrow>
               let updated = butlast ms @ [obj_assign (last ms)
                     ([(lit ''status'', st_complete), (lit ''reasoningContent'', or_else reasoning JNull),
                       (lit ''content'', content)] @ applyAutoCollapseLogic (last ms) (JBool True))]
               in Some (updated, [updated]))
      else Some (ms, []))"

section \<open>The page\<close>

text \<open>The variables that the listeners of one event source share, and whether it was closed.\<close>

record sse =
  sse_data :: jstring
  sse_first :: bool
  sse_complete :: bool
  sse_closed :: bool

record debug =
  dbg_request :: jsv
  dbg_response :: jsv
  dbg_sse :: "jsv list option"
  dbg_streaming :: bool

record page =
  pg_messages :: "msg list"
  pg_local :: web_storage
  pg_source :: "nat option"
  pg_streams :: "sse list"
  pg_requests :: nat
  pg_debug :: debug
  pg_tab :: jstring
  pg_crashed :: bool

text \<open>
  What the page asks of its surroundings while it handles one event: the translation of a text, the
  clock as a number and as a text.
\<close>

record pg_env =
  env_t :: "jstring \<Rightarrow> jstring"
  env_now :: jsnum
  env_iso :: jstring

definition saveMessages :: "pg_env \<Rightarrow> jsv \<Rightarrow> web_storage \<Rightarrow> web_storage" where
  "saveMessages env messages local =
     (case setItem (lit ''playground_messages'')
             (json_stringify (JObj [(lit ''messages'', messages), (lit ''timestamp'', JStr (env_iso env))])) local of
        Some local' \<Rightarrow> local'
      | None \<Rightarrow> local)"

definition save_list :: "pg_env \<Rightarrow> msg list \<Rightarrow> web_storage \<Rightarrow> web_storage" where
  "save_list env ms = saveMessages env (JArr (map JObj ms))"

definition setMessage :: "pg_env \<Rightarrow> update \<Rightarrow> ('a page_scheme) \<Rightarrow> 'a page_scheme" where
  "setMessage env f st = (case f (pg_messages st) of
       None \<Rightarrow> st\<lparr>pg_crashed := True\<rparr>
     | Some (ms, saves) \<Rightarrow> st\<lparr>pg_messages := ms, pg_local := fold (save_list env) saves (pg_local st)\<rparr>)"

definition show_response :: "jsv \<Rightarrow> ('a page_scheme) \<Rightarrow> 'a page_scheme" where
  "show_response r st = st\<lparr>pg_debug := (pg_debug st)\<lparr>dbg_response := r\<rparr>, pg_tab := lit ''response''\<rparr>"

definition add_sse :: "jstring \<Rightarrow> debug \<Rightarrow> debug" where
  "add_sse data d = d\<lparr>dbg_sse := Some ((case dbg_sse d of Some xs \<Rightarrow> xs | None \<Rightarrow> []) @ [JStr data])\<rparr>"

definition close_source :: "nat \<Rightarrow> ('a page_scheme) \<Rightarrow> 'a page_scheme" where
  "close_source n st = st\<lparr>pg_streams := (pg_streams st)[n := (pg_streams st ! n)\<lparr>sse_closed := True\<rparr>]\<rparr>"

definition set_stream :: "nat \<Rightarrow> sse \<Rightarrow> ('a page_scheme) \<Rightarrow> 'a page_scheme" where
  "set_stream n s st = st\<lparr>pg_streams := (pg_streams st)[n := s]\<rparr>"

section \<open>Streamed requests\<close>

text \<open>The texts of the messages, as code units.\<close>

definition tx_parse_failed :: jstring where "tx_parse_failed = [35299, 26512, 21709, 24212, 25968, 25454, 26102, 21457, 29983, 38169, 35823]"
definition tx_parse_error :: jstring where "tx_parse_error = [35299, 26512, 38169, 35823, 58, 32]"
definition tx_request_failed :: jstring where "tx_request_failed = [35831, 27714, 21457, 29983, 38169, 35823]"
definition tx_disconnected :: jstring where "tx_disconnected = [36830, 25509, 24050, 26029, 24320]"
definition tx_connect_failed :: jstring where "tx_connect_failed = [24314, 31435, 36830, 25509, 26102, 21457, 29983, 38169, 35823]"
definition tx_start_failed :: jstring where "tx_start_failed = lit ''Stream'' @ [21551, 21160, 22833, 36133, 58] @ [10]"
definition tx_unreadable :: jstring where "tx_unreadable = [26080, 27861, 35835, 21462, 38169, 35823, 21709, 24212, 20307]"

text \<open>The listener of a message: the end mark, a chunk, and a chunk that cannot be read.\<close>

definition sse_done :: "pg_env \<Rightarrow> nat \<Rightarrow> ('a page_scheme) \<Rightarrow> 'a page_scheme" where
  "sse_done env n st =
     (let s = pg_streams st ! n;
          st = (close_source n (set_stream n (s\<lparr>sse_complete := True\<rparr>) st))\<lparr>pg_source := None\<rparr>;
          d = add_sse (lit ''[DONE]'') (pg_debug st)
      in setMessage env (completeMessage st_complete)
           (st\<lparr>pg_debug := d\<lparr>dbg_response := JStr (sse_data s), dbg_streaming := False\<rparr>\<rparr>))"

definition chunk_delta :: "jsv \<Rightarrow> jsv" where
  "chunk_delta payload = get_prop (lit ''delta'') (get_prop (lit ''0'') (get_prop (lit ''choices'') payload))"

definition stream_field :: "pg_env \<Rightarrow> string \<Rightarrow> chunk_kind \<Rightarrow> jsv \<Rightarrow> ('a page_scheme) \<Rightarrow> 'a page_scheme" where
  "stream_field env name k delta st =
     (let v = get_prop (lit name) delta
      in if truthy v then setMessage env (streamMessageUpdate v k) st else st)"

definition stream_delta :: "pg_env \<Rightarrow> jsv \<Rightarrow> ('a page_scheme) \<Rightarrow> 'a page_scheme" where
  "stream_delta env delta st =
     (if truthy delta
      then stream_field env ''content'' Content delta
             (stream_field env ''reasoning'' Reasoning delta
               (stream_field env ''reasoning_content'' Reasoning delta st))
      else st)"

definition sse_unreadable :: "pg_env \<Rightarrow> nat \<Rightarrow> jstring \<Rightarrow> jstring \<Rightarrow> ('a page_scheme) \<Rightarrow> 'a page_scheme" where
  "sse_unreadable env n data exn st =
     (let d = add_sse data (pg_debug st);
          r = sse_data (pg_streams st ! n) @ [10, 10] @ lit ''Error: '' @ tx_parse_error @ exn;
          st = st\<lparr>pg_debug := d\<lparr>dbg_response := JStr r, dbg_streaming := False\<rparr>, pg_tab := lit ''response''\<rparr>;
          st = setMessage env (streamMessageUpdate (JStr (env_t env tx_parse_failed)) Content) st
      in setMessage env (completeMessage st_error) st)"

text \<open>The text \<^verbatim>\<open>null\<close> parses, is recorded, and then throws at its property read.\<close>

definition sse_message :: "pg_env \<Rightarrow> nat \<Rightarrow> jstring \<Rightarrow> jstring \<Rightarrow> ('a page_scheme) \<Rightarrow> 'a page_scheme" where
  "sse_message env n data exn st =
     (if data = lit ''[DONE]'' then sse_done env n st
      else case json_parse data of
        None \<Rightarrow> sse_unreadable env n data exn st
      | Some payload \<Rightarrow>
          let s = pg_streams st ! n;
              tab = (if sse_first s then pg_tab st else lit ''response'');
              st = set_stream n (s\<lparr>sse_data := sse_data s @ data @ [10], sse_first := True\<rparr>) st;
              st = st\<lparr>pg_tab := tab, pg_debug := add_sse data (pg_debug st)\<rparr>
          in if payload = JNull then sse_unreadable env n data exn st
             else stream_delta env (chunk_delta payload) st)"

text \<open>The listener of an error.\<close>

definition error_of_text :: "jstring \<Rightarrow> jsv \<Rightarrow> jsv \<times> jsv" where
  "error_of_text data msg0 =
     (case (if data = [] then None else json_parse data) of
        Some v \<Rightarrow>
          let e = get_prop (lit ''error'') v
          in if truthy e then (or_else (get_prop (lit ''message'') e) msg0, or_else (get_prop (lit ''code'') e) JNull)
             else (msg0, JNull)
      | None \<Rightarrow> (msg0, JNull))"

definition sse_error :: "pg_env \<Rightarrow> nat \<Rightarrow> jstring \<Rightarrow> nat \<Rightarrow> jstring \<Rightarrow> ('a page_scheme) \<Rightarrow> 'a page_scheme" where
  "sse_error env n data readyState info st =
     (let s = pg_streams st ! n
      in if sse_complete s \<or> readyState = 2 then st
         else (let (msg0, code) = error_of_text data
                     (or_else (JStr data) (JStr (env_t env tx_request_failed)));
                   st = show_response (JStr (sse_data s @ [10, 10] @ lit ''SSE Error:'' @ [10] @ info)) st;
                   st = setMessage env (stream_failed msg0 code) st
               in close_source n (st\<lparr>pg_source := None\<rparr>)))"

text \<open>The listener of a change of the connection; the status is \<open>None\<close> where it is not known yet.\<close>

definition sse_state :: "pg_env \<Rightarrow> nat \<Rightarrow> nat \<Rightarrow> nat option \<Rightarrow> jstring \<Rightarrow> ('a page_scheme) \<Rightarrow> 'a page_scheme" where
  "sse_state env n readyState status info st =
     (let s = pg_streams st ! n
      in if 2 \<le> readyState \<and> status \<noteq> None \<and> status \<noteq> Some 200 \<and> \<not> sse_complete s
         then (let st = show_response (JStr (sse_data s @ [10, 10] @ lit ''HTTP Error:'' @ [10] @ info)) st;
                   st = setMessage env (streamMessageUpdate (JStr (env_t env tx_disconnected)) Content) (close_source n st)
               in setMessage env (completeMessage st_error) st)
         else st)"

text \<open>Opening a source; \<open>failed\<close> is the error record when \<^verbatim>\<open>source.stream()\<close> throws.\<close>

definition handleSSE :: "pg_env \<Rightarrow> jsv \<Rightarrow> jstring option \<Rightarrow> ('a page_scheme) \<Rightarrow> 'a page_scheme" where
  "handleSSE env payload failed st =
     (let st = st\<lparr>pg_debug := \<lparr>dbg_request = payload, dbg_response = JNull, dbg_sse = Some [], dbg_streaming = True\<rparr>,
                 pg_tab := lit ''request'',
                 pg_source := Some (length (pg_streams st)),
                 pg_streams := pg_streams st @ [\<lparr>sse_data = [], sse_first = False, sse_complete = False, sse_closed = False\<rparr>]\<rparr>
      in case failed of
           None \<Rightarrow> st
         | Some info \<Rightarrow>
             setMessage env (completeMessage st_error)
               (setMessage env (streamMessageUpdate (JStr (env_t env tx_connect_failed)) Content)
                 (show_response (JStr (tx_start_failed @ info)) st)))"

section \<open>Plain requests\<close>

definition handleNonStreamRequest :: "jsv \<Rightarrow> ('a page_scheme) \<Rightarrow> 'a page_scheme" where
  "handleNonStreamRequest payload st =
     st\<lparr>pg_debug := \<lparr>dbg_request = payload, dbg_response = JNull, dbg_sse = None, dbg_streaming = False\<rparr>,
        pg_tab := lit ''request'', pg_requests := pg_requests st + 1\<rparr>"

text \<open>
  How a plain request ends: an answer with its JSON value, a refused request with its status and the
  text of its body (\<open>None\<close> where the body cannot be read), or an exception of the browser.
\<close>

datatype pg_reply = Reply_json jsv | Reply_http nat "jstring option" | Reply_thrown jstring

definition http_message :: "nat \<Rightarrow> jstring \<Rightarrow> jstring" where
  "http_message status body = lit ''HTTP error! status: '' @ show_nat status @ lit '', body: '' @ body"

text \<open>The message and the code of the exception that a refused request throws.\<close>

definition http_exception :: "nat \<Rightarrow> jstring option \<Rightarrow> jstring \<times> jsv" where
  "http_exception status body =
     (let words = (case body of Some b \<Rightarrow> b | None \<Rightarrow> []);
          parsed = (case body of Some b \<Rightarrow> json_parse b | None \<Rightarrow> None);
          errorBody = (if parsed = None \<and> words = [] then tx_unreadable else words);
          e = (case parsed of Some v \<Rightarrow> get_prop (lit ''error'') v | None \<Rightarrow> JNull);
          parsedError = (if truthy e then e else JNull)
      in (js_string (or_else (get_prop (lit ''message'') parsedError) (JStr (http_message status errorBody))),
          or_else (get_prop (lit ''code'') parsedError) JNull))"

definition request_failed :: "pg_env \<Rightarrow> jstring \<Rightarrow> jstring \<times> jsv \<Rightarrow> ('a page_scheme) \<Rightarrow> 'a page_scheme" where
  "request_failed env info err st =
     setMessage env (update_loading
       [(lit ''content'', JStr (env_t env (tx_request_failed @ lit '': '') @ fst err)),
        (lit ''errorCode'', or_else (snd err) JNull), (lit ''status'', st_error)])
       (show_response (JStr info) st)"

text \<open>
  The rest of the request once it ends. \<open>exn\<close> is the engine's message when reading the answer throws
  (an answer \<^verbatim>\<open>null\<close>, or a content that is no text), \<open>info\<close> the error record of the debug panel.
\<close>

definition request_reply :: "pg_env \<Rightarrow> jstring \<Rightarrow> jstring \<Rightarrow> pg_reply \<Rightarrow> ('a page_scheme) \<Rightarrow> 'a page_scheme" where
  "request_reply env exn info r st =
     (case r of
        Reply_thrown m \<Rightarrow> request_failed env info (m, JNull) st
      | Reply_http status body \<Rightarrow> request_failed env info (http_exception status body) st
      | Reply_json data \<Rightarrow>
          let st = show_response (JStr (json_stringify2 data)) st;
              choice = get_prop (lit ''0'') (get_prop (lit ''choices'') data);
              message = get_prop (lit ''message'') choice
          in if data = JNull then request_failed env info (exn, JNull) st
             else if \<not> truthy choice then st
             else (case processThinkTags (or_else (get_prop (lit ''content'') message) (JStr []))
                          (or_else (or_else (get_prop (lit ''reasoning_content'') message)
                                      (get_prop (lit ''reasoning'') message)) (JStr [])) of
                     None \<Rightarrow> request_failed env info (exn, JNull) st
                   | Some (content, reasoning) \<Rightarrow>
                       setMessage env (update_loading
                         [(lit ''content'', content), (lit ''reasoningContent'', reasoning), (lit ''status'', st_complete)]) st))"

definition sendRequest :: "pg_env \<Rightarrow> jsv \<Rightarrow> jsv \<Rightarrow> jstring option \<Rightarrow> ('a page_scheme) \<Rightarrow> 'a page_scheme" where
  "sendRequest env payload isStream failed st =
     (if truthy isStream then handleSSE env payload failed st else handleNonStreamRequest payload st)"

definition onStopGenerator :: "pg_env \<Rightarrow> ('a page_scheme) \<Rightarrow> 'a page_scheme" where
  "onStopGenerator env st =
     setMessage env stop_message
       (case pg_source st of
          Some n \<Rightarrow> (close_source n st)\<lparr>pg_source := None\<rparr>
        | None \<Rightarrow> st)"

section \<open>Events of the requests\<close>

datatype net_event =
    Sse_message nat jstring jstring
  | Sse_error nat jstring nat jstring
  | Sse_state nat nat "nat option" jstring
  | Replied jstring jstring pg_reply
  | Stop

text \<open>Events of sources that were never opened, and replies to no request, do not occur.\<close>

fun net_step :: "pg_env \<times> net_event \<Rightarrow> ('a page_scheme) \<Rightarrow> 'a page_scheme" where
  "net_step (env, Sse_message n data exn) st =
     (if n < length (pg_streams st) then sse_message env n data exn st else st)"
| "net_step (env, Sse_error n data readyState info) st =
     (if n < length (pg_streams st) then sse_error env n data readyState info st else st)"
| "net_step (env, Sse_state n readyState status info) st =
     (if n < length (pg_streams st) then sse_state env n readyState status info st else st)"
| "net_step (env, Replied exn info r) st =
     (if 0 < pg_requests st then request_reply env exn info r (st\<lparr>pg_requests := pg_requests st - 1\<rparr>) else st)"
| "net_step (env, Stop) st = onStopGenerator env st"

end
