(* ===== verification/Playground_Request_Facts.thy ===== *)
theory Playground_Request_Facts
  imports Playground_Request
begin

text \<open>
  What the requests of the playground do to the message list: whatever the network delivers, only the
  last message changes and a finished one never does; the chunks of a stream add up to the answer.
\<close>

section \<open>Reading a rebuilt message\<close>

lemma obj_get_assign:
  "obj_get k (obj_assign ps qs) = (case map_of (rev qs) k of Some v \<Rightarrow> v | None \<Rightarrow> obj_get k ps)"
  by (simp add: obj_get_def map_of_obj_assign map_add_def split: option.split)

lemma status_neq [simp]:
  "st_loading \<noteq> st_incomplete" "st_loading \<noteq> st_complete" "st_loading \<noteq> st_error"
  "st_incomplete \<noteq> st_loading" "st_incomplete \<noteq> st_complete" "st_incomplete \<noteq> st_error"
  "st_complete \<noteq> st_loading" "st_complete \<noteq> st_incomplete" "st_complete \<noteq> st_error"
  "st_error \<noteq> st_loading" "st_error \<noteq> st_incomplete" "st_error \<noteq> st_complete"
  by (simp_all add: status_defs)

lemma generating_not_finished: "generating m \<Longrightarrow> \<not> finished m"
  by (auto simp: generating_def finished_def)

lemmas message_get = obj_get_assign applyAutoCollapseLogic_def Let_def stream_reasoning_def

section \<open>Only the last message changes\<close>

text \<open>
  How a list may develop under the events of the requests: same length, same messages before the last,
  the last one the same message in the same role, and untouched once it is finished.
\<close>

definition same_message :: "msg \<Rightarrow> msg \<Rightarrow> bool" where
  "same_message m m' \<longleftrightarrow> fld ''id'' m' = fld ''id'' m \<and> fld ''role'' m' = fld ''role'' m \<and>
     fld ''createAt'' m' = fld ''createAt'' m"

definition develops :: "msg list \<Rightarrow> msg list \<Rightarrow> bool" where
  "develops ms ms' \<longleftrightarrow> ms' = ms \<or>
     (ms \<noteq> [] \<and> \<not> finished (last ms) \<and> (\<exists>m. ms' = butlast ms @ [m] \<and> same_message (last ms) m))"

lemma develops_refl [simp]: "develops ms ms"
  by (simp add: develops_def)

lemma develops_trans: "develops a b \<Longrightarrow> develops b c \<Longrightarrow> develops a c"
  by (auto simp: develops_def same_message_def)

definition tame :: "update \<Rightarrow> bool" where
  "tame f \<longleftrightarrow> (\<forall>ms ms' saves. f ms = Some (ms', saves) \<longrightarrow> develops ms ms' \<and> set saves \<subseteq> {ms'})"

lemma tameI: "(\<And>ms ms' saves. f ms = Some (ms', saves) \<Longrightarrow> develops ms ms' \<and> set saves \<subseteq> {ms'}) \<Longrightarrow> tame f"
  by (simp add: tame_def)

lemma develops_last:
  "ms \<noteq> [] \<Longrightarrow> \<not> finished (last ms) \<Longrightarrow> same_message (last ms) m \<Longrightarrow> develops ms (butlast ms @ [m])"
  by (auto simp: develops_def)

lemma same_reasoning: "same_message m (stream_reasoning chunk m)"
  by (simp add: same_message_def message_get)

lemma same_content: "stream_content chunk m = Some m' \<Longrightarrow> same_message m m'"
  by (auto simp: same_message_def stream_content_def Let_def message_get split: option.splits)

lemma tame_stream: "tame (streamMessageUpdate chunk k)"
proof (rule tameI)
  fix ms ms' saves
  assume "streamMessageUpdate chunk k ms = Some (ms', saves)"
  then show "develops ms ms' \<and> set saves \<subseteq> {ms'}"
    by (auto simp: streamMessageUpdate_def split: if_splits chunk_kind.splits
        intro!: develops_last same_reasoning same_content dest: generating_not_finished)
qed

lemma tame_complete: "tame (completeMessage status)"
  by (rule tameI)
    (auto simp: completeMessage_def Let_def same_message_def message_get split: if_splits intro!: develops_last)

lemma tame_stream_failed: "tame (stream_failed e code)"
  by (rule tameI)
    (auto simp: stream_failed_def same_message_def message_get split: if_splits intro!: develops_last)

lemma tame_stop: "tame stop_message"
  by (rule tameI)
    (auto simp: stop_message_def Let_def same_message_def message_get split: if_splits option.splits prod.splits
      intro!: develops_last dest: generating_not_finished)

lemma tame_loading:
  assumes "fst ` set ps \<subseteq> {lit ''content'', lit ''reasoningContent'', lit ''errorCode'', lit ''status''}"
  shows "tame (update_loading ps)"
proof -
  have n: "map_of (rev ps) k = None"
    if "k \<notin> {lit ''content'', lit ''reasoningContent'', lit ''errorCode'', lit ''status''}" for k
    using that assms by (auto simp: map_of_eq_None_iff)
  have "same_message m (obj_assign m (ps @ applyAutoCollapseLogic m v))" for m v
    by (simp add: same_message_def message_get map_add_def n)
  then show ?thesis
    by (intro tameI) (auto simp: update_loading_def finished_def split: if_splits intro!: develops_last)
qed

lemmas tame_updates = tame_stream tame_complete tame_stream_failed tame_stop tame_loading

section \<open>Events\<close>

lemma setMessage_develops:
  "tame f \<Longrightarrow> develops ms (pg_messages st) \<Longrightarrow> develops ms (pg_messages (setMessage env f st))"
  by (auto simp: setMessage_def tame_def split: option.splits intro: develops_trans)

lemma pg_messages_frame [simp]:
  "pg_messages (show_response r st) = pg_messages st"
  "pg_messages (close_source n st) = pg_messages st"
  "pg_messages (set_stream n s st) = pg_messages st"
  by (simp_all add: show_response_def close_source_def set_stream_def)

lemma net_step_develops:
  assumes "develops ms (pg_messages st)"
  shows "develops ms (pg_messages (net_step e st))"
proof -
  note defs = sse_message_def sse_done_def sse_unreadable_def sse_error_def sse_state_def request_reply_def
    request_failed_def onStopGenerator_def stream_delta_def stream_field_def
  show ?thesis
    using assms
    by (cases "(e, st)" rule: net_step.cases)
      (auto simp: defs Let_def split: option.splits prod.splits pg_reply.splits
        intro!: setMessage_develops tame_updates)
qed

interpretation net_machine: state_machine net_step "\<lambda>st. develops ms (pg_messages st)" for ms
  by unfold_locales (rule net_step_develops)

section \<open>A stream adds up\<close>

text \<open>
  A message that is being generated with the text \<open>c\<close> and the reasoning \<open>r\<close>; the chunks that the
  interface documents (an object whose fields are texts or absent) and the text in each.
\<close>

definition holds_text :: "jstring \<Rightarrow> jstring \<Rightarrow> msg \<Rightarrow> bool" where
  "holds_text c r m \<longleftrightarrow> fld ''role'' m = JStr (lit ''assistant'') \<and> generating m \<and>
     fld ''content'' m = JStr c \<and> fld ''reasoningContent'' m = JStr r"

fun plain_text :: "jsv \<Rightarrow> jstring" where
  "plain_text (JStr s) = s"
| "plain_text _ = []"

definition plain_field :: "jsv \<Rightarrow> bool" where
  "plain_field v \<longleftrightarrow> truthy v \<longrightarrow> v = JStr (plain_text v)"

definition chunk_field :: "string \<Rightarrow> jsv \<Rightarrow> jsv" where
  "chunk_field name payload = get_prop (lit name) (chunk_delta payload)"

definition good_chunk :: "jstring \<Rightarrow> bool" where
  "good_chunk d \<longleftrightarrow> d \<noteq> lit ''[DONE]'' \<and> (case json_parse d of
       None \<Rightarrow> False
     | Some v \<Rightarrow> v \<noteq> JNull \<and> plain_field (chunk_field ''content'' v) \<and>
         plain_field (chunk_field ''reasoning_content'' v) \<and> plain_field (chunk_field ''reasoning'' v))"

definition chunk_text :: "string list \<Rightarrow> jstring \<Rightarrow> jstring" where
  "chunk_text names d = (case json_parse d of
       None \<Rightarrow> []
     | Some v \<Rightarrow> concat (map (\<lambda>name. plain_text (chunk_field name v)) names))"

text \<open>The state of the page apart from its debug panel, with the last message holding two texts.\<close>

definition streaming :: "msg list \<Rightarrow> msg \<Rightarrow> jstring \<Rightarrow> jstring \<Rightarrow> web_storage \<Rightarrow> bool \<Rightarrow> nat \<Rightarrow> 'a page_scheme \<Rightarrow> bool" where
  "streaming ms m0 c r local crashed n st \<longleftrightarrow>
     (\<exists>m. pg_messages st = ms @ [m] \<and> holds_text c r m \<and> same_message m0 m) \<and>
     pg_local st = local \<and> pg_crashed st = crashed \<and> n < length (pg_streams st)"

lemma or_else_text [simp]: "or_else (JStr s) (JStr []) = JStr s"
  by (simp add: or_else_def)

lemma js_plus_text [simp]: "js_plus (JStr a) (JStr b) = JStr (a @ b)"
  by (simp add: js_plus_def)

lemma same_message_trans: "same_message a b \<Longrightarrow> same_message b c \<Longrightarrow> same_message a c"
  by (simp add: same_message_def)

lemma holds_reasoning: "holds_text c r m \<Longrightarrow> holds_text c (r @ s) (stream_reasoning (JStr s) m)"
  by (simp add: holds_text_def message_get generating_def)

lemma holds_content:
  assumes "holds_text c r m"
  shows "\<exists>m'. stream_content (JStr s) m = Some m' \<and> holds_text (c @ s) r m'"
proof -
  have "think_closed m (JStr (c @ s)) \<noteq> None" by (simp add: think_closed_def del: not_None_eq)
  then obtain shut where "think_closed m (JStr (c @ s)) = Some shut" by blast
  then show ?thesis using assms by (simp add: stream_content_def holds_text_def message_get generating_def)
qed

lemma streaming_frame [simp]:
  "streaming ms m0 c r local crashed n (set_stream k s st) = streaming ms m0 c r local crashed n st"
  "streaming ms m0 c r local crashed n (st\<lparr>pg_tab := t, pg_debug := d\<rparr>) = streaming ms m0 c r local crashed n st"
  by (simp_all add: streaming_def set_stream_def)

lemma streaming_chunk:
  assumes "streaming ms m0 c r local crashed n st"
  shows "streaming ms m0 c (r @ s) local crashed n (setMessage env (streamMessageUpdate (JStr s) Reasoning) st)"
    and "streaming ms m0 (c @ s) r local crashed n (setMessage env (streamMessageUpdate (JStr s) Content) st)"
proof -
  obtain m where m: "pg_messages st = ms @ [m]" "holds_text c r m" "same_message m0 m"
    using assms by (auto simp: streaming_def)
  have g: "fld ''status'' m \<noteq> st_error" "generating m" "fld ''role'' m = JStr (lit ''assistant'')"
    using m(2) by (auto simp: holds_text_def generating_def)
  obtain m' where m': "stream_content (JStr s) m = Some m'" "holds_text (c @ s) r m'"
    using holds_content [OF m(2)] by blast
  show "streaming ms m0 c (r @ s) local crashed n (setMessage env (streamMessageUpdate (JStr s) Reasoning) st)"
    using assms m g holds_reasoning [OF m(2)] same_message_trans [OF m(3) same_reasoning]
    by (simp add: streaming_def setMessage_def streamMessageUpdate_def)
  show "streaming ms m0 (c @ s) r local crashed n (setMessage env (streamMessageUpdate (JStr s) Content) st)"
    using assms m g m' same_message_trans [OF m(3) same_content]
    by (simp add: streaming_def setMessage_def streamMessageUpdate_def)
qed

lemma streaming_field:
  assumes "streaming ms m0 c r local crashed n st" "plain_field (get_prop (lit name) delta)"
  shows "streaming ms m0 c (r @ plain_text (get_prop (lit name) delta)) local crashed n (stream_field env name Reasoning delta st)"
    and "streaming ms m0 (c @ plain_text (get_prop (lit name) delta)) r local crashed n (stream_field env name Content delta st)"
proof -
  let ?v = "get_prop (lit name) delta"
  consider "\<not> truthy ?v" "plain_text ?v = []" | s where "?v = JStr s" "s \<noteq> []"
    using assms(2) by (cases ?v) (auto simp: plain_field_def)
  then have "streaming ms m0 c (r @ plain_text ?v) local crashed n (stream_field env name Reasoning delta st) \<and>
      streaming ms m0 (c @ plain_text ?v) r local crashed n (stream_field env name Content delta st)"
  proof cases
    case 1
    then show ?thesis using assms(1) by (simp add: stream_field_def)
  next
    case 2
    then show ?thesis using streaming_chunk [OF assms(1)] by (simp add: stream_field_def)
  qed
  then show "streaming ms m0 c (r @ plain_text ?v) local crashed n (stream_field env name Reasoning delta st)"
    "streaming ms m0 (c @ plain_text ?v) r local crashed n (stream_field env name Content delta st)" by blast+
qed

lemma get_prop_falsy: "\<not> truthy v \<Longrightarrow> plain_text (get_prop (lit name) v) = []"
  by (cases v) (auto split: option.split)

lemma streaming_delta:
  assumes "streaming ms m0 c r local crashed n st" "plain_field (get_prop (lit ''content'') d)"
    "plain_field (get_prop (lit ''reasoning_content'') d)" "plain_field (get_prop (lit ''reasoning'') d)"
  shows "streaming ms m0 (c @ plain_text (get_prop (lit ''content'') d))
     (r @ plain_text (get_prop (lit ''reasoning_content'') d) @ plain_text (get_prop (lit ''reasoning'') d))
     local crashed n (stream_delta env d st)"
proof (cases "truthy d")
  case True
  show ?thesis
    using streaming_field(2) [OF streaming_field(1) [OF streaming_field(1) [OF assms(1, 3)] assms(4)] assms(2), of env env env]
      True by (simp add: stream_delta_def)
next
  case False
  then show ?thesis using assms(1) by (simp add: stream_delta_def get_prop_falsy)
qed

lemma streaming_message:
  assumes "streaming ms m0 c r local crashed n st" "good_chunk d"
  shows "streaming ms m0 (c @ chunk_text [''content''] d) (r @ chunk_text [''reasoning_content'', ''reasoning''] d)
     local crashed n (net_step (env, Sse_message n d exn) st)"
proof -
  obtain v where v: "json_parse d = Some v" "v \<noteq> JNull" "d \<noteq> lit ''[DONE]''" "plain_field (chunk_field ''content'' v)"
    "plain_field (chunk_field ''reasoning_content'' v)" "plain_field (chunk_field ''reasoning'' v)"
    using assms(2) by (auto simp: good_chunk_def split: option.splits)
  have n: "n < length (pg_streams st)" using assms(1) by (simp add: streaming_def)
  show ?thesis
    using v n assms(1) by (auto simp: sse_message_def Let_def chunk_text_def chunk_field_def intro!: streaming_delta)
qed

lemma streaming_messages:
  assumes "streaming ms m0 c r local crashed n st" "list_all (\<lambda>(env, d, exn). good_chunk d) es"
  shows "streaming ms m0 (c @ concat (map (\<lambda>(env, d, exn). chunk_text [''content''] d) es))
     (r @ concat (map (\<lambda>(env, d, exn). chunk_text [''reasoning_content'', ''reasoning''] d) es))
     local crashed n (fold net_step (map (\<lambda>(env, d, exn). (env, Sse_message n d exn)) es) st)"
  using assms
proof (induction es arbitrary: c r st)
  case (Cons e es)
  obtain env d exn where e: "e = (env, d, exn)" by (cases e)
  show ?case using Cons.IH [OF streaming_message [OF Cons.prems(1)]] Cons.prems(2) by (simp add: e)
qed simp

text \<open>The end mark completes the message, saves the list and lets go of the source.\<close>

lemma streaming_done:
  assumes "streaming ms m0 c r local crashed n st"
  shows "\<exists>m. let st' = net_step (env, Sse_message n (lit ''[DONE]'') exn) st
     in pg_messages st' = ms @ [m] \<and> same_message m0 m \<and> fld ''content'' m = JStr c \<and>
        fld ''reasoningContent'' m = JStr r \<and> fld ''status'' m = st_complete \<and>
        pg_local st' = save_list env (ms @ [m]) local \<and> pg_source st' = None \<and> pg_crashed st' = crashed"
proof -
  obtain m where m: "pg_messages st = ms @ [m]" "holds_text c r m" "same_message m0 m"
    and o: "pg_local st = local" "pg_crashed st = crashed" "n < length (pg_streams st)"
    using assms by (auto simp: streaming_def)
  let ?m = "obj_assign m ((lit ''status'', st_complete) # applyAutoCollapseLogic m (JBool True))"
  have "completeMessage st_complete (ms @ [m]) = Some (ms @ [?m], [ms @ [?m]])"
    using m(2) generating_not_finished by (simp add: completeMessage_def holds_text_def Let_def)
  moreover have "same_message m0 ?m" "fld ''content'' ?m = JStr c" "fld ''reasoningContent'' ?m = JStr r"
    "fld ''status'' ?m = st_complete"
    using m(2,3) by (simp_all add: same_message_def holds_text_def message_get)
  ultimately show ?thesis using m(1) o
    by (intro exI [of _ ?m]) (simp add: sse_message_def sse_done_def Let_def setMessage_def close_source_def set_stream_def)
qed

end
