(* ===== verification/Playground_Page.thy ===== *)
theory Playground_Page
  imports Playground_Request_Facts
begin

text \<open>
  The playground page around its requests: messages and request bodies (\<^verbatim>\<open>helpers/utils.jsx\<close>,
  \<^verbatim>\<open>helpers/api.js\<close>), sending (\<^verbatim>\<open>pages/Playground/index.jsx\<close>), the actions on a message
  (\<^verbatim>\<open>useMessageActions.jsx\<close>, \<^verbatim>\<open>useMessageEdit.jsx\<close>), the settings and the first render
  (\<^verbatim>\<open>usePlaygroundState.js\<close>, \<^verbatim>\<open>configStorage.js\<close>). A timer that the source starts waits in \<open>ch_timers\<close>
  until the event \<open>Fire\<close> runs it. A handler receives the message object it was rendered with; \<open>ref\<close> is the
  position of that very object in the list, \<open>None\<close> when the list holds another object by now. The switch to
  request bodies written by hand is a setting of the page; the effects that copy messages into such a
  body and back are not modelled, nor is the preview of the request.
\<close>

section \<open>Messages and request bodies\<close>

text \<open>\<^verbatim>\<open>content.find((item) => item.type === 'text')\<close>, which throws at an element without properties.\<close>

fun find_text :: "jsv list \<Rightarrow> jsv option" where
  "find_text [] = Some JUndef"
| "find_text (v # vs) =
     (if v = JUndef \<or> v = JNull then None
      else if get_prop (lit ''type'') v = JStr (lit ''text'') then Some v else find_text vs)"

definition getTextContent :: "msg \<Rightarrow> jsv option" where
  "getTextContent m =
     (if \<not> truthy (fld ''content'' m) then Some (JStr [])
      else case fld ''content'' m of
        JArr vs \<Rightarrow> map_option (\<lambda>v. or_else (get_prop (lit ''text'') v) (JStr [])) (find_text vs)
      | JStr s \<Rightarrow> Some (JStr s)
      | _ \<Rightarrow> Some (JStr []))"

definition buildMessageContent :: "jsv \<Rightarrow> jstring list \<Rightarrow> jsv \<Rightarrow> jsv" where
  "buildMessageContent words urls enabled =
     (if \<not> truthy words \<and> urls = [] then JStr []
      else (let valid = filter (\<lambda>u. u \<noteq> [] \<and> trim u \<noteq> []) urls
            in if truthy enabled \<and> valid \<noteq> []
               then JArr (JObj [(lit ''type'', JStr (lit ''text'')), (lit ''text'', or_else words (JStr []))] #
                      map (\<lambda>u. JObj [(lit ''type'', JStr (lit ''image_url'')),
                                     (lit ''image_url'', JObj [(lit ''url'', JStr (trim u))])]) valid)
               else or_else words (JStr [])))"

text \<open>\<open>n\<close> is the value of the module's counter, which \<^verbatim>\<open>generateMessageId\<close> then increments.\<close>

definition createMessage :: "pg_env \<Rightarrow> nat \<Rightarrow> string \<Rightarrow> jsv \<Rightarrow> props \<Rightarrow> msg" where
  "createMessage env n role content options =
     obj_assign [(lit ''role'', JStr (lit role)), (lit ''content'', content),
                 (lit ''createAt'', JNum (env_now env)), (lit ''id'', JStr (show_nat n))] options"

definition createLoadingAssistantMessage :: "pg_env \<Rightarrow> nat \<Rightarrow> msg" where
  "createLoadingAssistantMessage env n = createMessage env n ''assistant'' (JStr [])
     [(lit ''reasoningContent'', JStr []), (lit ''isReasoningExpanded'', JBool True),
      (lit ''isThinkingComplete'', JBool False), (lit ''hasAutoCollapsed'', JBool False), (lit ''status'', st_loading)]"

definition isValidMessage :: "msg \<Rightarrow> bool" where
  "isValidMessage m \<longleftrightarrow> truthy (fld ''role'' m) \<and> (truthy (fld ''content'' m) \<or> fld ''content'' m = JStr [])"

definition formatMessageForAPI :: "msg \<Rightarrow> jsv" where
  "formatMessageForAPI m = JObj [(lit ''role'', fld ''role'' m), (lit ''content'', fld ''content'' m)]"

definition add_parameter :: "props \<Rightarrow> props \<Rightarrow> string \<Rightarrow> props \<Rightarrow> props" where
  "add_parameter inputs enabled name payload =
     (let v = obj_get (lit name) inputs
      in if \<not> truthy (obj_get (lit name) enabled) then payload
         else if name = ''max_tokens''
         then (if type_of v = lit ''number'' then obj_set (lit name) v payload else payload)
         else if v \<noteq> JUndef \<and> v \<noteq> JNull then obj_set (lit name) v payload else payload)"

text \<open>\<open>system\<close> is the system prompt, \<open>None\<close> for \<^verbatim>\<open>null\<close> as every caller passes it.\<close>

definition buildApiPayload :: "msg list \<Rightarrow> jstring option \<Rightarrow> props \<Rightarrow> props \<Rightarrow> jsv" where
  "buildApiPayload ms system inputs enabled =
     (let processed = map formatMessageForAPI (filter isValidMessage ms);
          processed = (case system of
              Some s \<Rightarrow> if trim s \<noteq> []
                then JObj [(lit ''role'', JStr (lit ''system'')), (lit ''content'', JStr (trim s))] # processed
                else processed
            | None \<Rightarrow> processed)
      in JObj (fold (add_parameter inputs enabled)
           [''temperature'', ''top_p'', ''max_tokens'', ''frequency_penalty'', ''presence_penalty'', ''seed'']
           [(lit ''model'', obj_get (lit ''model'') inputs), (lit ''group'', obj_get (lit ''group'') inputs),
            (lit ''messages'', JArr processed), (lit ''stream'', obj_get (lit ''stream'') inputs)]))"

section \<open>The page\<close>

text \<open>The settings, which a handler sees as they were when it was rendered.\<close>

record settings =
  cfg_inputs :: props
  cfg_enabled :: props
  cfg_showDebug :: jsv
  cfg_customMode :: jsv
  cfg_customBody :: jsv

datatype timer =
    Disable_images
  | Send_again settings jsv
  | Regenerate jsv jsv
  | Show_defaults

datatype notice =
    Json_parse_error | Reply_deleted | Message_deleted | Role_switched jstring | Message_updated

text \<open>The question after an edit: the edited list, the position, the settings the handler saw.\<close>

record question =
  q_updated :: "msg list"
  q_index :: nat
  q_settings :: settings

record chat = page +
  ch_counter :: nat
  ch_settings :: settings
  ch_timers :: "timer list"
  ch_editId :: jsv
  ch_editRef :: "msg option"
  ch_editValue :: jsv
  ch_questions :: "question list"
  ch_notices :: "notice list"
  ch_hadMessages :: bool
  ch_imports :: "jsv list"

definition notify :: "notice \<Rightarrow> chat \<Rightarrow> chat" where
  "notify n st = st\<lparr>ch_notices := ch_notices st @ [n]\<rparr>"

definition start_timer :: "timer \<Rightarrow> chat \<Rightarrow> chat" where
  "start_timer t st = st\<lparr>ch_timers := ch_timers st @ [t]\<rparr>"

definition crash :: "chat \<Rightarrow> chat" where
  "crash st = st\<lparr>pg_crashed := True\<rparr>"

text \<open>\<^verbatim>\<open>inputs.imageUrls.filter((url) => url.trim() !== '')\<close>, which throws unless the value is an array of texts.\<close>

definition valid_urls :: "jsv \<Rightarrow> jstring list option" where
  "valid_urls v = (case v of
       JArr vs \<Rightarrow> if list_all (\<lambda>u. type_of u = lit ''string'') vs
                 then Some (filter (\<lambda>u. trim u \<noteq> []) (map js_string vs)) else None
     | _ \<Rightarrow> None)"

text \<open>
  Sending. The two or three messages that the handler creates take two or three numbers of the counter,
  also when the handler gives up; the loading message is made before the message with images.
\<close>

definition send_custom :: "pg_env \<Rightarrow> jsv \<Rightarrow> jstring option \<Rightarrow> msg \<Rightarrow> msg \<Rightarrow> chat \<Rightarrow> chat" where
  "send_custom env body failed user loading st =
     (case json_parse (js_string body) of
        None \<Rightarrow> notify Json_parse_error st
      | Some payload \<Rightarrow>
          if payload = JNull then crash st
          else sendRequest env payload (JBool (get_prop (lit ''stream'') payload \<noteq> JBool False)) failed
                 (setMessage env (\<lambda>ms. Some (ms @ [user, loading], [ms @ [user, loading]])) st))"

definition onMessageSend :: "pg_env \<Rightarrow> settings \<Rightarrow> jsv \<Rightarrow> jstring option \<Rightarrow> chat \<Rightarrow> chat" where
  "onMessageSend env cfg content failed st0 =
     (let n = ch_counter st0;
          userMessage = createMessage env n ''user'' content [];
          loading = createLoadingAssistantMessage env (n + 1);
          st = st0\<lparr>ch_counter := n + 2\<rparr>;
          inputs = cfg_inputs cfg
      in if truthy (cfg_customMode cfg) \<and> truthy (cfg_customBody cfg)
         then send_custom env (cfg_customBody cfg) failed userMessage loading st
         else case valid_urls (obj_get (lit ''imageUrls'') inputs) of
           None \<Rightarrow> st
         | Some urls \<Rightarrow>
             let images = obj_get (lit ''imageEnabled'') inputs;
                 user = createMessage env (n + 2) ''user'' (buildMessageContent content urls images) [];
                 payload = buildApiPayload (pg_messages st @ [user]) None inputs (cfg_enabled cfg);
                 st = setMessage env (\<lambda>ms. Some (ms @ [user, loading], [ms @ [user, loading]])) (st\<lparr>ch_counter := n + 3\<rparr>);
                 st = (if truthy images then start_timer Disable_images st else st)
             in sendRequest env payload (obj_get (lit ''stream'') inputs) failed st)"

section \<open>Actions on a message\<close>

definition locate :: "nat option \<Rightarrow> jsv \<Rightarrow> msg list \<Rightarrow> nat option" where
  "locate ref mid ms = (case ref of Some i \<Rightarrow> Some i | None \<Rightarrow> find_index (\<lambda>m. fld ''id'' m = mid) ms)"

definition has_role :: "string \<Rightarrow> msg \<Rightarrow> bool" where
  "has_role r m \<longleftrightarrow> fld ''role'' m = JStr (lit r)"

text \<open>The nearest position of a user's message before \<open>i\<close>.\<close>

fun user_before :: "msg list \<Rightarrow> nat \<Rightarrow> nat option" where
  "user_before ms 0 = None"
| "user_before ms (Suc i) = (if has_role ''user'' (ms ! i) then Some i else user_before ms i)"

definition resend :: "nat \<Rightarrow> msg \<Rightarrow> chat \<Rightarrow> chat" where
  "resend i m st = (case getTextContent m of
       None \<Rightarrow> crash st
     | Some words \<Rightarrow> start_timer (Send_again (ch_settings st) words) (st\<lparr>pg_messages := take i (pg_messages st)\<rparr>))"

definition handleMessageReset :: "nat option \<Rightarrow> msg \<Rightarrow> chat \<Rightarrow> chat" where
  "handleMessageReset ref target st =
     (let ms = pg_messages st
      in case locate ref (fld ''id'' target) ms of
           None \<Rightarrow> st
         | Some i \<Rightarrow>
             if has_role ''user'' target then resend i target st
             else if has_role ''assistant'' target \<or> has_role ''system'' target
             then (case user_before ms i of None \<Rightarrow> st | Some u \<Rightarrow> resend u (ms ! u) st)
             else st)"

definition without_id :: "jsv \<Rightarrow> msg list \<Rightarrow> msg list" where
  "without_id mid ms = filter (\<lambda>m. fld ''id'' m \<noteq> mid) ms"

text \<open>The confirmed deletion.\<close>

definition handleMessageDelete :: "pg_env \<Rightarrow> nat option \<Rightarrow> msg \<Rightarrow> chat \<Rightarrow> chat" where
  "handleMessageDelete env ref target st =
     (let ms = pg_messages st
      in case locate ref (fld ''id'' target) ms of
           None \<Rightarrow> st
         | Some i \<Rightarrow>
             let reply = has_role ''user'' target \<and> i < length ms - 1 \<and> has_role ''assistant'' (ms ! (i + 1));
                 updated = (if reply then take i ms @ drop (i + 2) ms else without_id (fld ''id'' target) ms)
             in notify (if reply then Reply_deleted else Message_deleted)
                  (setMessage env (\<lambda>_. Some (updated, [updated])) st))"

definition handleRoleToggle :: "pg_env \<Rightarrow> msg \<Rightarrow> chat \<Rightarrow> chat" where
  "handleRoleToggle env target st =
     (if \<not> (has_role ''assistant'' target \<or> has_role ''system'' target) then st
      else (let newRole = (if has_role ''assistant'' target then lit ''system'' else lit ''assistant'');
                updated = map (\<lambda>m. if fld ''id'' m = fld ''id'' target \<and> (has_role ''assistant'' m \<or> has_role ''system'' m)
                                   then obj_set (lit ''role'') (JStr newRole) m else m) (pg_messages st)
            in notify (Role_switched newRole) (setMessage env (\<lambda>_. Some (updated, [updated])) st)))"

definition toggleReasoningExpansion :: "jsv \<Rightarrow> chat \<Rightarrow> chat" where
  "toggleReasoningExpansion mid st = st\<lparr>pg_messages :=
     map (\<lambda>m. if fld ''id'' m = mid \<and> has_role ''assistant'' m
              then obj_set (lit ''isReasoningExpanded'') (js_not (fld ''isReasoningExpanded'' m)) m else m) (pg_messages st)\<rparr>"

section \<open>Editing a message\<close>

definition handleMessageEdit :: "msg \<Rightarrow> chat \<Rightarrow> chat" where
  "handleMessageEdit target st = (case getTextContent target of
       None \<Rightarrow> st
     | Some words \<Rightarrow> st\<lparr>ch_editId := fld ''id'' target, ch_editRef := Some target, ch_editValue := words\<rparr>)"

definition handleEditCancel :: "chat \<Rightarrow> chat" where
  "handleEditCancel st = st\<lparr>ch_editId := JNull, ch_editRef := None, ch_editValue := JStr []\<rparr>"

text \<open>The items of a content array with the text items replaced.\<close>

fun edit_items :: "jstring \<Rightarrow> jsv list \<Rightarrow> jsv list option" where
  "edit_items s [] = Some []"
| "edit_items s (v # vs) =
     (if v = JUndef \<or> v = JNull then None
      else map_option (Cons (if get_prop (lit ''type'') v = JStr (lit ''text'')
             then JObj (obj_set (lit ''text'') (JStr s) (entries_of v)) else v)) (edit_items s vs))"

definition edited_content :: "jstring \<Rightarrow> msg \<Rightarrow> jsv option" where
  "edited_content s target = (case fld ''content'' target of
       JArr vs \<Rightarrow> map_option JArr (edit_items s vs)
     | _ \<Rightarrow> Some (JStr s))"

definition apply_edit :: "pg_env \<Rightarrow> nat option \<Rightarrow> jstring \<Rightarrow> chat \<Rightarrow> chat" where
  "apply_edit env ref s st =
     (let ms = pg_messages st
      in case locate ref (ch_editId st) ms of
           None \<Rightarrow> crash st
         | Some i \<Rightarrow> (case edited_content s (ms ! i) of
               None \<Rightarrow> crash st
             | Some content \<Rightarrow>
                 let updated = map (\<lambda>m. if fld ''id'' m = ch_editId st then obj_set (lit ''content'') content m else m) ms
                 in if has_role ''user'' (ms ! i) \<and> i < length ms - 1 \<and> has_role ''assistant'' (ms ! (i + 1))
                    then st\<lparr>ch_questions := ch_questions st @
                           [\<lparr>q_updated = updated, q_index = i, q_settings = ch_settings st\<rparr>]\<rparr>
                    else setMessage env (\<lambda>_. Some (updated, [updated])) st))"

text \<open>\<open>ref\<close> is where the message object that editing began with stands now.\<close>

definition handleEditSave :: "pg_env \<Rightarrow> nat option \<Rightarrow> chat \<Rightarrow> chat" where
  "handleEditSave env ref st =
     (case ch_editValue st of
        JStr s \<Rightarrow>
          if \<not> truthy (ch_editId st) \<or> trim s = [] then st
          else notify Message_updated (handleEditCancel (apply_edit env ref (trim s) st))
      | _ \<Rightarrow> st)"

definition edit_regenerate :: "pg_env \<Rightarrow> nat \<Rightarrow> chat \<Rightarrow> chat" where
  "edit_regenerate env k st =
     (let q = ch_questions st ! k;
          ms = take (q_index q + 1) (q_updated q)
      in start_timer (Regenerate (buildApiPayload ms None (cfg_inputs (q_settings q)) (cfg_enabled (q_settings q)))
             (obj_get (lit ''stream'') (cfg_inputs (q_settings q))))
           (setMessage env (\<lambda>_. Some (ms, [ms])) (st\<lparr>ch_questions := remove_at k (ch_questions st)\<rparr>)))"

definition edit_save_only :: "pg_env \<Rightarrow> nat \<Rightarrow> chat \<Rightarrow> chat" where
  "edit_save_only env k st =
     (let ms = q_updated (ch_questions st ! k)
      in setMessage env (\<lambda>_. Some (ms, [ms])) (st\<lparr>ch_questions := remove_at k (ch_questions st)\<rparr>))"

section \<open>Settings and storage\<close>

definition default_inputs :: props where
  "default_inputs =
     [(lit ''model'', JStr (lit ''gpt-4o'')), (lit ''group'', JStr []), (lit ''temperature'', JNum (double (7 / 10))),
      (lit ''top_p'', JNum (Fin 1)), (lit ''max_tokens'', JNum (Fin 4096)), (lit ''frequency_penalty'', JNum (Fin 0)),
      (lit ''presence_penalty'', JNum (Fin 0)), (lit ''seed'', JNull), (lit ''stream'', JBool True),
      (lit ''imageEnabled'', JBool False), (lit ''imageUrls'', JArr [JStr []])]"

definition default_enabled :: props where
  "default_enabled =
     [(lit ''temperature'', JBool True), (lit ''top_p'', JBool True), (lit ''max_tokens'', JBool False),
      (lit ''frequency_penalty'', JBool True), (lit ''presence_penalty'', JBool True), (lit ''seed'', JBool False)]"

definition getDefaultMessages :: "pg_env \<Rightarrow> msg list" where
  "getDefaultMessages env =
     [[(lit ''role'', JStr (lit ''user'')), (lit ''id'', JStr (lit ''2'')), (lit ''createAt'', JNum (Fin 1715676751919)),
       (lit ''content'', JStr (env_t env [40664, 35748, 29992, 25143, 28040, 24687]))],
      [(lit ''role'', JStr (lit ''assistant'')), (lit ''id'', JStr (lit ''3'')), (lit ''createAt'', JNum (Fin 1715676751919)),
       (lit ''content'', JStr (env_t env [40664, 35748, 21161, 25163, 28040, 24687])), (lit ''reasoningContent'', JStr []),
       (lit ''isReasoningExpanded'', JBool False)]]"

text \<open>\<^verbatim>\<open>max_tokens\<close> of stored or imported inputs: a number where one can be read.\<close>

definition read_max_tokens :: "jsv \<Rightarrow> jsv" where
  "read_max_tokens v = (let n = parse_int (js_string v) in if n = NaN then v else JNum n)"

definition default_config :: settings where
  "default_config = \<lparr>cfg_inputs = default_inputs, cfg_enabled = default_enabled, cfg_showDebug = JBool False,
     cfg_customMode = JBool False, cfg_customBody = JStr []\<rparr>"

definition loadConfig :: "web_storage \<Rightarrow> settings" where
  "loadConfig local =
     (case getItem (lit ''playground_config'') local of
        Some (JStr s) \<Rightarrow>
          (case (if s = [] then None else json_parse s) of
             None \<Rightarrow> default_config
           | Some c \<Rightarrow>
               if c = JNull then default_config
               else (let inputs = get_prop (lit ''inputs'') c
                     in \<lparr>cfg_inputs = obj_set (lit ''max_tokens'') (read_max_tokens (get_prop (lit ''max_tokens'') inputs))
                            (obj_assign default_inputs (entries_of inputs)),
                         cfg_enabled = obj_assign default_enabled (entries_of (get_prop (lit ''parameterEnabled'') c)),
                         cfg_showDebug = or_else (get_prop (lit ''showDebugPanel'') c) (JBool False),
                         cfg_customMode = or_else (get_prop (lit ''customRequestMode'') c) (JBool False),
                         cfg_customBody = or_else (get_prop (lit ''customRequestBody'') c) (JStr [])\<rparr>))
      | _ \<Rightarrow> default_config)"

definition saveConfig :: "pg_env \<Rightarrow> chat \<Rightarrow> chat" where
  "saveConfig env st =
     (let c = ch_settings st
      in case setItem (lit ''playground_config'') (json_stringify (JObj
             [(lit ''inputs'', JObj (cfg_inputs c)), (lit ''parameterEnabled'', JObj (cfg_enabled c)),
              (lit ''showDebugPanel'', cfg_showDebug c), (lit ''customRequestMode'', cfg_customMode c),
              (lit ''customRequestBody'', cfg_customBody c), (lit ''timestamp'', JStr (env_iso env))])) (pg_local st) of
        Some local \<Rightarrow> st\<lparr>pg_local := local\<rparr>
      | None \<Rightarrow> st)"

definition loadMessages :: "web_storage \<Rightarrow> jsv" where
  "loadMessages local =
     (case getItem (lit ''playground_messages'') local of
        Some (JStr s) \<Rightarrow>
          (case (if s = [] then None else json_parse s) of
             None \<Rightarrow> JNull
           | Some v \<Rightarrow> or_else (get_prop (lit ''messages'') v) JNull)
      | _ \<Rightarrow> JNull)"

text \<open>
  Stored and imported lists are lists of message objects; for any other value the model ends with the
  page taken down.
\<close>

definition as_messages :: "jsv \<Rightarrow> msg list option" where
  "as_messages v = (case v of
       JArr vs \<Rightarrow> if list_all is_plain_object vs then Some (map entries_of vs) else None
     | _ \<Rightarrow> None)"

definition show_messages :: "jsv \<Rightarrow> chat \<Rightarrow> chat" where
  "show_messages v st = (case as_messages v of
       Some ms \<Rightarrow> st\<lparr>pg_messages := ms\<rparr>
     | None \<Rightarrow> crash st)"

definition import_settings :: "jsv \<Rightarrow> settings \<Rightarrow> settings" where
  "import_settings cfg c =
     (let inputs = get_prop (lit ''inputs'') cfg;
          enabled = get_prop (lit ''parameterEnabled'') cfg;
          showDebug = get_prop (lit ''showDebugPanel'') cfg
      in \<lparr>cfg_inputs = (if truthy inputs
            then obj_set (lit ''max_tokens'') (read_max_tokens (get_prop (lit ''max_tokens'') inputs))
                   (obj_assign (cfg_inputs c) (entries_of inputs))
            else cfg_inputs c),
          cfg_enabled = (if truthy enabled then obj_assign (cfg_enabled c) (entries_of enabled) else cfg_enabled c),
          cfg_showDebug = (if type_of showDebug = lit ''boolean'' then showDebug else cfg_showDebug c),
          cfg_customMode = or_else (get_prop (lit ''customRequestMode'') cfg) (cfg_customMode c),
          cfg_customBody = or_else (get_prop (lit ''customRequestBody'') cfg) (cfg_customBody c)\<rparr>)"

definition handleConfigImport :: "jsv \<Rightarrow> chat \<Rightarrow> chat" where
  "handleConfigImport cfg st0 =
     (let st = st0\<lparr>ch_settings := import_settings cfg (ch_settings st0)\<rparr>;
          messages = get_prop (lit ''messages'') cfg
      in if is_array messages then show_messages messages st else st)"

text \<open>
  Reading the chosen file. A configuration waits for the answer to a question, its messages are stored
  at once; any other file is refused.
\<close>

definition importConfig :: "pg_env \<Rightarrow> jstring \<Rightarrow> chat \<Rightarrow> chat" where
  "importConfig env words st =
     (case json_parse words of
        None \<Rightarrow> st
      | Some cfg \<Rightarrow>
          if truthy (get_prop (lit ''inputs'') cfg) \<and> truthy (get_prop (lit ''parameterEnabled'') cfg)
          then (let messages = get_prop (lit ''messages'') cfg
                in st\<lparr>pg_local := (if is_array messages then saveMessages env messages (pg_local st) else pg_local st),
                      ch_imports := ch_imports st @ [cfg]\<rparr>)
          else st)"

definition answer_import :: "nat \<Rightarrow> bool \<Rightarrow> chat \<Rightarrow> chat" where
  "answer_import k ok st0 =
     (let st = st0\<lparr>ch_imports := remove_at k (ch_imports st0)\<rparr>
      in if ok then handleConfigImport (ch_imports st0 ! k) st else st)"

definition clearConfig :: "web_storage \<Rightarrow> web_storage" where
  "clearConfig local = (case removeItem (lit ''playground_config'') local of
       None \<Rightarrow> local
     | Some local1 \<Rightarrow> (case removeItem (lit ''playground_messages'') local1 of
           None \<Rightarrow> local1
         | Some local2 \<Rightarrow> local2))"

definition handleConfigReset :: "bool \<Rightarrow> chat \<Rightarrow> chat" where
  "handleConfigReset resetMessages st0 =
     (let st = st0\<lparr>ch_settings := default_config\<rparr>
      in if resetMessages then start_timer Show_defaults (st\<lparr>pg_messages := []\<rparr>) else st)"

text \<open>The confirmed reset of the configuration panel.\<close>

definition handleReset :: "bool \<Rightarrow> chat \<Rightarrow> chat" where
  "handleReset resetMessages st = handleConfigReset resetMessages (st\<lparr>pg_local := clearConfig (pg_local st)\<rparr>)"

definition handleInputChange :: "jstring \<Rightarrow> jsv \<Rightarrow> chat \<Rightarrow> chat" where
  "handleInputChange name v st =
     st\<lparr>ch_settings := (ch_settings st)\<lparr>cfg_inputs := obj_set name v (cfg_inputs (ch_settings st))\<rparr>\<rparr>"

definition handleParameterToggle :: "jstring \<Rightarrow> chat \<Rightarrow> chat" where
  "handleParameterToggle name st =
     (let e = cfg_enabled (ch_settings st)
      in st\<lparr>ch_settings := (ch_settings st)\<lparr>cfg_enabled := obj_set name (js_not (obj_get name e)) e\<rparr>\<rparr>)"

definition handleClearMessages :: "pg_env \<Rightarrow> chat \<Rightarrow> chat" where
  "handleClearMessages env st = setMessage env (\<lambda>_. Some ([], [[]])) st"

section \<open>The first render\<close>

text \<open>Messages of an old version are dropped, which removes their stored text.\<close>

definition old_defaults :: "msg list \<Rightarrow> bool" where
  "old_defaults ms \<longleftrightarrow> length ms = 2 \<and> fld ''id'' (ms ! 0) = JStr (lit ''2'') \<and> fld ''id'' (ms ! 1) = JStr (lit ''3'') \<and>
     (fld ''content'' (ms ! 0) = JStr [20320, 22909] \<or>
      fld ''content'' (ms ! 1) = JStr [20320, 22909, 65292, 35831, 38382, 26377, 20160, 20040, 21487, 20197, 24110, 21161, 24744, 30340, 21527, 65311] \<or>
      fld ''content'' (ms ! 1) = JStr [20320, 22909, 65281, 24456, 39640, 20852, 35265, 21040, 20320, 12290, 26377, 20160, 20040, 25105, 21487, 20197, 24110, 21161, 20320, 30340, 21527, 65311])"

definition repair_last :: update where
  "repair_last ms =
     (if ms \<noteq> [] \<and> generating (last ms)
      then (case processIncompleteThinkTags (or_else (fld ''content'' (last ms)) (JStr []))
                   (or_else (fld ''reasoningContent'' (last ms)) (JStr [])) of
              None \<Rightarrow> None
            | Some (content, reasoning) \<Rightarrow>
                let updated = butlast ms @ [obj_assign (last ms)
                      [(lit ''status'', st_complete), (lit ''content'', content),
                       (lit ''reasoningContent'', or_else reasoning JNull), (lit ''isThinkingComplete'', JBool True)]]
                in Some (updated, [updated]))
      else Some (ms, []))"

definition fresh_chat :: "web_storage \<Rightarrow> chat" where
  "fresh_chat local = (let c = loadConfig local
   in \<lparr>pg_messages = [], pg_local = local, pg_source = None, pg_streams = [], pg_requests = 0,
      pg_debug = \<lparr>dbg_request = JNull, dbg_response = JNull, dbg_sse = None, dbg_streaming = False\<rparr>,
      pg_tab = lit ''preview'', pg_crashed = False, ch_counter = 4,
      ch_settings = c, ch_timers = [], ch_editId = JNull, ch_editRef = None, ch_editValue = JStr [], ch_questions = [], ch_notices = [], ch_hadMessages = False, ch_imports = []\<rparr>)"

definition open_page :: "pg_env \<Rightarrow> web_storage \<Rightarrow> chat" where
  "open_page env local =
     (let st = fresh_chat local; loaded = loadMessages local
      in if loaded = JNull then st\<lparr>pg_messages := getDefaultMessages env\<rparr>
         else case as_messages loaded of
           None \<Rightarrow> crash st
         | Some ms \<Rightarrow>
             if old_defaults ms
             then (case removeItem (lit ''playground_messages'') local of
                     None \<Rightarrow> crash st
                   | Some local' \<Rightarrow> st\<lparr>pg_messages := getDefaultMessages env, pg_local := local'\<rparr>)
             else setMessage env repair_last (st\<lparr>pg_messages := ms, ch_hadMessages := True\<rparr>))"

section \<open>Events of the page\<close>

definition fire :: "pg_env \<Rightarrow> nat \<Rightarrow> jstring option \<Rightarrow> chat \<Rightarrow> chat" where
  "fire env k failed st0 =
     (let st = st0\<lparr>ch_timers := remove_at k (ch_timers st0)\<rparr>
      in case ch_timers st0 ! k of
           Disable_images \<Rightarrow> handleInputChange (lit ''imageEnabled'') (JBool False) st
         | Send_again cfg words \<Rightarrow> onMessageSend env cfg words failed st
         | Regenerate payload isStream \<Rightarrow>
             sendRequest env payload isStream failed
               (st\<lparr>pg_messages := pg_messages st @ [createLoadingAssistantMessage env (ch_counter st)],
                   ch_counter := ch_counter st + 1\<rparr>)
         | Show_defaults \<Rightarrow> st\<lparr>pg_messages := getDefaultMessages env\<rparr>)"

text \<open>
  The effect of a change of language: the page that found no saved messages when it opened shows the
  default messages in the new language.
\<close>

definition language_changed :: "pg_env \<Rightarrow> chat \<Rightarrow> chat" where
  "language_changed env st = (if ch_hadMessages st then st else st\<lparr>pg_messages := getDefaultMessages env\<rparr>)"

datatype chat_event =
    Net net_event
  | Send jsv "jstring option"
  | Send_anew "nat option" msg
  | Delete "nat option" msg
  | Switch_role msg
  | Expand jsv
  | Edit msg
  | Edit_text jsv
  | Edit_save "nat option"
  | Edit_cancel
  | Answer_regenerate nat
  | Answer_save nat
  | Fire nat "jstring option"
  | Set_input jstring jsv
  | Toggle_parameter jstring
  | Clear_messages
  | Import_file jstring
  | Import_answer nat bool
  | Reset bool
  | Language
  | Save_config

text \<open>A position given with an event is one where the message of the handler stands.\<close>

definition valid_ref :: "nat option \<Rightarrow> msg option \<Rightarrow> chat \<Rightarrow> bool" where
  "valid_ref ref m st \<longleftrightarrow> (case ref of
       None \<Rightarrow> True
     | Some i \<Rightarrow> i < length (pg_messages st) \<and> m = Some (pg_messages st ! i))"

fun chat_step :: "pg_env \<times> chat_event \<Rightarrow> chat \<Rightarrow> chat" where
  "chat_step (env, Net e) st = net_step (env, e) st"
| "chat_step (env, Send content failed) st = onMessageSend env (ch_settings st) content failed st"
| "chat_step (env, Send_anew ref m) st = (if valid_ref ref (Some m) st then handleMessageReset ref m st else st)"
| "chat_step (env, Delete ref m) st = (if valid_ref ref (Some m) st then handleMessageDelete env ref m st else st)"
| "chat_step (env, Switch_role m) st = handleRoleToggle env m st"
| "chat_step (env, Expand mid) st = toggleReasoningExpansion mid st"
| "chat_step (env, Edit m) st = handleMessageEdit m st"
| "chat_step (env, Edit_text v) st = st\<lparr>ch_editValue := v\<rparr>"
| "chat_step (env, Edit_save ref) st = (if valid_ref ref (ch_editRef st) st then handleEditSave env ref st else st)"
| "chat_step (env, Edit_cancel) st = handleEditCancel st"
| "chat_step (env, Answer_regenerate k) st = (if k < length (ch_questions st) then edit_regenerate env k st else st)"
| "chat_step (env, Answer_save k) st = (if k < length (ch_questions st) then edit_save_only env k st else st)"
| "chat_step (env, Fire k failed) st = (if k < length (ch_timers st) then fire env k failed st else st)"
| "chat_step (env, Set_input name v) st = handleInputChange name v st"
| "chat_step (env, Toggle_parameter name) st = handleParameterToggle name st"
| "chat_step (env, Clear_messages) st = handleClearMessages env st"
| "chat_step (env, Import_file s) st = importConfig env s st"
| "chat_step (env, Import_answer k ok) st = (if k < length (ch_imports st) then answer_import k ok st else st)"
| "chat_step (env, Reset resetMessages) st = handleReset resetMessages st"
| "chat_step (env, Language) st = language_changed env st"
| "chat_step (env, Save_config) st = saveConfig env st"

end
