(* ===== verification/Playground_Properties.thy ===== *)
theory Playground_Properties
  imports Playground_Page
begin

text \<open>
  What the playground promises: late events of the network touch only the message that is still being
  generated; a message that is sent gets the answer its stream spells, which is saved; messages keep
  distinct identifiers as long as the page stays open. After it is opened again it hands out the same
  identifiers anew, and deleting one message deletes another with it.
\<close>

section \<open>Late events\<close>

text \<open>
  C21: Whatever the event sources, the plain requests and the stop button deliver, in any order and also
  after the page moved on, the list keeps its length and all messages before the last; the last message
  keeps its identifier, role and time, and a finished message is not changed at all.
\<close>

theorem late_events_touch_last:
  "let ms = pg_messages st; ms' = pg_messages (fold net_step es st)
   in length ms' = length ms \<and> butlast ms' = butlast ms \<and>
      (if ms = [] \<or> finished (last ms) then ms' = ms else same_message (last ms) (last ms'))"
proof -
  have "develops (pg_messages st) (pg_messages (fold net_step es st))"
    by (rule net_machine.run_inv) simp
  then show ?thesis
    by (auto simp: Let_def develops_def same_message_def)
qed

section \<open>A message and its answer\<close>

lemma createMessage_get:
  "fld ''role'' (createMessage env n role content options) =
     (case map_of (rev options) (lit ''role'') of Some v \<Rightarrow> v | None \<Rightarrow> JStr (lit role))"
  "fld ''content'' (createMessage env n role content options) =
     (case map_of (rev options) (lit ''content'') of Some v \<Rightarrow> v | None \<Rightarrow> content)"
  "fld ''id'' (createMessage env n role content options) =
     (case map_of (rev options) (lit ''id'') of Some v \<Rightarrow> v | None \<Rightarrow> JStr (show_nat n))"
  "fld ''status'' (createMessage env n role content options) =
     (case map_of (rev options) (lit ''status'') of Some v \<Rightarrow> v | None \<Rightarrow> JUndef)"
  "fld ''reasoningContent'' (createMessage env n role content options) =
     (case map_of (rev options) (lit ''reasoningContent'') of Some v \<Rightarrow> v | None \<Rightarrow> JUndef)"
  by (simp_all add: createMessage_def obj_get_assign split: option.split)

lemma loading_message:
  "holds_text [] [] (createLoadingAssistantMessage env n)"
  "fld ''id'' (createLoadingAssistantMessage env n) = JStr (show_nat n)"
  by (simp_all add: holds_text_def generating_def createLoadingAssistantMessage_def createMessage_get)

text \<open>The page of a user who types a message with the default way of sending, streamed and without images.\<close>

definition plain_sending :: "chat \<Rightarrow> bool" where
  "plain_sending st \<longleftrightarrow> \<not> (truthy (cfg_customMode (ch_settings st)) \<and> truthy (cfg_customBody (ch_settings st))) \<and>
     truthy (obj_get (lit ''stream'') (cfg_inputs (ch_settings st))) \<and>
     valid_urls (obj_get (lit ''imageUrls'') (cfg_inputs (ch_settings st))) \<noteq> None \<and>
     \<not> truthy (obj_get (lit ''imageEnabled'') (cfg_inputs (ch_settings st)))"

definition sent_message :: "pg_env \<Rightarrow> nat \<Rightarrow> jstring \<Rightarrow> msg" where
  "sent_message env n words = createMessage env n ''user'' (JStr words) []"

lemma plain_content: "\<not> truthy images \<Longrightarrow> buildMessageContent (JStr words) urls images = JStr words"
  by (simp add: buildMessageContent_def or_else_def Let_def)

lemma send_plain:
  fixes env :: pg_env and words :: jstring
  assumes "plain_sending st"
  defines "n \<equiv> ch_counter st"
  defines "ms \<equiv> pg_messages st @ [sent_message env (n + 2) words]"
  shows "onMessageSend env (ch_settings st) (JStr words) None st =
     handleSSE env (buildApiPayload ms None (cfg_inputs (ch_settings st)) (cfg_enabled (ch_settings st))) None
       (st\<lparr>ch_counter := n + 3, pg_messages := ms @ [createLoadingAssistantMessage env (n + 1)],
           pg_local := save_list env (ms @ [createLoadingAssistantMessage env (n + 1)]) (pg_local st)\<rparr>)"
  using assms(1)
  by (auto simp: onMessageSend_def plain_sending_def Let_def plain_content setMessage_def sendRequest_def
      sent_message_def ms_def n_def)

text \<open>
  C20: A message that is sent is answered by what its stream spells: after the user's text the list holds
  one assistant message whose content is the texts of all chunks in order, whose reasoning is their
  reasoning texts in order, and which is complete; everything before is as it was, the whole list is what
  was saved last, and the source is let go. The request body asks the selected model with the
  conversation up to and including the new message.
\<close>

theorem sent_message_is_answered:
  assumes "plain_sending st" "list_all (\<lambda>(env, d, exn). good_chunk d) es"
  shows "let n = length (pg_streams st);
             ms = pg_messages st @ [sent_message env (ch_counter st + 2) words];
             sent = onMessageSend env (ch_settings st) (JStr words) None st;
             final = fold net_step (map (\<lambda>(env, d, exn). (env, Sse_message n d exn)) es @
                       [(env', Sse_message n (lit ''[DONE]'') exn')]) sent
         in dbg_request (pg_debug sent) = buildApiPayload ms None (cfg_inputs (ch_settings st)) (cfg_enabled (ch_settings st)) \<and>
            (\<exists>m. pg_messages final = ms @ [m] \<and>
               fld ''role'' m = JStr (lit ''assistant'') \<and> fld ''id'' m = JStr (show_nat (ch_counter st + 1)) \<and>
               fld ''content'' m = JStr (concat (map (\<lambda>(env, d, exn). chunk_text [''content''] d) es)) \<and>
               fld ''reasoningContent'' m =
                 JStr (concat (map (\<lambda>(env, d, exn). chunk_text [''reasoning_content'', ''reasoning''] d) es)) \<and>
               fld ''status'' m = st_complete \<and>
               (\<exists>local. pg_local final = save_list env' (ms @ [m]) local) \<and>
               pg_source final = None \<and> pg_crashed final = pg_crashed st)"
proof -
  let ?n = "length (pg_streams st)"
  let ?ms = "pg_messages st @ [sent_message env (ch_counter st + 2) words]"
  let ?load = "createLoadingAssistantMessage env (ch_counter st + 1)"
  let ?sent = "onMessageSend env (ch_settings st) (JStr words) None st"
  let ?es = "map (\<lambda>(env, d, exn). (env, Sse_message ?n d exn)) es"
  note sent = send_plain [OF assms(1), of env words]
  have "streaming ?ms ?load [] [] (save_list env (?ms @ [?load]) (pg_local st)) (pg_crashed st) ?n ?sent"
    by (simp add: streaming_def sent handleSSE_def Let_def loading_message same_message_def)
  from streaming_done [OF streaming_messages [OF this assms(2)], of env' exn']
  obtain m where m: "pg_messages (net_step (env', Sse_message ?n (lit ''[DONE]'') exn') (fold net_step ?es ?sent)) = ?ms @ [m]"
      "same_message ?load m" and rest:
      "fld ''content'' m = JStr (concat (map (\<lambda>(env, d, exn). chunk_text [''content''] d) es))"
      "fld ''reasoningContent'' m = JStr (concat (map (\<lambda>(env, d, exn). chunk_text [''reasoning_content'', ''reasoning''] d) es))"
      "fld ''status'' m = st_complete"
      "pg_local (net_step (env', Sse_message ?n (lit ''[DONE]'') exn') (fold net_step ?es ?sent)) =
         save_list env' (?ms @ [m]) (save_list env (?ms @ [?load]) (pg_local st))"
      "pg_source (net_step (env', Sse_message ?n (lit ''[DONE]'') exn') (fold net_step ?es ?sent)) = None"
      "pg_crashed (net_step (env', Sse_message ?n (lit ''[DONE]'') exn') (fold net_step ?es ?sent)) = pg_crashed st"
    by (auto simp: Let_def)
  have "fld ''role'' m = JStr (lit ''assistant'')" "fld ''id'' m = JStr (show_nat (ch_counter st + 1))"
    using m(2) loading_message(1) [of env "ch_counter st + 1"]
    by (simp_all add: same_message_def holds_text_def loading_message(2))
  moreover have "dbg_request (pg_debug ?sent) = buildApiPayload ?ms None (cfg_inputs (ch_settings st)) (cfg_enabled (ch_settings st))"
    by (simp add: sent handleSSE_def Let_def)
  ultimately show ?thesis using m(1) rest unfolding Let_def fold_append fold_simps comp_def by blast
qed

text \<open>A visitor's first message, answered by one chunk.\<close>

definition blank_storage :: web_storage where
  "blank_storage = \<lparr>st_items = Map.empty, st_read_throws = False, st_write_throws = False, st_remove_throws = False\<rparr>"

definition demo_env :: pg_env where
  "demo_env = \<lparr>env_t = id, env_now = Fin 0, env_iso = []\<rparr>"

definition demo_chunk :: jsv where
  "demo_chunk = JObj [(lit ''choices'', JArr [JObj [(lit ''delta'', JObj [(lit ''content'', JStr (lit ''Hi''))])]])]"

lemma load_blank: "loadMessages blank_storage = JNull" "loadConfig blank_storage = default_config"
  by (simp_all add: loadMessages_def loadConfig_def getItem_def blank_storage_def)

lemma demo_chunk_parse: "json_parse (json_stringify demo_chunk) = Some demo_chunk"
  by (rule json_parse_stringify) (simp add: demo_chunk_def wf_props_def)

lemma chunk_delta_demo: "chunk_delta demo_chunk = JObj [(lit ''content'', JStr (lit ''Hi''))]"
proof -
  have "array_index (lit ''0'') = Some 0"
    by (simp add: array_index_def all_digits_def is_digit_def digits_val_def lit_def)
  then show ?thesis by (simp add: chunk_delta_def demo_chunk_def)
qed

theorem sent_message_is_answered_witness:
  "\<exists>m. pg_messages (fold net_step [(demo_env, Sse_message 0 (json_stringify demo_chunk) []), (demo_env, Sse_message 0 (lit ''[DONE]'') [])]
          (chat_step (demo_env, Send (JStr (lit ''Hello'')) None) (open_page demo_env blank_storage))) =
        getDefaultMessages demo_env @ [sent_message demo_env 6 (lit ''Hello''), m] \<and>
      fld ''content'' m = JStr (lit ''Hi'') \<and> fld ''status'' m = st_complete"
proof -
  let ?st = "open_page demo_env blank_storage"
  let ?es = "[(demo_env, json_stringify demo_chunk, [] :: jstring)]"
  have o: "?st = (fresh_chat blank_storage)\<lparr>pg_messages := getDefaultMessages demo_env\<rparr>"
    by (simp add: open_page_def load_blank)
  have p: "plain_sending ?st" "ch_counter ?st = 4" "pg_streams ?st = []" "pg_messages ?st = getDefaultMessages demo_env"
    by (simp_all add: o plain_sending_def fresh_chat_def Let_def load_blank default_config_def default_inputs_def valid_urls_def)
  have "json_stringify demo_chunk \<noteq> lit ''[DONE]''"
    by (simp add: demo_chunk_def json_stringify_def json_wrap_def lit_def)
  then have g: "list_all (\<lambda>(env, d, exn). good_chunk d) ?es"
    by (simp add: good_chunk_def demo_chunk_parse chunk_field_def chunk_delta_demo plain_field_def) (simp add: demo_chunk_def)
  have t: "chunk_text [''content''] (json_stringify demo_chunk) = lit ''Hi''"
    by (simp add: chunk_text_def demo_chunk_parse chunk_field_def chunk_delta_demo)
  show ?thesis
    using sent_message_is_answered [OF p(1) g, of demo_env "lit ''Hello''" demo_env "[]"] p(2-4) t
    by (auto simp: Let_def simp del: net_step.simps)
qed

section \<open>Identifiers\<close>

text \<open>Distinct identifiers, all handed out before the counter reached \<open>n\<close>.\<close>

definition numbered :: "nat \<Rightarrow> msg list \<Rightarrow> bool" where
  "numbered n ms \<longleftrightarrow> distinct (map (fld ''id'') ms) \<and> set (map (fld ''id'') ms) \<subseteq> (\<lambda>k. JStr (show_nat k)) ` {..<n}"

definition page_numbered :: "chat \<Rightarrow> bool" where
  "page_numbered st \<longleftrightarrow> 4 \<le> ch_counter st \<and> numbered (ch_counter st) (pg_messages st) \<and>
     (\<forall>q \<in> set (ch_questions st). numbered (ch_counter st) (q_updated q)) \<and>
     \<not> truthy (cfg_customMode (ch_settings st))"











text \<open>The part of the page that its requests leave alone.\<close>

definition chat_view :: "chat \<Rightarrow> nat \<times> question list \<times> settings" where
  "chat_view st = (ch_counter st, ch_questions st, ch_settings st)"

lemma view_page [simp]:
  "chat_view (setMessage env f st) = chat_view st"
  "chat_view (show_response r st) = chat_view st"
  "chat_view (close_source n st) = chat_view st"
  "chat_view (set_stream n s st) = chat_view st"
  by (auto simp: chat_view_def setMessage_def show_response_def close_source_def set_stream_def split: option.split prod.split)

lemma view_updates [simp]:
  "chat_view (st\<lparr>pg_source := s\<rparr>) = chat_view st" "chat_view (st\<lparr>pg_debug := d\<rparr>) = chat_view st"
  "chat_view (st\<lparr>pg_tab := t\<rparr>) = chat_view st" "chat_view (st\<lparr>pg_requests := r\<rparr>) = chat_view st"
  "chat_view (st\<lparr>pg_streams := ss\<rparr>) = chat_view st"
  by (simp_all add: chat_view_def)

lemma view_stream [simp]: "chat_view (stream_delta env d st) = chat_view st"
  by (simp add: stream_delta_def stream_field_def Let_def)

lemma view_sse [simp]:
  "chat_view (sse_done env n st) = chat_view st"
  "chat_view (sse_unreadable env n data exn st) = chat_view st"
  "chat_view (sse_error env n data ready info st) = chat_view st"
  "chat_view (sse_state env n ready status info st) = chat_view st"
  "chat_view (request_failed env info err st) = chat_view st"
  "chat_view (onStopGenerator env st) = chat_view st"
  by (simp_all add: sse_done_def sse_unreadable_def sse_error_def sse_state_def request_failed_def onStopGenerator_def
      Let_def split: option.split prod.split)

lemma view_sse_message [simp]: "chat_view (sse_message env n data exn st) = chat_view st"
  by (simp add: sse_message_def Let_def split: option.split)

lemma view_request_reply [simp]: "chat_view (request_reply env exn info r st) = chat_view st"
  by (simp add: request_reply_def Let_def split: pg_reply.split option.split prod.split)







text \<open>A list that is replaced outright, and fields that do not matter.\<close>

lemma setMessage_const [simp]:
  "pg_messages (setMessage env (\<lambda>_. Some (ms, saves)) st) = ms"
  by (simp add: setMessage_def)

lemma setMessage_add [simp]:
  "pg_messages (setMessage env (\<lambda>ms. Some (ms @ xs, saves ms)) st) = pg_messages st @ xs"
  by (simp add: setMessage_def)

lemma view_fields [simp]:
  "ch_counter (setMessage env f st) = ch_counter st" "ch_questions (setMessage env f st) = ch_questions st"
  "ch_settings (setMessage env f st) = ch_settings st"
  by (simp_all add: setMessage_def split: option.split prod.split)

lemma page_numbered_ignores [simp]:
  "page_numbered (notify x st) = page_numbered st" "page_numbered (start_timer t st) = page_numbered st"
  "page_numbered (crash st) = page_numbered st" "page_numbered (handleEditCancel st) = page_numbered st"
  by (simp_all add: page_numbered_def notify_def start_timer_def crash_def handleEditCancel_def)















section \<open>Opening the page again\<close>

lemma loadMessages_save:
  assumes "works local" "\<forall>m \<in> set ms. wf_json (JObj m)"
  shows "loadMessages (save_list env ms local) = JArr (map JObj ms)"
proof -
  let ?v = "JObj [(lit ''messages'', JArr (map JObj ms)), (lit ''timestamp'', JStr (env_iso env))]"
  have "array_index (lit ''messages'') = None" "array_index (lit ''timestamp'') = None"
    by (simp_all add: array_index_def all_digits_def is_digit_def lit_def)
  then have "wf_json ?v" using assms(2) by (auto simp: wf_props_def key_before_def all_json_def simp del: wf_json.simps(7))
  then have p: "json_parse (json_stringify ?v) = Some ?v" by (rule json_parse_stringify)
  have "json_stringify ?v \<noteq> []" by (simp add: json_stringify_def json_wrap_def)
  then show ?thesis
    using assms(1) p by (simp add: loadMessages_def save_list_def saveMessages_def setItem_def getItem_def or_else_def)
qed

lemma loadConfig_save: "loadConfig (save_list env ms local) = loadConfig local"
  by (simp add: loadConfig_def save_list_def saveMessages_def setItem_def getItem_def)

lemma as_messages_list [simp]: "as_messages (JArr (map JObj ms)) = Some ms"
  by (simp add: as_messages_def list_all_iff comp_def)

lemma open_saved:
  assumes "works local" "\<forall>m \<in> set ms. wf_json (JObj m)" "\<not> old_defaults ms"
  shows "open_page env' (save_list env ms local) =
     setMessage env' repair_last ((fresh_chat (save_list env ms local))\<lparr>pg_messages := ms, ch_hadMessages := True\<rparr>)"
  using assms(3) by (simp add: open_page_def Let_def loadMessages_save [OF assms(1, 2)])




text \<open>An answer that was left while it was thinking, and the answer of an earlier visit.\<close>

definition left_message :: msg where
  "left_message = [(lit ''role'', JStr (lit ''assistant'')), (lit ''content'', JStr (lit ''<think>so'')), (lit ''id'', JStr (lit ''5'')),
     (lit ''reasoningContent'', JStr []), (lit ''status'', st_incomplete)]"

definition old_answer :: msg where
  "old_answer = [(lit ''role'', JStr (lit ''assistant'')), (lit ''content'', JStr (lit ''Hi'')), (lit ''id'', JStr (lit ''5'')),
     (lit ''status'', st_complete)]"

lemma demo_messages_wf: "wf_json (JObj left_message)" "wf_json (JObj old_answer)"
proof -
  have "array_index (lit k) = None" if "k \<in> {''role'', ''content'', ''id'', ''reasoningContent'', ''status''}" for k
    using that by (auto simp: array_index_def all_digits_def is_digit_def lit_def)
  then show "wf_json (JObj left_message)" "wf_json (JObj old_answer)"
    by (simp_all add: left_message_def old_answer_def wf_props_def key_before_def status_defs)
qed

lemma works_blank: "works blank_storage"
  by (simp add: blank_storage_def)


text \<open>
  C33: Identifiers start over when the page is opened again: the first answer after that has the
  identifier of the first answer of an earlier visit, and deleting it, although the handler knows the very
  message, deletes the earlier answer with it.
\<close>

theorem reopened_page_reuses_ids:
  assumes "works local" "\<forall>m \<in> set ms. wf_json (JObj m)" "\<not> old_defaults ms" "\<not> generating (last ms)"
    and "earlier \<in> set ms" "fld ''id'' earlier = JStr (show_nat 5)"
    and "plain_sending (open_page env (save_list env ms local))"
  shows "let opened = open_page env (save_list env ms local);
             sent = chat_step (env, Send (JStr words) None) opened;
             new = last (pg_messages sent);
             left = chat_step (env, Delete (Some (length ms + 1)) new) sent
         in pg_messages sent = ms @ [sent_message env 6 words, new] \<and> fld ''id'' new = fld ''id'' earlier \<and>
            earlier \<notin> set (pg_messages left) \<and> length (pg_messages left) < length (pg_messages sent) - 1"
proof -
  define opened where "opened = open_page env (save_list env ms local)"
  let ?new = "createLoadingAssistantMessage env 5"
  let ?ids = "\<lambda>m. fld ''id'' m \<noteq> JStr (show_nat 5)"
  have o: "pg_messages opened = ms" "ch_counter opened = 4"
    using assms(4, 5) unfolding opened_def open_saved [OF assms(1-3)]
    by (auto simp: setMessage_def repair_last_def fresh_chat_def Let_def)
  have s: "pg_messages (chat_step (env, Send (JStr words) None) opened) = ms @ [sent_message env 6 words, ?new]"
    using o by (simp add: send_plain [OF assms(7), folded opened_def] handleSSE_def Let_def)
  have "\<not> has_role ''user'' ?new"
    using loading_message(1) [of env 5] by (simp add: has_role_def holds_text_def)
  then have d: "pg_messages (chat_step (env, Delete (Some (length ms + 1)) ?new)
      (chat_step (env, Send (JStr words) None) opened)) = filter ?ids (ms @ [sent_message env 6 words, ?new])"
    using s by (simp add: valid_ref_def nth_append handleMessageDelete_def locate_def without_id_def Let_def
        notify_def loading_message(2) del: chat_step.simps(2))
  have "length (filter ?ids ms) < length ms" using length_filter_less [OF assms(5), of ?ids] assms(6) by simp
  then show ?thesis
    using s d assms(6) loading_message(2) [of env 5] by (auto simp: Let_def opened_def simp del: chat_step.simps)
qed

theorem reopened_page_reuses_ids_witness:
  "let sent = chat_step (demo_env, Send (JStr (lit ''Hello'')) None) (open_page demo_env (save_list demo_env [old_answer] blank_storage))
   in length (pg_messages sent) = 3 \<and>
      length (pg_messages (chat_step (demo_env, Delete (Some 2) (last (pg_messages sent))) sent)) < 2"
proof -
  have w: "\<forall>m \<in> set [old_answer]. wf_json (JObj m)" "\<not> old_defaults [old_answer]"
    "\<not> generating (last [old_answer])" "old_answer \<in> set [old_answer]"
    using demo_messages_wf by (simp_all add: old_defaults_def generating_def old_answer_def)
  have i: "fld ''id'' old_answer = JStr (show_nat 5)"
    by (simp add: old_answer_def) (simp add: lit_def show_nat_small)
  have "plain_sending (open_page demo_env (save_list demo_env [old_answer] blank_storage))"
    using w(3) unfolding open_saved [OF works_blank w(1, 2)]
    by (simp add: plain_sending_def setMessage_def repair_last_def fresh_chat_def Let_def loadConfig_save load_blank
        default_config_def default_inputs_def valid_urls_def)
  from reopened_page_reuses_ids [OF works_blank w i this, of "lit ''Hello''"] show ?thesis
    by (auto simp: Let_def numeral_2_eq_2 simp del: chat_step.simps dest: arg_cong [of _ _ length])
qed

end
