(* ===== verification/Spec2Isabelle.thy ===== *)
theory Spec2Isabelle
  imports Status_Guard Param_Properties Pricing_Properties Workspace_Properties Workspace_Message Auth_Properties
    Json_Editor_Properties Ratio_Sync_Properties Passkey Playground_Properties
begin

text \<open>
  A verification development for the web console of the gateway (\<^verbatim>\<open>src/web/src\<close>). The console is a React
  application; what is modelled is its logic: parsers and printers, the state and the handlers of its
  editors, and the pages that talk to the server while the user goes on working.

  \<^bold>\<open>How code becomes definitions.\<close> A JavaScript string is its list of UTF-16 code units, a number a binary64
  value, a value of unknown shape a \<open>jsv\<close>, an object its list of properties in enumeration order. A component is
  a record of its \<^verbatim>\<open>useState\<close> fields and refs together with what it sends outwards (notices, requests, emitted
  values). A handler is a function on that record which contains its guards and early returns; an exception
  is \<open>None\<close>, a left summand or a crashed page. Each page has a datatype of events and a step function that runs the
  handler of an event and the effects that follow it. A request is a token in the state; its answer is a later
  event, so answers arrive in any order, late, or never. Third-party code (the HTTP client, the event source, the
  browser's credential interface, translations, Unicode case maps, the clock) enters as parameters or with the
  events. Names follow the source; a suffix or a word in lower case marks a part of a larger function.

  \<^bold>\<open>Shared theories.\<close>
  \<^item> \<open>Prelude\<close>: array routines, stable sorting, and the locales \<open>state_machine\<close> (an invariant kept by every step
    holds on every run) and \<open>simulation\<close> (a machine that implements an abstract transition system), which the
    components interpret on their own step functions.
  \<^item> \<open>Js_String\<close>, \<open>Js_Number\<close>, \<open>Js_Number_Facts\<close>, \<open>Js_Fixed\<close>, \<open>Js_Value\<close>, \<open>Js_Uri\<close>: the parts of the language and the
    platform the code uses, among them rounding to binary64, the shortest printed decimal and that it is read back,
    rounding to twelve places, property order, truthiness, URL encoding and queries.
  \<^item> \<open>Json\<close>, \<open>Json_Facts\<close>: \<^verbatim>\<open>JSON.parse\<close> and \<^verbatim>\<open>JSON.stringify\<close>. The parser runs on fuel, the number of tokens,
    which is shown to be enough; parsing undoes printing on every JSON value.

  \<^bold>\<open>Components.\<close>
  \<^item> \<open>Status_Rules\<close> (\<^verbatim>\<open>helpers/statusCodeRules.js\<close>): what an accepted rule text covers, its normal form, and that texts
    with the same meaning have the same normal form. \<open>Status_Guard\<close> (\<^verbatim>\<open>statusCodeRiskGuard.js\<close>): the guard reports
    exactly the added redirects of the protected codes.
  \<^item> \<open>Param_Model\<close>, \<open>Param_Editor\<close>, \<open>Param_Machine\<close>, \<open>Param_Facts\<close>, \<open>Param_Properties\<close>
    (\<^verbatim>\<open>ParamOverrideEditorModal.jsx\<close>): the editor of request rewrites. Saving and opening again preserves the
    operations, validation reports the first defect, the list and the selection stay well formed under every
    sequence of actions; drafts, reordering, and the places where an edit is lost or changes a type.
  \<^item> \<open>Pricing_Model\<close>, \<open>Pricing_Editor\<close>, \<open>Pricing_Facts\<close>, \<open>Pricing_Machine\<close>, \<open>Pricing_Properties\<close>
    (\<^verbatim>\<open>useModelPricingEditorState.js\<close>): prices and ratios. What a submit sends, that ratios do not drift when they are
    opened and saved, that the preview shows what is saved, and the invariant of the editor.
  \<^item> \<open>Ratio_Sync\<close>, \<open>Ratio_Sync_Facts\<close>, \<open>Ratio_Sync_Properties\<close> (\<^verbatim>\<open>UpstreamRatioSync.jsx\<close>): the tables that are saved hold the
    chosen values and are otherwise unchanged; a model never has both a fixed price and ratios chosen.
  \<^item> \<open>Json_Editor\<close>, \<open>Json_Editor_Facts\<close>, \<open>Json_Editor_Properties\<close> (\<^verbatim>\<open>JSONEditor.jsx\<close>): in every reachable state (the inductive
    predicate \<open>edited\<close>) the rows show the value of the parent; a new row has the least free name.
  \<^item> \<open>Agent_Stream\<close>, \<open>Workspace_Data\<close>, \<open>Workspace_State\<close>, \<open>Workspace_Actions\<close> and the \<open>Workspace_\<close> theories on
    requests, locks, answers, limits and scope (\<^verbatim>\<open>pages/MujianWorkspace\<close>): the creation workspace. The refs that guard its
    requests refine a lock protocol (\<open>Workspace_Protocol\<close>); once the outstanding answers have come every lock is free;
    answers for another project or session change nothing; polling ends; a message that fails leaves the page as
    it was; drafts stay within their limits; the event stream delivers the same events however it is cut.
  \<^item> \<open>Auth_Return\<close>, \<open>Oauth_Login\<close>, \<open>Auth_Properties\<close> (\<^verbatim>\<open>authReturn.js\<close>, \<^verbatim>\<open>auth.jsx\<close>, \<^verbatim>\<open>api.js\<close>, \<^verbatim>\<open>OAuth2Callback.jsx\<close>): route
    guards and sign-in lead back to the page asked for and nowhere else; a return target is used once; the
    callback ends after at most four requests. \<open>Passkey\<close> (\<^verbatim>\<open>passkey.js\<close>): bytes survive their encoding.
  \<^item> \<open>Playground_Think\<close>, \<open>Playground_Request\<close>, \<open>Playground_Request_Facts\<close>, \<open>Playground_Page\<close>, \<open>Playground_Properties\<close>
    (\<^verbatim>\<open>useApiRequest.jsx\<close>, \<^verbatim>\<open>useMessageActions.jsx\<close>, \<^verbatim>\<open>useMessageEdit.jsx\<close>, \<^verbatim>\<open>usePlaygroundState.js\<close>,
    \<^verbatim>\<open>configStorage.js\<close>, \<^verbatim>\<open>pages/Playground\<close>): a sent message is answered by what its stream spells, late events touch
    only an unfinished last message, identifiers stay distinct while the page is open and repeat after a reload, a
    conversation survives a reload, marked thoughts are taken apart.

  \<^bold>\<open>Bounds.\<close> Apart from the JSON parser no definition runs on chosen fuel: loops are structural or have a proved
  measure, and chains of requests (polling, the retries of the sign-in callback) advance by events with a counter
  in the state, so that their end is a theorem about the counter.

  \<^bold>\<open>Abstractions.\<close> Members inherited from \<^verbatim>\<open>Object.prototype\<close> are not modelled. A confirmation dialog of the
  workspace is taken as closed when its action starts; focus and scrolling are left out. The pop-ups of the HTTP
  client are not recorded. The parent of the JSON editor stores every emitted text. Answers of the ratio
  endpoints have their documented types. In the playground a stored or imported list holds message objects;
  an event that closing a source delivers at once is taken as the next event.

  \<^bold>\<open>Not modelled.\<close> The Go services, whose answers are events here, and the desktop shell. JSX trees, tables, charts,
  icons and translations: their meaning is the rendered document. The large forms (\<^verbatim>\<open>EditChannelModal.jsx\<close>,
  \<^verbatim>\<open>SystemSetting.jsx\<close>, \<^verbatim>\<open>CustomOAuthSetting.jsx\<close>, \<^verbatim>\<open>CreateDeploymentModal.jsx\<close>, \<^verbatim>\<open>SettingsChannelAffinity.jsx\<close>):
  fields and validation live in the component library, and what has logic of its own is a component above. The
  table hooks (\<^verbatim>\<open>useChannelsData.jsx\<close> and its siblings): request, refresh and notice around lists that the
  server owns. Of the workspace: previews, downloads and scrolling. Of the playground: request bodies written by
  hand as they are copied to and from the messages, the preview of the request, the clipboard, image pasting
  and the download of an export.
\<close>

end
